theory Spec2Isabelle
  imports Main "HOL-Library.Sublist"
begin

section \<open>Go string primitives used by the backup engine\<close>

text \<open>
  Go strings are byte sequences; \<^typ>\<open>string\<close> is a list of 8-bit characters, so
  \<open>len\<close> is \<^const>\<open>length\<close> and \<open>s[i]\<close> is \<open>s ! i\<close> for \<open>i < len(s)\<close>.
\<close>

fun HasPrefix :: "string \<Rightarrow> string \<Rightarrow> bool" where
  "HasPrefix s [] = True"
| "HasPrefix [] (p # ps) = False"
| "HasPrefix (c # cs) (p # ps) = (c = p \<and> HasPrefix cs ps)"

text \<open>\<open>strings.Contains(s, substr)\<close>: some position of \<open>s\<close> starts with \<open>substr\<close>.\<close>

fun Contains :: "string \<Rightarrow> string \<Rightarrow> bool" where
  "Contains [] substr = (substr = [])"
| "Contains (c # cs) substr = (HasPrefix (c # cs) substr \<or> Contains cs substr)"

text \<open>
  \<open>strings.Split(s, "\n")\<close>: the pieces between newlines, in order; the empty string
  gives one empty piece. \<open>cur\<close> is the piece being read.
\<close>

fun Split_from :: "string \<Rightarrow> string \<Rightarrow> string list" where
  "Split_from cur [] = [cur]"
| "Split_from cur (c # cs) =
     (if c = CHR 0x0A then cur # Split_from [] cs else Split_from (cur @ [c]) cs)"

definition Split_newline :: "string \<Rightarrow> string list" where
  "Split_newline s = Split_from [] s"


section \<open>Errors\<close>

text \<open>
  The Go code reports failures as \<open>error\<close> values built with \<open>fmt.Errorf\<close>; each
  constructor stands for one of the messages of the modelled functions.
\<close>

datatype error =
    ErrNoRows
  | ErrDatabase
  | ErrDecrypt
  | ErrCheckExistingSchedule
  | ErrInvalidCron
  | ErrUpdateSchedule
  | ErrSaveSchedule
  | ErrScheduleBackup
  | ErrVerifyTools
  | ErrSSHTunnel
  | ErrCreateFolder
  | ErrUnsupportedType
  | ErrToolNotFound
  | ErrBackupFailed
  | ErrFileInfo
  | ErrSaveBackup
  | ErrAllFailed "string list"
  | ErrGetConnection
  | ErrUserSettings
  | ErrS3NotEnabled
  | ErrS3Endpoint
  | ErrS3Bucket
  | ErrS3AccessKey
  | ErrS3SecretKey
  | ErrS3DecryptSecret
  | ErrS3Client
  | ErrS3Upload
  | ErrS3Download
  | ErrTempDir
  | ErrNoS3ObjectKey
  | ErrRestoreTargetNotEmpty
  | ErrRestoreFailed nat


section \<open>Paginated backup listing (backup\_service.go)\<close>

text \<open>Modelled from the spec: the declaration of \<open>BackupListOptions\<close> is missing from
  the sources; its fields are those the handler fills and the repository's paginated
  query (\<open>ListPaginated(user_id, limit, offset, search)\<close>) reads.\<close>

record BackupListOptions =
  UserID :: string
  Limit :: int
  Offset :: int
  Search :: string

text \<open>
  \<open>BackupService.GetAllBackupsWithPagination\<close>: the three guards rewrite \<open>opts\<close> in
  sequence, then the repository query \<open>repo\<close> is called with the rewritten options.
  \<open>Limit\<close> and \<open>Offset\<close> are Go \<open>int\<close>; the guards only compare and assign constants,
  so no arithmetic can overflow and \<^typ>\<open>int\<close> is exact.
\<close>

definition GetAllBackupsWithPagination ::
  "(BackupListOptions \<Rightarrow> 'r) \<Rightarrow> BackupListOptions \<Rightarrow> 'r" where
  "GetAllBackupsWithPagination repo opts =
     (let opts1 = (if Limit opts \<le> 0 then opts\<lparr>Limit := 10\<rparr> else opts);
          opts2 = (if Limit opts1 > 100 then opts1\<lparr>Limit := 100\<rparr> else opts1);
          opts3 = (if Offset opts2 < 0 then opts2\<lparr>Offset := 0\<rparr> else opts2)
      in repo opts3)"

text \<open>The options the store is consulted with: the service run against a repository
  that hands back its argument.\<close>

definition effective_options :: "BackupListOptions \<Rightarrow> BackupListOptions" where
  "effective_options opts = GetAllBackupsWithPagination (\<lambda>o'. o') opts"


section \<open>PostgreSQL restore output validation (backup\_restore.go)\<close>

definition nonCriticalPatterns :: "string list" where
  "nonCriticalPatterns =
     [''WARNING:'', ''must be member of role'', ''no privileges'', ''NOTICE:'']"

text \<open>The \<open>for _, pattern := range nonCriticalPatterns\<close> loop of
  \<open>isCriticalPostgreSQLError\<close>, returning \<open>false\<close> at the first pattern found.\<close>

fun noPatternIn :: "string \<Rightarrow> string list \<Rightarrow> bool" where
  "noPatternIn line [] = True"
| "noPatternIn line (pattern # rest) =
     (if Contains line pattern then False else noPatternIn line rest)"

definition isCriticalPostgreSQLError :: "string \<Rightarrow> bool" where
  "isCriticalPostgreSQLError line = noPatternIn line nonCriticalPatterns"

text \<open>First loop of \<open>validatePostgreSQLRestore\<close>: \<open>criticalErrors\<close> grows by the
  lines that contain \<open>ERROR:\<close> and are critical.\<close>

fun collectCritical :: "string list \<Rightarrow> string list \<Rightarrow> string list" where
  "collectCritical [] criticalErrors = criticalErrors"
| "collectCritical (line # lines) criticalErrors =
     (if \<not> Contains line ''ERROR:'' then collectCritical lines criticalErrors
      else if isCriticalPostgreSQLError line
           then collectCritical lines (criticalErrors @ [line])
           else collectCritical lines criticalErrors)"

text \<open>Second loop: return the target-not-empty error at the first critical line that
  contains \<open>already exists\<close>.\<close>

fun firstAlreadyExists :: "string list \<Rightarrow> error option" where
  "firstAlreadyExists [] = None"
| "firstAlreadyExists (errLine # rest) =
     (if Contains errLine ''already exists'' then Some ErrRestoreTargetNotEmpty
      else firstAlreadyExists rest)"

text \<open>\<open>validatePostgreSQLRestore(output, cmdErr)\<close>; \<open>cmdErr\<close> is \<open>True\<close> when the
  process exited non-zero (\<open>cmdErr != nil\<close>). \<open>None\<close> is the \<open>nil\<close> error.\<close>

definition validatePostgreSQLRestore :: "string \<Rightarrow> bool \<Rightarrow> error option" where
  "validatePostgreSQLRestore output cmdErr =
     (let lines = Split_newline output;
          criticalErrors = collectCritical lines []
      in if length criticalErrors > 0
         then (case firstAlreadyExists criticalErrors of
                 Some e \<Rightarrow> Some e
               | None \<Rightarrow> Some (ErrRestoreFailed (length criticalErrors)))
         else None)"

text \<open>The classification in the words of the specification.\<close>

definition spec_non_critical :: "string \<Rightarrow> bool" where
  "spec_non_critical line =
     (Contains line ''WARNING:'' \<or> Contains line ''NOTICE:'' \<or>
      Contains line ''must be member of role'' \<or> Contains line ''no privileges'')"

definition spec_critical_lines :: "string \<Rightarrow> string list" where
  "spec_critical_lines output =
     filter (\<lambda>line. \<not> spec_non_critical line \<and> Contains line ''ERROR:'')
       (Split_newline output)"


section \<open>Persisted encoding of selected\_databases (connection repository)\<close>

text \<open>
  \<open>ConnectionRepository.UpdateSelectedDatabases\<close> builds the stored string with
  \<open>for i, db := range databases { if i > 0 { dbString += "," }; dbString += db }\<close>.
\<close>

fun joinDatabases_loop :: "nat \<Rightarrow> string list \<Rightarrow> string \<Rightarrow> string" where
  "joinDatabases_loop i [] dbString = dbString"
| "joinDatabases_loop i (db # rest) dbString =
     joinDatabases_loop (Suc i) rest ((if i > 0 then dbString @ '','' else dbString) @ db)"

definition joinDatabases :: "string list \<Rightarrow> string" where
  "joinDatabases databases =
     (if length databases > 0 then joinDatabases_loop 0 databases [] else [])"

text \<open>
  \<open>ConnectionRepository.GetConnection\<close> reads the string back with two nested index
  loops. The inner one advances \<open>end\<close> to the next comma or to the end of the string.
\<close>

function scanToComma :: "string \<Rightarrow> nat \<Rightarrow> nat" where
  "scanToComma s end' =
     (if end' < length s \<and> s ! end' \<noteq> CHR '','' then scanToComma s (end' + 1) else end')"
  by pat_completeness auto
termination
  by (relation "measure (\<lambda>(s, end'). length s - end')") auto

declare scanToComma.simps [simp del]

lemma scanToComma_ge: "i \<le> scanToComma s i"
proof (induction s i rule: scanToComma.induct)
  case (1 s e)
  show ?case
  proof (cases "e < length s \<and> s ! e \<noteq> CHR '',''")
    case True
    then have "e + 1 \<le> scanToComma s (e + 1)" using 1 by simp
    moreover have "scanToComma s e = scanToComma s (e + 1)"
      using True by (subst scanToComma.simps) simp
    ultimately show ?thesis by simp
  next
    case False
    then have "scanToComma s e = e" by (subst scanToComma.simps) auto
    then show ?thesis by simp
  qed
qed

text \<open>The outer loop: \<open>for i := 0; i < len(s); { ...; if end > i { append s[i:end] }; i = end + 1 }\<close>.\<close>

function parseDatabases_loop :: "string \<Rightarrow> nat \<Rightarrow> string list \<Rightarrow> string list" where
  "parseDatabases_loop s i selected =
     (if i < length s
      then (let end' = scanToComma s i;
                selected' = (if end' > i then selected @ [take (end' - i) (drop i s)]
                             else selected)
            in parseDatabases_loop s (end' + 1) selected')
      else selected)"
  by pat_completeness auto
termination
proof (relation "measure (\<lambda>(s, i, selected). length s - i)", goal_cases)
  case 1
  show ?case by simp
next
  case (2 s i selected x xa)
  have "i \<le> scanToComma s i" by (rule scanToComma_ge)
  with 2 show ?case by auto
qed

declare parseDatabases_loop.simps [simp del]

text \<open>The parse step as a whole: it only runs when the column is non-NULL and not the
  empty string; otherwise \<open>conn.SelectedDatabases\<close> keeps its zero value (a nil slice,
  the empty list here).\<close>

definition parseSelectedDatabases :: "string option \<Rightarrow> string list" where
  "parseSelectedDatabases col =
     (case col of
        None \<Rightarrow> []
      | Some str \<Rightarrow> (if str \<noteq> [] then parseDatabases_loop str 0 [] else []))"


text \<open>What the two loops compute, as a recursion over the characters: \<open>cur\<close> is the
  segment read so far; a comma closes it, and an empty segment is not kept.\<close>

fun commaSegments :: "string \<Rightarrow> string \<Rightarrow> string list" where
  "commaSegments cur [] = (if cur = [] then [] else [cur])"
| "commaSegments cur (c # cs) =
     (if c = CHR '','' then (if cur = [] then [] else [cur]) @ commaSegments [] cs
      else commaSegments (cur @ [c]) cs)"

definition splitAtCommas :: "string \<Rightarrow> string list" where
  "splitAtCommas name = commaSegments [] name"


section \<open>Connection store and connection handler\<close>

text \<open>A row of the \<open>connections\<close> table. \<open>username\<close> and \<open>password\<close> hold ciphertext;
  the columns read through \<open>sql.NullString\<close> or \<open>COALESCE\<close> are options (\<open>None\<close> is
  SQL NULL).\<close>

record connection_row =
  row_id :: string
  row_name :: string
  row_type :: string
  row_host :: string
  row_port :: int
  row_username :: string
  row_password :: string
  row_database_name :: string
  row_ssl :: int
  row_database_size :: int
  row_created_at :: string
  row_updated_at :: string
  row_last_connected_at :: "string option"
  row_user_id :: string
  row_status :: string
  row_ssh_enabled :: int
  row_ssh_host :: string
  row_ssh_port :: int
  row_ssh_username :: string
  row_ssh_password :: "string option"
  row_ssh_private_key :: "string option"
  row_selected_databases :: "string option"
  row_s3_cleanup_on_retention :: "int option"

text \<open>\<open>StoredConnection\<close> (fields prefixed \<open>conn_\<close>). A Go slice is either nil or a
  list of elements: \<open>conn_SelectedDatabasesNil\<close> tells the nil slice, whose list of
  elements \<open>conn_SelectedDatabases\<close> is empty.\<close>

record StoredConnection =
  conn_ID :: string
  conn_Name :: string
  conn_Type :: string
  conn_Host :: string
  conn_Port :: int
  conn_Username :: string
  conn_Password :: string
  conn_DatabaseName :: string
  conn_SelectedDatabases :: "string list"
  conn_SelectedDatabasesNil :: bool
  conn_SSL :: bool
  conn_SSHEnabled :: bool
  conn_SSHHost :: string
  conn_SSHPort :: int
  conn_SSHUsername :: string
  conn_SSHPassword :: string
  conn_SSHPrivateKey :: string
  conn_S3CleanupOnRetention :: bool
  conn_CreatedAt :: string
  conn_UpdatedAt :: string
  conn_LastConnectedAt :: "string option"
  conn_UserID :: string
  conn_Status :: string
  conn_DatabaseSize :: int

text \<open>
  \<open>ConnectionRepository.GetConnection\<close>. The encryption service is not part of the
  sources at hand, so \<open>Decrypt\<close> is a parameter: \<open>None\<close> is its error return.
  \<open>COALESCE(selected_databases, '')\<close> turns a NULL column into the empty string and
  \<open>COALESCE(s3_cleanup_on_retention, 1)\<close> a NULL flag into 1 before the scan. The
  slice \<open>conn.SelectedDatabases\<close> is allocated only when the parse step runs, that is
  when the string read is not empty; otherwise it stays nil.
\<close>

definition decryptOptional :: "(string \<Rightarrow> string option) \<Rightarrow> string option \<Rightarrow> error + string" where
  "decryptOptional Decrypt col =
     (case col of
        None \<Rightarrow> Inr []
      | Some enc \<Rightarrow>
          (if enc \<noteq> [] then (case Decrypt enc of None \<Rightarrow> Inl ErrDecrypt | Some v \<Rightarrow> Inr v)
           else Inr []))"

definition repo_GetConnection ::
  "(string \<Rightarrow> string option) \<Rightarrow> connection_row list \<Rightarrow> string \<Rightarrow> error + StoredConnection" where
  "repo_GetConnection Decrypt rows id' =
     (case find (\<lambda>r. row_id r = id') rows of
        None \<Rightarrow> Inl ErrNoRows
      | Some r \<Rightarrow>
          (let selectedDatabasesStr =
                 Some (case row_selected_databases r of None \<Rightarrow> [] | Some v \<Rightarrow> v);
               s3CleanupInt = (case row_s3_cleanup_on_retention r of None \<Rightarrow> 1 | Some v \<Rightarrow> v);
               selected = parseSelectedDatabases selectedDatabasesStr
           in case Decrypt (row_username r) of
                None \<Rightarrow> Inl ErrDecrypt
              | Some username \<Rightarrow>
             (case Decrypt (row_password r) of
                None \<Rightarrow> Inl ErrDecrypt
              | Some password \<Rightarrow>
             (case decryptOptional Decrypt (row_ssh_password r) of
                Inl e \<Rightarrow> Inl e
              | Inr sshPassword \<Rightarrow>
             (case decryptOptional Decrypt (row_ssh_private_key r) of
                Inl e \<Rightarrow> Inl e
              | Inr sshPrivateKey \<Rightarrow>
                  Inr \<lparr> conn_ID = row_id r, conn_Name = row_name r, conn_Type = row_type r,
                        conn_Host = row_host r, conn_Port = row_port r,
                        conn_Username = username, conn_Password = password,
                        conn_DatabaseName = row_database_name r,
                        conn_SelectedDatabases = selected,
                        conn_SelectedDatabasesNil =
                          (case selectedDatabasesStr of None \<Rightarrow> True | Some str \<Rightarrow> str = []),
                        conn_SSL = (row_ssl r \<noteq> 0),
                        conn_SSHEnabled = (row_ssh_enabled r \<noteq> 0),
                        conn_SSHHost = row_ssh_host r, conn_SSHPort = row_ssh_port r,
                        conn_SSHUsername = row_ssh_username r,
                        conn_SSHPassword = sshPassword, conn_SSHPrivateKey = sshPrivateKey,
                        conn_S3CleanupOnRetention = (s3CleanupInt \<noteq> 0),
                        conn_CreatedAt = row_created_at r, conn_UpdatedAt = row_updated_at r,
                        conn_LastConnectedAt = row_last_connected_at r,
                        conn_UserID = row_user_id r, conn_Status = row_status r,
                        conn_DatabaseSize = row_database_size r \<rparr>)))))"

text \<open>
  \<open>ConnectionRepository.UpdateSelectedDatabases\<close>: one \<open>UPDATE ... WHERE id = $2\<close>.
  \<open>exec_ok\<close> says whether \<open>db.Exec\<close> succeeds, \<open>now\<close> is SQLite's \<open>datetime('now')\<close>.
  A statement that matches no row is not an error.
\<close>

definition repo_UpdateSelectedDatabases ::
  "bool \<Rightarrow> string \<Rightarrow> connection_row list \<Rightarrow> string \<Rightarrow> string list \<Rightarrow> error + connection_row list" where
  "repo_UpdateSelectedDatabases exec_ok now rows id' databases =
     (let dbString = joinDatabases databases
      in if exec_ok
         then Inr (map (\<lambda>r. if row_id r = id'
                             then r\<lparr>row_selected_databases := Some dbString, row_updated_at := now\<rparr>
                             else r) rows)
         else Inl ErrDatabase)"

text \<open>\<open>ConnectionService.GetConnection\<close> hands the repository's answer through.\<close>

definition service_GetConnection ::
  "(string \<Rightarrow> string option) \<Rightarrow> connection_row list \<Rightarrow> string \<Rightarrow> error + StoredConnection" where
  "service_GetConnection Decrypt rows id' = repo_GetConnection Decrypt rows id'"

text \<open>The JSON object \<open>json.NewEncoder(w).Encode(connection)\<close> writes: one member per
  struct field, named by its \<open>json\<close> tag; no tag is \<open>"-"\<close> and none has \<open>omitempty\<close>.
  A nil slice and a nil pointer are written as \<open>null\<close>.\<close>

datatype json_value =
    JString string | JInt int | JBool bool | JNull | JStrings "string list"

definition StoredConnection_json :: "StoredConnection \<Rightarrow> (string \<times> json_value) list" where
  "StoredConnection_json c =
     [(''id'', JString (conn_ID c)),
      (''name'', JString (conn_Name c)),
      (''type'', JString (conn_Type c)),
      (''host'', JString (conn_Host c)),
      (''port'', JInt (conn_Port c)),
      (''username'', JString (conn_Username c)),
      (''password'', JString (conn_Password c)),
      (''database_name'', JString (conn_DatabaseName c)),
      (''selected_databases'',
         (if conn_SelectedDatabasesNil c then JNull else JStrings (conn_SelectedDatabases c))),
      (''ssl'', JBool (conn_SSL c)),
      (''ssh_enabled'', JBool (conn_SSHEnabled c)),
      (''ssh_host'', JString (conn_SSHHost c)),
      (''ssh_port'', JInt (conn_SSHPort c)),
      (''ssh_username'', JString (conn_SSHUsername c)),
      (''ssh_password'', JString (conn_SSHPassword c)),
      (''ssh_private_key'', JString (conn_SSHPrivateKey c)),
      (''s3_cleanup_on_retention'', JBool (conn_S3CleanupOnRetention c)),
      (''created_at'', JString (conn_CreatedAt c)),
      (''updated_at'', JString (conn_UpdatedAt c)),
      (''last_connected_at'',
         (case conn_LastConnectedAt c of None \<Rightarrow> JNull | Some t \<Rightarrow> JString t)),
      (''user_id'', JString (conn_UserID c)),
      (''status'', JString (conn_Status c)),
      (''database_size'', JInt (conn_DatabaseSize c))]"

datatype http_body = ErrorBody error | MessageBody string | ObjectBody "(string \<times> json_value) list"

datatype http_response = Response (status: nat) (body: http_body)

text \<open>\<open>ConnectionHandler.GetConnection\<close>; \<open>id'\<close> is the \<open>{id}\<close> path variable.\<close>

definition handler_GetConnection ::
  "(string \<Rightarrow> string option) \<Rightarrow> connection_row list \<Rightarrow> string \<Rightarrow> http_response" where
  "handler_GetConnection Decrypt rows id' =
     (if id' = [] then Response 400 (MessageBody ''connection id is required'')
      else (case service_GetConnection Decrypt rows id' of
              Inl e \<Rightarrow> Response 500 (ErrorBody e)
            | Inr connection \<Rightarrow> Response 200 (ObjectBody (StoredConnection_json connection))))"

text \<open>The members of a response body (none for an error body), and what the
  specification calls a blanked field: absent, null or the empty string.\<close>

definition body_member :: "http_response \<Rightarrow> string \<Rightarrow> json_value option" where
  "body_member resp key =
     (case body resp of ObjectBody members \<Rightarrow> map_of members key | _ \<Rightarrow> None)"

definition empty_or_absent :: "json_value option \<Rightarrow> bool" where
  "empty_or_absent v = (v = None \<or> v = Some JNull \<or> v = Some (JString []))"

text \<open>A concrete vault and one stored connection, used to run the handler: ciphertext
  is the plaintext behind the marker \<open>enc:\<close>; the owner of the connection is the user
  \<open>7c9e6679-7425-40de-944b-e07fc1f90ae7\<close>.\<close>

definition marker_Decrypt :: "string \<Rightarrow> string option" where
  "marker_Decrypt enc = (if take 4 enc = ''enc:'' then Some (drop 4 enc) else None)"

definition sample_row :: connection_row where
  "sample_row =
     \<lparr> row_id = ''c1'', row_name = ''pg1'', row_type = ''postgresql'',
       row_host = ''db.internal'', row_port = 5432,
       row_username = ''enc:admin'', row_password = ''enc:hunter2'',
       row_database_name = ''shop'', row_ssl = 0, row_database_size = 0,
       row_created_at = ''2025-01-01T00:00:00Z'', row_updated_at = ''2025-01-01T00:00:00Z'',
       row_last_connected_at = None, row_user_id = ''7c9e6679-7425-40de-944b-e07fc1f90ae7'',
       row_status = ''connected'',
       row_ssh_enabled = 1, row_ssh_host = ''jump'', row_ssh_port = 22,
       row_ssh_username = ''ops'', row_ssh_password = Some ''enc:tunnelpw'',
       row_ssh_private_key = Some ''enc:KEY'',
       row_selected_databases = None, row_s3_cleanup_on_retention = None \<rparr>"


section \<open>Backup engine: data, stores and the outside world\<close>

text \<open>
  Modelled from the spec: the declarations of the \<open>Backup\<close> and \<open>BackupSchedule\<close> structs
  are missing from the sources; their fields (prefixed \<open>b_\<close> and \<open>sched_\<close>) are the
  attributes of the Backup and BackupSchedule entities of the data model, under the
  names the backup repository's statements and the service use. Times are seconds on
  the UTC time line; \<open>None\<close> is a nil pointer or SQL NULL.
\<close>

record Backup =
  b_ID :: string
  b_ConnectionID :: string
  b_ScheduleID :: "string option"
  b_Status :: string
  b_Path :: string
  b_S3ObjectKey :: "string option"
  b_Size :: int
  b_StartedTime :: int
  b_CompletedTime :: "int option"
  b_CreatedAt :: int
  b_UpdatedAt :: int

record BackupSchedule =
  sched_ID :: string
  sched_ConnectionID :: string
  sched_Enabled :: bool
  sched_CronSchedule :: string
  sched_RetentionDays :: int
  sched_NextRunTime :: "int option"
  sched_LastBackupTime :: "int option"
  sched_CreatedAt :: int
  sched_UpdatedAt :: int

text \<open>The S3 part of \<open>UserSettings\<close> (settings/model.go); pointer fields are options.\<close>

record UserSettings =
  S3Enabled :: bool
  S3Endpoint :: "string option"
  S3Region :: "string option"
  S3Bucket :: "string option"
  S3AccessKey :: "string option"
  S3SecretKey :: "string option"
  S3UseSSL :: bool
  S3PathPrefix :: "string option"
  S3PurgeLocal :: bool

record S3Config =
  Endpoint :: string
  Region :: string
  Bucket :: string
  AccessKey :: string
  SecretKey :: string
  UseSSL :: bool
  PathPrefix :: string

record S3Storage =
  s3_bucket :: string
  s3_prefix :: string

text \<open>Effects on the stores, in the order they happen.\<close>

datatype event =
    EvRunDump string
  | EvPutObject string
  | EvRemoveFile string
  | EvInsertBackup Backup
  | EvDownload string string
  | EvRemoveObject string
  | EvDeleteBackup string

text \<open>
  The state the engine works on: the three tables, the local file system (path to
  size, \<open>None\<close> when no file is there), the keys in the S3 bucket, the registered cron
  jobs (\<open>cronEntries\<close> maps a schedule id to the entry id of its job, \<open>cronJobs\<close> maps an
  entry id to the expression it runs on, \<open>cronNextID\<close> is the engine's entry counter),
  and the log of effects.
\<close>

record world =
  connections :: "connection_row list"
  backups :: "Backup list"
  schedules :: "BackupSchedule list"
  files :: "string \<Rightarrow> int option"
  s3_objects :: "string set"
  cronEntries :: "string \<Rightarrow> nat option"
  cronJobs :: "(nat \<times> string) list"
  cronNextID :: nat
  trace :: "event list"

datatype tunnel_result = TunnelError | NoTunnel | Tunnel string int

datatype dump_tool = PgDump | MySQLDump | MongoDump | RedisDump

text \<open>What building and running a dump command gives: the builder returns \<open>nil\<close> when
  the binary is not found; otherwise the process exits (\<open>True\<close> for exit status 0) and
  may have written the output file with the given size.\<close>

datatype dump_outcome = ToolNotFound | Exited bool "int option"

datatype get_result = GetObjectError | CopyError int | Fetched int

text \<open>
  Everything the engine calls that is not in the sources at hand or lies outside the
  process, as parameters: helper functions of the repository whose files are missing
  (\<open>verifyBackupTools\<close>, \<open>setupSSHTunnelIfNeeded\<close>, the dump command builders,
  \<open>SanitizeConnectionName\<close>, the encryption service), the libraries (uuid, cron, the S3
  client) and the outcome of system calls and SQL statements. One clock reading
  \<open>env_now\<close> stands for the \<open>time.Now()\<close> calls of a run, and \<open>env_AddDate days\<close> is
  the instant \<open>time.Now().AddDate(0, 0, days)\<close>, which the standard library computes
  from the calendar date in the server's time zone. \<open>env_cron_Parse\<close> is the
  six-field parser: \<open>None\<close> for an invalid expression, otherwise the \<open>Next\<close> function of
  the schedule.
\<close>

record env =
  env_backupDir :: string
  env_TempDir :: string
  env_now :: int
  env_AddDate :: "int \<Rightarrow> int"
  env_timestamp :: string
  env_uuid_New :: "nat \<Rightarrow> string"
  env_verifyBackupTools :: "string \<Rightarrow> bool"
  env_setupSSHTunnelIfNeeded :: "StoredConnection \<Rightarrow> tunnel_result"
  env_SanitizeConnectionName :: "string \<Rightarrow> string"
  env_MkdirAll :: "string \<Rightarrow> bool"
  env_dump :: "dump_tool \<Rightarrow> StoredConnection \<Rightarrow> string \<Rightarrow> dump_outcome"
  env_GetUserSettingsInternal :: "string \<Rightarrow> UserSettings option"
  env_Decrypt :: "string \<Rightarrow> string option"
  env_NewS3Storage :: "S3Config \<Rightarrow> bool"
  env_PutObject :: "string \<Rightarrow> bool"
  env_GetObject :: "string \<Rightarrow> get_result"
  env_RemoveObject :: "string \<Rightarrow> bool"
  env_Remove :: "string \<Rightarrow> bool"
  env_insert_backup_ok :: "Backup \<Rightarrow> bool"
  env_delete_backup_ok :: "string \<Rightarrow> bool"
  env_query_ok :: bool
  env_write_schedule_ok :: bool
  env_cron_Parse :: "string \<Rightarrow> (int \<Rightarrow> int) option"
  env_cron_AddFunc_ok :: "string \<Rightarrow> bool"

text \<open>
  \<open>filepath.Join\<close> on path elements that are already clean (no \<open>.\<close> or \<open>..\<close>
  elements, no doubled or trailing slashes), where the \<open>Clean\<close> it ends with changes
  nothing; and \<open>filepath.Base\<close> with slash as the separator: the last element after
  trailing slashes are stripped, \<open>.\<close> for the empty path, \<open>/\<close> for a path of slashes.
\<close>

definition path_Join :: "string \<Rightarrow> string \<Rightarrow> string" where
  "path_Join dir name = dir @ ''/'' @ name"

definition path_Base :: "string \<Rightarrow> string" where
  "path_Base p =
     (if p = [] then ''.''
      else (let stripped = rev (dropWhile (\<lambda>c. c = CHR ''/'') (rev p));
                lastElem = rev (takeWhile (\<lambda>c. c \<noteq> CHR ''/'') (rev stripped))
            in if lastElem = [] then ''/'' else lastElem))"

text \<open>\<open>strings.TrimSuffix(s, "/")\<close>, \<open>strings.TrimPrefix(s, "/")\<close>, \<open>strings.Trim(s, "/")\<close>.\<close>

definition TrimSuffix_slash :: "string \<Rightarrow> string" where
  "TrimSuffix_slash s = (if s \<noteq> [] \<and> last s = CHR ''/'' then butlast s else s)"

definition TrimPrefix_slash :: "string \<Rightarrow> string" where
  "TrimPrefix_slash s = (case s of [] \<Rightarrow> [] | c # cs \<Rightarrow> if c = CHR ''/'' then cs else s)"

definition Trim_slash :: "string \<Rightarrow> string" where
  "Trim_slash s =
     rev (dropWhile (\<lambda>c. c = CHR ''/'') (rev (dropWhile (\<lambda>c. c = CHR ''/'') s)))"

fun Join_slash :: "string list \<Rightarrow> string" where
  "Join_slash [] = []"
| "Join_slash [p] = p"
| "Join_slash (p # q # ps) = p @ ''/'' @ Join_slash (q # ps)"

text \<open>\<open>S3Storage.getObjectKeyWithPath\<close> (S3 storage file).\<close>

definition getObjectKeyWithPath :: "S3Storage \<Rightarrow> string \<Rightarrow> string \<Rightarrow> string" where
  "getObjectKeyWithPath st fileName subfolder =
     (let parts0 = (if s3_prefix st \<noteq> [] then [TrimSuffix_slash (s3_prefix st)] else []);
          parts1 = (if subfolder \<noteq> [] then parts0 @ [Trim_slash subfolder] else parts0);
          parts2 = parts1 @ [TrimPrefix_slash fileName]
      in Join_slash parts2)"

text \<open>\<open>p == nil || *p == ""\<close> for a string pointer.\<close>

definition unset :: "string option \<Rightarrow> bool" where
  "unset p = (case p of None \<Rightarrow> True | Some v \<Rightarrow> v = [])"

text \<open>
  The block that \<open>uploadToS3IfEnabled\<close> and \<open>ensureBackupFileAvailable\<close> both run once
  S3 is known to be enabled: validate the four required settings, decrypt the secret
  key, default the region, build the configuration and create the client.
\<close>

definition s3ConfigOf :: "UserSettings \<Rightarrow> string \<Rightarrow> S3Config" where
  "s3ConfigOf userSettings secretKey =
     (let region = (if \<not> unset (S3Region userSettings) then the (S3Region userSettings)
                    else ''us-east-1'');
          pathPrefix = (case S3PathPrefix userSettings of None \<Rightarrow> [] | Some p \<Rightarrow> p)
      in \<lparr> Endpoint = the (S3Endpoint userSettings), Region = region,
            Bucket = the (S3Bucket userSettings), AccessKey = the (S3AccessKey userSettings),
            SecretKey = secretKey, UseSSL = S3UseSSL userSettings, PathPrefix = pathPrefix \<rparr>)"

definition configuredS3Storage :: "env \<Rightarrow> UserSettings \<Rightarrow> error + S3Storage" where
  "configuredS3Storage e userSettings =
     (if unset (S3Endpoint userSettings) then Inl ErrS3Endpoint
      else if unset (S3Bucket userSettings) then Inl ErrS3Bucket
      else if unset (S3AccessKey userSettings) then Inl ErrS3AccessKey
      else if unset (S3SecretKey userSettings) then Inl ErrS3SecretKey
      else (case env_Decrypt e (the (S3SecretKey userSettings)) of
              None \<Rightarrow> Inl ErrS3DecryptSecret
            | Some secretKey \<Rightarrow>
                (let s3Config = s3ConfigOf userSettings secretKey
                 in if env_NewS3Storage e s3Config
                    then Inr \<lparr> s3_bucket = Bucket s3Config, s3_prefix = PathPrefix s3Config \<rparr>
                    else Inl ErrS3Client)))"

text \<open>\<open>S3Storage.UploadFileWithPath\<close>: \<open>os.Open\<close> fails when the local file is not
  there; a successful \<open>PutObject\<close> puts the key into the bucket.\<close>

definition UploadFileWithPath ::
  "env \<Rightarrow> world \<Rightarrow> S3Storage \<Rightarrow> string \<Rightarrow> string \<Rightarrow> (error + string) \<times> world" where
  "UploadFileWithPath e w st localPath subfolder =
     (if files w localPath = None then (Inl ErrS3Upload, w)
      else (let objectKey = getObjectKeyWithPath st (path_Base localPath) subfolder
            in if env_PutObject e objectKey
               then (Inr objectKey,
                     w\<lparr> s3_objects := insert objectKey (s3_objects w),
                        trace := trace w @ [EvPutObject objectKey] \<rparr>)
               else (Inl ErrS3Upload, w)))"

text \<open>\<open>os.Remove\<close>: logged as attempted; the file goes away when the call succeeds.\<close>

definition os_Remove :: "env \<Rightarrow> world \<Rightarrow> string \<Rightarrow> bool \<times> world" where
  "os_Remove e w path =
     (if files w path \<noteq> None \<and> env_Remove e path
      then (True, w\<lparr> files := (files w)(path := None), trace := trace w @ [EvRemoveFile path] \<rparr>)
      else (False, w\<lparr> trace := trace w @ [EvRemoveFile path] \<rparr>))"

text \<open>
  \<open>BackupService.uploadToS3IfEnabled\<close>. Returns the error (\<open>None\<close> for \<open>nil\<close>), the
  backup with \<open>S3ObjectKey\<close> set when the upload went through, and the new state. A
  failed purge of the local file is only a warning.
\<close>

definition uploadToS3IfEnabled ::
  "env \<Rightarrow> world \<Rightarrow> Backup \<Rightarrow> string \<Rightarrow> string \<Rightarrow> error option \<times> Backup \<times> world" where
  "uploadToS3IfEnabled e w backup userID connectionName =
     (case env_GetUserSettingsInternal e userID of
        None \<Rightarrow> (Some ErrUserSettings, backup, w)
      | Some userSettings \<Rightarrow>
          if \<not> S3Enabled userSettings then (None, backup, w)
          else (case configuredS3Storage e userSettings of
                  Inl err \<Rightarrow> (Some err, backup, w)
                | Inr s3Storage \<Rightarrow>
                    (case UploadFileWithPath e w s3Storage (b_Path backup)
                            (env_SanitizeConnectionName e connectionName) of
                       (Inl err, w1) \<Rightarrow> (Some ErrS3Upload, backup, w1)
                     | (Inr objectKey, w1) \<Rightarrow>
                         (let backup1 = backup\<lparr> b_S3ObjectKey := Some objectKey \<rparr>
                          in if S3PurgeLocal userSettings
                             then (None, backup1, snd (os_Remove e w1 (b_Path backup1)))
                             else (None, backup1, w1)))))"

text \<open>\<open>BackupRepository.CreateBackup\<close>: one INSERT; \<open>id\<close> is the primary key.\<close>

definition repo_CreateBackup :: "env \<Rightarrow> world \<Rightarrow> Backup \<Rightarrow> error option \<times> world" where
  "repo_CreateBackup e w backup =
     (if env_insert_backup_ok e backup \<and> b_ID backup \<notin> set (map b_ID (backups w))
      then (None, w\<lparr> backups := backups w @ [backup],
                     trace := trace w @ [EvInsertBackup backup] \<rparr>)
      else (Some ErrDatabase, w))"

text \<open>The \<open>switch conn.Type\<close> that picks the dump command builder.\<close>

definition dumpToolFor :: "string \<Rightarrow> dump_tool option" where
  "dumpToolFor t =
     (if t = ''postgresql'' then Some PgDump
      else if t = ''mysql'' \<or> t = ''mariadb'' then Some MySQLDump
      else if t = ''mongodb'' then Some MongoDump
      else if t = ''redis'' then Some RedisDump
      else None)"

text \<open>\<open>cmd.CombinedOutput()\<close>: the process runs and may leave the output file.\<close>

definition runDump :: "world \<Rightarrow> string \<Rightarrow> int option \<Rightarrow> world" where
  "runDump w backupPath written =
     w\<lparr> files := (case written of None \<Rightarrow> files w
                               | Some n \<Rightarrow> (files w)(backupPath := Some n)),
        trace := trace w @ [EvRunDump backupPath] \<rparr>"

definition applyTunnel :: "tunnel_result \<Rightarrow> StoredConnection \<Rightarrow> StoredConnection" where
  "applyTunnel t conn =
     (case t of Tunnel effectiveHost effectivePort \<Rightarrow>
                  conn\<lparr> conn_Host := effectiveHost, conn_Port := effectivePort \<rparr>
              | _ \<Rightarrow> conn)"

definition connectionFolderOf :: "env \<Rightarrow> StoredConnection \<Rightarrow> string" where
  "connectionFolderOf e conn =
     path_Join (env_backupDir e) (env_SanitizeConnectionName e (conn_Name conn))"

definition dumpFileName :: "env \<Rightarrow> string \<Rightarrow> string" where
  "dumpFileName e dbName = dbName @ ''_'' @ env_timestamp e @ ''.sql''"

text \<open>
  \<open>BackupService.createSingleDatabaseBackup\<close>. The \<open>Backup\<close> value with status
  \<open>in_progress\<close> is a local variable; the only write to the backups table is the
  \<open>CreateBackup\<close> call at the end.
\<close>

definition createSingleDatabaseBackup ::
  "env \<Rightarrow> world \<Rightarrow> StoredConnection \<Rightarrow> string \<Rightarrow> (error + Backup) \<times> world" where
  "createSingleDatabaseBackup e w conn0 dbName =
     (if \<not> env_verifyBackupTools e (conn_Type conn0) then (Inl ErrVerifyTools, w)
      else (case env_setupSSHTunnelIfNeeded e conn0 of
              TunnelError \<Rightarrow> (Inl ErrSSHTunnel, w)
            | tunnel \<Rightarrow>
      (let conn = applyTunnel tunnel conn0;
           backupID = env_uuid_New e 0;
           filename = dumpFileName e dbName;
           connectionFolder = connectionFolderOf e conn
       in if \<not> env_MkdirAll e connectionFolder then (Inl ErrCreateFolder, w)
          else
      (let backupPath = path_Join connectionFolder filename;
           backup = \<lparr> b_ID = backupID, b_ConnectionID = conn_ID conn, b_ScheduleID = None,
                      b_Status = ''in_progress'', b_Path = backupPath, b_S3ObjectKey = None,
                      b_Size = 0, b_StartedTime = env_now e, b_CompletedTime = None,
                      b_CreatedAt = env_now e, b_UpdatedAt = env_now e \<rparr>
       in case dumpToolFor (conn_Type conn) of
            None \<Rightarrow> (Inl ErrUnsupportedType, w)
          | Some tool \<Rightarrow>
      (case env_dump e tool conn backupPath of
         ToolNotFound \<Rightarrow> (Inl ErrToolNotFound, w)
       | Exited ok written \<Rightarrow>
      (let w1 = runDump w backupPath written
       in if \<not> ok then (Inl ErrBackupFailed, w1)
          else (case files w1 backupPath of
                  None \<Rightarrow> (Inl ErrFileInfo, w1)
                | Some fileSize \<Rightarrow>
      (let backup1 = backup\<lparr> b_Size := fileSize, b_Status := ''completed'',
                             b_CompletedTime := Some (env_now e) \<rparr>
       in case uploadToS3IfEnabled e w1 backup1 (conn_UserID conn) (conn_Name conn) of
            (uploadErr, backup2, w2) \<Rightarrow>
              (case repo_CreateBackup e w2 backup2 of
                 (Some err, w3) \<Rightarrow> (Inl ErrSaveBackup, w3)
               | (None, w3) \<Rightarrow> (Inr backup2, w3))))))))))"


text \<open>
  \<open>BackupService.createMultiDatabaseBackup\<close>. First one pass of the body of the loop
  \<open>for _, dbName := range conn.SelectedDatabases\<close>, for the \<open>i\<close>-th database (\<open>i\<close>
  counts the \<open>uuid.New()\<close> calls): the \<open>return nil, err\<close> of an unsupported type leaves
  the loop and the function, a \<open>continue\<close> after \<open>failedDatabases\<close> has been extended
  is \<open>SubDumpFailed\<close>, and reaching the end of the body, where the backup is appended
  to \<open>successfulBackups\<close>, is \<open>SubDumpSaved\<close>.
\<close>

datatype sub_dump_result = SubDumpAbort error | SubDumpFailed | SubDumpSaved Backup

definition subDump ::
  "env \<Rightarrow> StoredConnection \<Rightarrow> string \<Rightarrow> nat \<Rightarrow> string \<Rightarrow> world \<Rightarrow> sub_dump_result \<times> world" where
  "subDump e conn connectionFolder i dbName w =
     (let backupID = env_uuid_New e i;
          backupPath = path_Join connectionFolder (dumpFileName e dbName);
          tempConn = conn\<lparr> conn_DatabaseName := dbName \<rparr>
      in case dumpToolFor (conn_Type conn) of
           None \<Rightarrow> (SubDumpAbort ErrUnsupportedType, w)
         | Some tool \<Rightarrow>
      (case env_dump e tool tempConn backupPath of
         ToolNotFound \<Rightarrow> (SubDumpFailed, w)
       | Exited ok written \<Rightarrow>
      (let w1 = runDump w backupPath written
       in if \<not> ok then (SubDumpFailed, w1)
          else (case files w1 backupPath of
                  None \<Rightarrow> (SubDumpFailed, w1)
                | Some fileSize \<Rightarrow>
      (let backup = \<lparr> b_ID = backupID, b_ConnectionID = conn_ID conn, b_ScheduleID = None,
                      b_Status = ''completed'', b_Path = backupPath, b_S3ObjectKey = None,
                      b_Size = fileSize, b_StartedTime = env_now e,
                      b_CompletedTime = Some (env_now e),
                      b_CreatedAt = env_now e, b_UpdatedAt = env_now e \<rparr>
       in case uploadToS3IfEnabled e w1 backup (conn_UserID conn) (conn_Name conn) of
            (uploadErr, backup1, w2) \<Rightarrow>
              (case repo_CreateBackup e w2 backup1 of
                 (Some err, w3) \<Rightarrow> (SubDumpFailed, w3)
               | (None, w3) \<Rightarrow> (SubDumpSaved backup1, w3)))))))"

text \<open>
  The loop carries the state together with the two local lists \<open>failedDatabases\<close> and
  \<open>successfulBackups\<close>. The first component of the result is the error of the
  \<open>return nil, err\<close> inside the loop, \<open>None\<close> when the loop runs to its end.
\<close>

fun multiLoop ::
  "env \<Rightarrow> StoredConnection \<Rightarrow> string \<Rightarrow> nat \<Rightarrow> string list \<Rightarrow> world \<Rightarrow> string list \<Rightarrow> Backup list
     \<Rightarrow> error option \<times> world \<times> string list \<times> Backup list" where
  "multiLoop e conn connectionFolder i [] w failedDatabases successfulBackups =
     (None, w, failedDatabases, successfulBackups)"
| "multiLoop e conn connectionFolder i (dbName # rest) w failedDatabases successfulBackups =
     (case subDump e conn connectionFolder i dbName w of
        (SubDumpAbort err, w1) \<Rightarrow> (Some err, w1, failedDatabases, successfulBackups)
      | (SubDumpFailed, w1) \<Rightarrow>
          multiLoop e conn connectionFolder (Suc i) rest w1
            (failedDatabases @ [dbName]) successfulBackups
      | (SubDumpSaved backup, w1) \<Rightarrow>
          multiLoop e conn connectionFolder (Suc i) rest w1
            failedDatabases (successfulBackups @ [backup]))"

text \<open>The run up to the end of the loop: tools verified once, tunnel opened once, the
  connection folder created, then the loop from empty lists.\<close>

definition multiDatabaseRun ::
  "env \<Rightarrow> world \<Rightarrow> StoredConnection \<Rightarrow> error option \<times> world \<times> string list \<times> Backup list" where
  "multiDatabaseRun e w conn0 =
     (if \<not> env_verifyBackupTools e (conn_Type conn0) then (Some ErrVerifyTools, w, [], [])
      else (case env_setupSSHTunnelIfNeeded e conn0 of
              TunnelError \<Rightarrow> (Some ErrSSHTunnel, w, [], [])
            | tunnel \<Rightarrow>
                (let conn = applyTunnel tunnel conn0;
                     connectionFolder = connectionFolderOf e conn
                 in if \<not> env_MkdirAll e connectionFolder then (Some ErrCreateFolder, w, [], [])
                    else multiLoop e conn connectionFolder 0 (conn_SelectedDatabases conn)
                           w [] [])))"

text \<open>What \<open>createMultiDatabaseBackup\<close> returns after the loop: an error when
  \<open>successfulBackups\<close> is empty, else \<open>successfulBackups[0]\<close>.\<close>

definition createMultiDatabaseBackup ::
  "env \<Rightarrow> world \<Rightarrow> StoredConnection \<Rightarrow> (error + Backup) \<times> world" where
  "createMultiDatabaseBackup e w conn0 =
     (case multiDatabaseRun e w conn0 of
        (Some err, w', failedDatabases, successfulBackups) \<Rightarrow> (Inl err, w')
      | (None, w', failedDatabases, successfulBackups) \<Rightarrow>
          (case successfulBackups of
             [] \<Rightarrow> (Inl (ErrAllFailed failedDatabases), w')
           | first # others \<Rightarrow> (Inr first, w')))"

text \<open>\<open>BackupService.CreateBackup\<close>.\<close>

definition CreateBackup :: "env \<Rightarrow> world \<Rightarrow> string \<Rightarrow> (error + Backup) \<times> world" where
  "CreateBackup e w connectionID =
     (case repo_GetConnection (env_Decrypt e) (connections w) connectionID of
        Inl err \<Rightarrow> (Inl ErrGetConnection, w)
      | Inr conn \<Rightarrow>
          if length (conn_SelectedDatabases conn) > 0 then createMultiDatabaseBackup e w conn
          else createSingleDatabaseBackup e w conn (conn_DatabaseName conn))"

text \<open>
  When a sub-dump fails, in the words of the specification: the \<open>i\<close>-th sub-dump, of
  the database \<open>dbName\<close>, started in the state \<open>w\<close>, fails when the connection type has
  no dump tool, when the tool is not found, when it exits non-zero, when no file is at
  the backup path after it has run (it wrote none and none was there), or when the
  record of the backup cannot be saved.
\<close>

definition subDumpRecordSaved ::
  "env \<Rightarrow> StoredConnection \<Rightarrow> nat \<Rightarrow> string \<Rightarrow> world \<Rightarrow> bool" where
  "subDumpRecordSaved e conn i backupPath w1 =
     (case uploadToS3IfEnabled e w1
             \<lparr> b_ID = env_uuid_New e i, b_ConnectionID = conn_ID conn, b_ScheduleID = None,
               b_Status = ''completed'', b_Path = backupPath, b_S3ObjectKey = None,
               b_Size = the (files w1 backupPath), b_StartedTime = env_now e,
               b_CompletedTime = Some (env_now e),
               b_CreatedAt = env_now e, b_UpdatedAt = env_now e \<rparr>
             (conn_UserID conn) (conn_Name conn) of
        (uploadErr, backup1, w2) \<Rightarrow>
          env_insert_backup_ok e backup1 \<and> b_ID backup1 \<notin> set (map b_ID (backups w2)))"

definition subDumpFails ::
  "env \<Rightarrow> StoredConnection \<Rightarrow> string \<Rightarrow> nat \<Rightarrow> string \<Rightarrow> world \<Rightarrow> bool" where
  "subDumpFails e conn connectionFolder i dbName w =
     (let backupPath = path_Join connectionFolder (dumpFileName e dbName)
      in case dumpToolFor (conn_Type conn) of
           None \<Rightarrow> True
         | Some tool \<Rightarrow>
             (case env_dump e tool (conn\<lparr> conn_DatabaseName := dbName \<rparr>) backupPath of
                ToolNotFound \<Rightarrow> True
              | Exited ok written \<Rightarrow>
                  \<not> ok \<or> (written = None \<and> files w backupPath = None) \<or>
                  \<not> subDumpRecordSaved e conn i backupPath (runDump w backupPath written)))"

text \<open>
  Which sub-dumps of a run fail, one flag per database in the order of the list: the
  sub-dumps run one after the other, each in the state the one before it has left.
\<close>

fun subDumpFailures ::
  "env \<Rightarrow> StoredConnection \<Rightarrow> string \<Rightarrow> nat \<Rightarrow> string list \<Rightarrow> world \<Rightarrow> bool list" where
  "subDumpFailures e conn connectionFolder i [] w = []"
| "subDumpFailures e conn connectionFolder i (dbName # rest) w =
     subDumpFails e conn connectionFolder i dbName w #
     subDumpFailures e conn connectionFolder (Suc i) rest
       (snd (subDump e conn connectionFolder i dbName w))"

text \<open>
  The same for a multi-database run on the connection \<open>conn0\<close>. When the backup tools
  are missing, the SSH tunnel cannot be opened or the connection folder cannot be
  created, no sub-dump can run and every one of them fails.
\<close>

definition multiSubDumpFailures :: "env \<Rightarrow> world \<Rightarrow> StoredConnection \<Rightarrow> bool list" where
  "multiSubDumpFailures e w conn0 =
     (let conn = applyTunnel (env_setupSSHTunnelIfNeeded e conn0) conn0;
          connectionFolder = connectionFolderOf e conn
      in if env_verifyBackupTools e (conn_Type conn0) \<and>
            env_setupSSHTunnelIfNeeded e conn0 \<noteq> TunnelError \<and>
            env_MkdirAll e connectionFolder
         then subDumpFailures e conn connectionFolder 0 (conn_SelectedDatabases conn0) w
         else replicate (length (conn_SelectedDatabases conn0)) True)"

text \<open>The databases of a list whose flag is \<open>False\<close>, in order.\<close>

definition unflagged :: "'a list \<Rightarrow> bool list \<Rightarrow> 'a list" where
  "unflagged xs flags = map fst (filter (\<lambda>(x, f). \<not> f) (zip xs flags))"

text \<open>The path of the dump file of a database of the connection \<open>conn0\<close>.\<close>

definition dumpPathOf :: "env \<Rightarrow> StoredConnection \<Rightarrow> string \<Rightarrow> string" where
  "dumpPathOf e conn0 dbName = path_Join (connectionFolderOf e conn0) (dumpFileName e dbName)"

text \<open>
  The key under which \<open>uploadToS3IfEnabled\<close> stores the file at \<open>path\<close> for a user with
  S3 enabled; \<open>None\<close> when the upload cannot go through (a required setting is missing,
  the secret key does not decrypt, the client cannot be created or \<open>PutObject\<close> fails).
\<close>

definition uploadKey :: "env \<Rightarrow> UserSettings \<Rightarrow> string \<Rightarrow> string \<Rightarrow> string option" where
  "uploadKey e us connectionName path =
     (case configuredS3Storage e us of
        Inl err \<Rightarrow> None
      | Inr st \<Rightarrow>
          (let objectKey = getObjectKeyWithPath st (path_Base path)
                             (env_SanitizeConnectionName e connectionName)
           in if env_PutObject e objectKey then Some objectKey else None))"

text \<open>
  A log of effects in which every removal of a local file comes directly after a
  successful upload; \<open>up\<close> says whether the event before the list was one.
\<close>

fun purge_after_upload :: "bool \<Rightarrow> event list \<Rightarrow> bool" where
  "purge_after_upload up [] = True"
| "purge_after_upload up (EvRemoveFile p # evs) = (up \<and> purge_after_upload False evs)"
| "purge_after_upload up (EvPutObject k # evs) = purge_after_upload True evs"
| "purge_after_upload up (ev # evs) = purge_after_upload False evs"


text \<open>
  The state of the local file and of the S3 key of a backup, for a user with S3 and
  \<open>purge_local\<close> enabled: when the upload of its file fails, the key is unset and the
  local file is there; when it goes through, the key is set and in the bucket, and the
  local file is gone exactly when the file system lets it be removed.
\<close>

definition upload_purge_state ::
  "env \<Rightarrow> UserSettings \<Rightarrow> string \<Rightarrow> world \<Rightarrow> Backup \<Rightarrow> bool" where
  "upload_purge_state e us connectionName w b =
     (case uploadKey e us connectionName (b_Path b) of
        None \<Rightarrow> b_S3ObjectKey b = None \<and> files w (b_Path b) \<noteq> None
      | Some k \<Rightarrow>
          b_S3ObjectKey b = Some k \<and> k \<in> s3_objects w \<and>
          (files w (b_Path b) = None \<longleftrightarrow> env_Remove e (b_Path b)))"


text \<open>
  \<open>S3Storage.DownloadFile\<close>: \<open>GetObject\<close>, then \<open>os.Create(localPath)\<close>, then \<open>io.Copy\<close>.
  A failing copy leaves the created file behind with what was copied so far; a key
  that is not in the bucket cannot be fetched.
\<close>

definition DownloadFile :: "env \<Rightarrow> world \<Rightarrow> string \<Rightarrow> string \<Rightarrow> error option \<times> world" where
  "DownloadFile e w objectKey localPath =
     (case env_GetObject e objectKey of
        GetObjectError \<Rightarrow> (Some ErrS3Download, w)
      | CopyError n \<Rightarrow> (Some ErrS3Download, w\<lparr> files := (files w)(localPath := Some n) \<rparr>)
      | Fetched n \<Rightarrow>
          if objectKey \<in> s3_objects w
          then (None, w\<lparr> files := (files w)(localPath := Some n),
                         trace := trace w @ [EvDownload objectKey localPath] \<rparr>)
          else (Some ErrS3Download, w\<lparr> files := (files w)(localPath := Some 0) \<rparr>))"

text \<open>\<open>BackupService.ensureBackupFileAvailable\<close>: the path to read and whether it is a
  temporary file.\<close>

definition ensureBackupFileAvailable ::
  "env \<Rightarrow> world \<Rightarrow> Backup \<Rightarrow> string \<Rightarrow> (error + string \<times> bool) \<times> world" where
  "ensureBackupFileAvailable e w backup userID =
     (if files w (b_Path backup) \<noteq> None then (Inr (b_Path backup, False), w)
      else if unset (b_S3ObjectKey backup) then (Inl ErrNoS3ObjectKey, w)
      else (case env_GetUserSettingsInternal e userID of
              None \<Rightarrow> (Inl ErrUserSettings, w)
            | Some userSettings \<Rightarrow>
                if \<not> S3Enabled userSettings then (Inl ErrS3NotEnabled, w)
                else (case configuredS3Storage e userSettings of
                        Inl err \<Rightarrow> (Inl err, w)
                      | Inr s3Storage \<Rightarrow>
                          (let tempDir = path_Join (env_TempDir e) ''velld-s3-downloads''
                           in if \<not> env_MkdirAll e tempDir then (Inl ErrTempDir, w)
                              else (let tempFilePath = path_Join tempDir (path_Base (b_Path backup))
                                    in case DownloadFile e w (the (b_S3ObjectKey backup)) tempFilePath of
                                         (Some err, w1) \<Rightarrow> (Inl ErrS3Download, w1)
                                       | (None, w1) \<Rightarrow> (Inr (tempFilePath, True), w1))))))"

text \<open>S3 enabled and fully configured, in the words of the specification: the switch is
  on and endpoint, bucket, access key and secret key are all set.\<close>

definition s3_fully_configured :: "UserSettings \<Rightarrow> bool" where
  "s3_fully_configured us =
     (S3Enabled us \<and> \<not> unset (S3Endpoint us) \<and> \<not> unset (S3Bucket us) \<and>
      \<not> unset (S3AccessKey us) \<and> \<not> unset (S3SecretKey us))"

text \<open>The download location \<open><tmp>/velld-s3-downloads/<basename(local_path)>\<close>.\<close>

definition tempDownloadPath :: "env \<Rightarrow> Backup \<Rightarrow> string" where
  "tempDownloadPath e backup =
     path_Join (path_Join (env_TempDir e) ''velld-s3-downloads'') (path_Base (b_Path backup))"


text \<open>
  When the rehydration of a backup goes through: the S3 key is set, the user's
  settings load and have S3 enabled and fully configured, the secret key decrypts, the
  client and the temporary directory can be created, and the object is in the bucket
  and downloads.
\<close>

definition rehydrates :: "env \<Rightarrow> world \<Rightarrow> Backup \<Rightarrow> string \<Rightarrow> bool" where
  "rehydrates e w backup userID =
     (\<not> unset (b_S3ObjectKey backup) \<and>
      (case env_GetUserSettingsInternal e userID of
         None \<Rightarrow> False
       | Some us \<Rightarrow>
           s3_fully_configured us \<and>
           (case env_Decrypt e (the (S3SecretKey us)) of
              None \<Rightarrow> False
            | Some secretKey \<Rightarrow> env_NewS3Storage e (s3ConfigOf us secretKey))) \<and>
      env_MkdirAll e (path_Join (env_TempDir e) ''velld-s3-downloads'') \<and>
      the (b_S3ObjectKey backup) \<in> s3_objects w \<and>
      (case env_GetObject e (the (b_S3ObjectKey backup)) of Fetched n \<Rightarrow> True | _ \<Rightarrow> False))"


text \<open>
  \<open>BackupRepository.GetBackupsOlderThan\<close>: the completed backups of the connection
  created before the cutoff. Only \<open>id\<close>, \<open>path\<close>, \<open>s3_object_key\<close> and \<open>created_at\<close> are
  selected; every other field of the returned values keeps its zero value.
\<close>

definition olderThanRow :: "Backup \<Rightarrow> Backup" where
  "olderThanRow b =
     \<lparr> b_ID = b_ID b, b_ConnectionID = [], b_ScheduleID = None, b_Status = [],
       b_Path = b_Path b, b_S3ObjectKey = b_S3ObjectKey b, b_Size = 0, b_StartedTime = 0,
       b_CompletedTime = None, b_CreatedAt = b_CreatedAt b, b_UpdatedAt = 0 \<rparr>"

definition repo_GetBackupsOlderThan ::
  "env \<Rightarrow> world \<Rightarrow> string \<Rightarrow> int \<Rightarrow> error + Backup list" where
  "repo_GetBackupsOlderThan e w connectionID cutoffTime =
     (if \<not> env_query_ok e then Inl ErrDatabase
      else Inr (map olderThanRow
                  (filter (\<lambda>b. b_ConnectionID b = connectionID \<and>
                               b_CreatedAt b < cutoffTime \<and>
                               b_Status b = ''completed'')
                          (backups w))))"

text \<open>\<open>BackupRepository.DeleteBackup\<close>: \<open>DELETE FROM backups WHERE id = $1\<close>.\<close>

definition repo_DeleteBackup :: "env \<Rightarrow> world \<Rightarrow> string \<Rightarrow> error option \<times> world" where
  "repo_DeleteBackup e w id' =
     (if env_delete_backup_ok e id'
      then (None, w\<lparr> backups := filter (\<lambda>b. b_ID b \<noteq> id') (backups w),
                     trace := trace w @ [EvDeleteBackup id'] \<rparr>)
      else (Some ErrDatabase, w))"

text \<open>\<open>S3Storage.DeleteFile\<close>: logged as attempted; the object goes away when
  \<open>RemoveObject\<close> succeeds.\<close>

definition S3_DeleteFile :: "env \<Rightarrow> world \<Rightarrow> string \<Rightarrow> bool \<times> world" where
  "S3_DeleteFile e w objectKey =
     (if env_RemoveObject e objectKey
      then (True, w\<lparr> s3_objects := s3_objects w - {objectKey},
                     trace := trace w @ [EvRemoveObject objectKey] \<rparr>)
      else (False, w\<lparr> trace := trace w @ [EvRemoveObject objectKey] \<rparr>))"

text \<open>
  The S3 client of \<open>cleanupOldBackups\<close>: \<open>s3Storage\<close> stays \<open>nil\<close> unless the settings
  could be loaded, S3 is enabled with its four required settings, the secret key
  decrypts and the client can be created.
\<close>

definition retentionS3Storage :: "env \<Rightarrow> UserSettings option \<Rightarrow> S3Storage option" where
  "retentionS3Storage e userSettings =
     (case userSettings of
        None \<Rightarrow> None
      | Some us \<Rightarrow>
          if S3Enabled us \<and> \<not> unset (S3Endpoint us) \<and> \<not> unset (S3Bucket us) \<and>
             \<not> unset (S3AccessKey us) \<and> \<not> unset (S3SecretKey us)
          then (case env_Decrypt e (the (S3SecretKey us)) of
                  None \<Rightarrow> None
                | Some secretKey \<Rightarrow>
                    (let s3Config = s3ConfigOf us secretKey
                     in if env_NewS3Storage e s3Config
                        then Some \<lparr> s3_bucket = Bucket s3Config, s3_prefix = PathPrefix s3Config \<rparr>
                        else None))
          else None)"

text \<open>The clean-up loop over \<open>oldBackups\<close>: S3 object, local file, record; a failing
  step is logged and the loop goes on.\<close>

fun cleanupLoop ::
  "env \<Rightarrow> StoredConnection \<Rightarrow> S3Storage option \<Rightarrow> Backup list \<Rightarrow> world \<Rightarrow> world" where
  "cleanupLoop e conn s3Storage [] w = w"
| "cleanupLoop e conn s3Storage (backup # rest) w =
     (let backupID = b_ID backup;
          w1 = (if \<not> unset (b_S3ObjectKey backup) \<and> s3Storage \<noteq> None \<and>
                   conn_S3CleanupOnRetention conn
                then snd (S3_DeleteFile e w (the (b_S3ObjectKey backup)))
                else w);
          w2 = (if files w1 (b_Path backup) \<noteq> None
                then snd (os_Remove e w1 (b_Path backup))
                else w1);
          w3 = snd (repo_DeleteBackup e w2 backupID)
      in cleanupLoop e conn s3Storage rest w3)"

text \<open>
  The value a computation on Go's 64-bit \<open>int\<close> leaves: the result modulo \<open>2^64\<close>,
  read as a signed number.
\<close>

definition wrap64 :: "int \<Rightarrow> int" where
  "wrap64 x = (x + 2 ^ 63) mod 2 ^ 64 - 2 ^ 63"

text \<open>
  \<open>BackupService.cleanupOldBackups\<close>. The cutoff is
  \<open>time.Now().AddDate(0, 0, -retentionDays)\<close>, with \<open>retentionDays\<close> an \<open>int\<close> that is
  negated before the call.
\<close>

definition retentionCutoff :: "env \<Rightarrow> int \<Rightarrow> int" where
  "retentionCutoff e retentionDays = env_AddDate e (wrap64 (- retentionDays))"

definition cleanupOldBackups :: "env \<Rightarrow> world \<Rightarrow> string \<Rightarrow> int \<Rightarrow> world" where
  "cleanupOldBackups e w connectionID retentionDays =
     (let cutoffTime = retentionCutoff e retentionDays
      in case repo_GetBackupsOlderThan e w connectionID cutoffTime of
           Inl err \<Rightarrow> w
         | Inr oldBackups \<Rightarrow>
             if length oldBackups = 0 then w
             else (case repo_GetConnection (env_Decrypt e) (connections w) connectionID of
                     Inl err \<Rightarrow> w
                   | Inr conn \<Rightarrow>
                       (let userSettings = env_GetUserSettingsInternal e (conn_UserID conn);
                            s3Storage = retentionS3Storage e userSettings
                        in cleanupLoop e conn s3Storage oldBackups w)))"

text \<open>The backups retention is about, in the words of the specification: those of the
  connection with status \<open>completed\<close> and \<open>created_at\<close> before the cutoff, which is
  \<open>now\<close> minus \<open>retention_days\<close> days of 86400 seconds.\<close>

definition expired :: "env \<Rightarrow> string \<Rightarrow> int \<Rightarrow> Backup \<Rightarrow> bool" where
  "expired e connectionID retentionDays b =
     (b_ConnectionID b = connectionID \<and> b_Status b = ''completed'' \<and>
      b_CreatedAt b < env_now e - retentionDays * 86400)"


text \<open>The run of \<open>createSingleDatabaseBackup\<close> up to the dump command, under the
  conditions that let it get there.\<close>

definition reaches_dump ::
  "env \<Rightarrow> StoredConnection \<Rightarrow> string \<Rightarrow> StoredConnection \<Rightarrow> string \<Rightarrow> dump_tool \<Rightarrow> bool" where
  "reaches_dump e conn0 dbName conn backupPath tool =
     (env_verifyBackupTools e (conn_Type conn0) \<and>
      env_setupSSHTunnelIfNeeded e conn0 \<noteq> TunnelError \<and>
      conn = applyTunnel (env_setupSSHTunnelIfNeeded e conn0) conn0 \<and>
      env_MkdirAll e (connectionFolderOf e conn) \<and>
      backupPath = path_Join (connectionFolderOf e conn) (dumpFileName e dbName) \<and>
      dumpToolFor (conn_Type conn) = Some tool)"


section \<open>Schedules\<close>

text \<open>Modelled from the spec: the declaration of \<open>ScheduleBackupRequest\<close> is missing
  from the sources; its fields are the three the handler validates and the service
  reads (connection id, 6-field cron expression, retention days).\<close>

record ScheduleBackupRequest =
  req_ConnectionID :: string
  req_CronSchedule :: string
  req_RetentionDays :: int

text \<open>\<open>ORDER BY created_at DESC LIMIT 1\<close>: a row with the greatest \<open>created_at\<close>.\<close>

fun latestSchedule :: "BackupSchedule list \<Rightarrow> BackupSchedule option" where
  "latestSchedule [] = None"
| "latestSchedule (s # rest) =
     (case latestSchedule rest of
        None \<Rightarrow> Some s
      | Some t \<Rightarrow> if sched_CreatedAt t > sched_CreatedAt s then Some t else Some s)"

text \<open>\<open>BackupRepository.GetBackupSchedule\<close>; no row is \<open>sql.ErrNoRows\<close>.\<close>

definition repo_GetBackupSchedule :: "env \<Rightarrow> world \<Rightarrow> string \<Rightarrow> error + BackupSchedule" where
  "repo_GetBackupSchedule e w connectionID =
     (if \<not> env_query_ok e then Inl ErrDatabase
      else (case latestSchedule (filter (\<lambda>s. sched_ConnectionID s = connectionID) (schedules w)) of
              None \<Rightarrow> Inl ErrNoRows
            | Some s \<Rightarrow> Inr s))"

text \<open>\<open>BackupRepository.UpdateBackupSchedule\<close>: \<open>UPDATE backup_schedules SET enabled,
  cron_schedule, retention_days, next_run_time, last_backup_time, updated_at WHERE id\<close>.\<close>

definition repo_UpdateBackupSchedule ::
  "env \<Rightarrow> world \<Rightarrow> BackupSchedule \<Rightarrow> error option \<times> world" where
  "repo_UpdateBackupSchedule e w schedule =
     (if env_write_schedule_ok e
      then (None,
            w\<lparr> schedules :=
                 map (\<lambda>s. if sched_ID s = sched_ID schedule
                          then s\<lparr> sched_Enabled := sched_Enabled schedule,
                                  sched_CronSchedule := sched_CronSchedule schedule,
                                  sched_RetentionDays := sched_RetentionDays schedule,
                                  sched_NextRunTime := sched_NextRunTime schedule,
                                  sched_LastBackupTime := sched_LastBackupTime schedule,
                                  sched_UpdatedAt := env_now e \<rparr>
                          else s)
                     (schedules w) \<rparr>)
      else (Some ErrDatabase, w))"

text \<open>\<open>BackupRepository.CreateBackupSchedule\<close>: one INSERT, \<open>id\<close> being the primary key;
  \<open>created_at\<close> and \<open>updated_at\<close> are written as the time of the insert.\<close>

definition repo_CreateBackupSchedule ::
  "env \<Rightarrow> world \<Rightarrow> BackupSchedule \<Rightarrow> error option \<times> world" where
  "repo_CreateBackupSchedule e w schedule =
     (if env_write_schedule_ok e \<and> sched_ID schedule \<notin> set (map sched_ID (schedules w))
      then (None,
            w\<lparr> schedules := schedules w @
                   [schedule\<lparr> sched_CreatedAt := env_now e, sched_UpdatedAt := env_now e \<rparr>] \<rparr>)
      else (Some ErrDatabase, w))"

text \<open>The cron engine: \<open>Remove\<close> drops the job with the entry id; \<open>AddFunc\<close> parses the
  expression and, when it is accepted, registers a job under the next entry id.\<close>

definition cron_Remove :: "world \<Rightarrow> nat \<Rightarrow> world" where
  "cron_Remove w entryID = w\<lparr> cronJobs := filter (\<lambda>j. fst j \<noteq> entryID) (cronJobs w) \<rparr>"

definition cron_AddFunc :: "env \<Rightarrow> world \<Rightarrow> string \<Rightarrow> (error + nat) \<times> world" where
  "cron_AddFunc e w spec =
     (if env_cron_AddFunc_ok e spec
      then (let entryID = Suc (cronNextID w)
            in (Inr entryID, w\<lparr> cronNextID := entryID, cronJobs := cronJobs w @ [(entryID, spec)] \<rparr>))
      else (Inl ErrScheduleBackup, w))"

text \<open>\<open>BackupService.ScheduleBackup\<close>.\<close>

definition ScheduleBackup :: "env \<Rightarrow> world \<Rightarrow> ScheduleBackupRequest \<Rightarrow> error option \<times> world" where
  "ScheduleBackup e w req =
     (case (case repo_GetBackupSchedule e w (req_ConnectionID req) of
              Inl err \<Rightarrow> if err \<noteq> ErrNoRows then Inl ErrCheckExistingSchedule else Inr None
            | Inr s \<Rightarrow> Inr (Some s)) of
        Inl err \<Rightarrow> (Some err, w)
      | Inr existingSchedule \<Rightarrow>
     (case env_cron_Parse e (req_CronSchedule req) of
        None \<Rightarrow> (Some ErrInvalidCron, w)
      | Some schedule \<Rightarrow>
     (let nextRun = schedule (env_now e)
      in case existingSchedule of
           Some existing0 \<Rightarrow>
             (let existing = existing0\<lparr> sched_Enabled := True,
                                        sched_CronSchedule := req_CronSchedule req,
                                        sched_RetentionDays := req_RetentionDays req,
                                        sched_NextRunTime := Some nextRun,
                                        sched_UpdatedAt := env_now e \<rparr>
              in case repo_UpdateBackupSchedule e w existing of
                   (Some err, w1) \<Rightarrow> (Some ErrUpdateSchedule, w1)
                 | (None, w1) \<Rightarrow>
                     (let scheduleID = sched_ID existing;
                          w2 = (case cronEntries w1 scheduleID of
                                  Some oldEntryID \<Rightarrow> cron_Remove w1 oldEntryID
                                | None \<Rightarrow> w1)
                      in case cron_AddFunc e w2 (req_CronSchedule req) of
                           (Inl err, w3) \<Rightarrow> (Some ErrScheduleBackup, w3)
                         | (Inr entryID, w3) \<Rightarrow>
                             (None, w3\<lparr> cronEntries := (cronEntries w3)(scheduleID := Some entryID) \<rparr>)))
         | None \<Rightarrow>
             (let backupSchedule =
                    \<lparr> sched_ID = env_uuid_New e 0, sched_ConnectionID = req_ConnectionID req,
                      sched_Enabled = True, sched_CronSchedule = req_CronSchedule req,
                      sched_RetentionDays = req_RetentionDays req,
                      sched_NextRunTime = Some nextRun, sched_LastBackupTime = None,
                      sched_CreatedAt = env_now e, sched_UpdatedAt = env_now e \<rparr>
              in case repo_CreateBackupSchedule e w backupSchedule of
                   (Some err, w1) \<Rightarrow> (Some ErrSaveSchedule, w1)
                 | (None, w1) \<Rightarrow>
                     (let scheduleID = sched_ID backupSchedule
                      in case cron_AddFunc e w1 (req_CronSchedule req) of
                           (Inl err, w3) \<Rightarrow> (Some ErrScheduleBackup, w3)
                         | (Inr entryID, w3) \<Rightarrow>
                             (None, w3\<lparr> cronEntries := (cronEntries w3)(scheduleID := Some entryID) \<rparr>))))))"

text \<open>At most one schedule per connection; and what the upsert writes into an existing
  row and into a new one.\<close>

definition one_schedule_per_connection :: "BackupSchedule list \<Rightarrow> bool" where
  "one_schedule_per_connection ss = distinct (map sched_ConnectionID ss)"

definition overwritten :: "env \<Rightarrow> ScheduleBackupRequest \<Rightarrow> int \<Rightarrow> BackupSchedule \<Rightarrow> BackupSchedule" where
  "overwritten e req nextRun s =
     s\<lparr> sched_Enabled := True, sched_CronSchedule := req_CronSchedule req,
        sched_RetentionDays := req_RetentionDays req, sched_NextRunTime := Some nextRun,
        sched_UpdatedAt := env_now e \<rparr>"

definition created :: "env \<Rightarrow> ScheduleBackupRequest \<Rightarrow> int \<Rightarrow> BackupSchedule" where
  "created e req nextRun =
     \<lparr> sched_ID = env_uuid_New e 0, sched_ConnectionID = req_ConnectionID req,
       sched_Enabled = True, sched_CronSchedule = req_CronSchedule req,
       sched_RetentionDays = req_RetentionDays req,
       sched_NextRunTime = Some nextRun, sched_LastBackupTime = None,
       sched_CreatedAt = env_now e, sched_UpdatedAt = env_now e \<rparr>"


section \<open>A concrete installation, used to run the engine\<close>

definition sample_settings :: UserSettings where
  "sample_settings =
     \<lparr> S3Enabled = True, S3Endpoint = Some ''localhost:9000'', S3Region = None,
       S3Bucket = Some ''velld-backups'', S3AccessKey = Some ''k'', S3SecretKey = Some ''enc:s'',
       S3UseSSL = False, S3PathPrefix = Some ''p'', S3PurgeLocal = True \<rparr>"

definition underscore_name :: "string \<Rightarrow> string" where
  "underscore_name n = map (\<lambda>c. if c = CHR '' '' then CHR ''_'' else c) n"

text \<open>\<open>Next\<close> of the schedule \<open>0 0 0 * * *\<close>: the first midnight after \<open>t\<close>.\<close>

definition next_midnight :: "int \<Rightarrow> int" where
  "next_midnight t = (t div 86400 + 1) * 86400"

text \<open>
  \<open>AddDate(0, 0, days)\<close> of the standard library for a server whose time zone is UTC,
  applied to the instant \<open>now\<close>: every day has 86400 seconds, and \<open>Date\<close> computes the
  seconds of the new instant in unsigned 64-bit arithmetic and converts them back to a
  signed 64-bit number.
\<close>

definition utc_AddDate :: "int \<Rightarrow> int \<Rightarrow> int" where
  "utc_AddDate now days = wrap64 (now + days * 86400)"

text \<open>An installation in which every tool is present and every call succeeds: dumps
  write a file of 42 bytes, a connection with SSH enabled is reached through a tunnel on
  the local port 40022, the clock runs on UTC; the cron parser knows the one expression
  \<open>0 0 0 * * *\<close>.\<close>

definition sample_env :: env where
  "sample_env =
     \<lparr> env_backupDir = ''/data/backups'', env_TempDir = ''/tmp'', env_now = 1000000,
       env_AddDate = utc_AddDate 1000000,
       env_timestamp = ''20250101_000000'',
       env_uuid_New = (\<lambda>n. ''backup-'' @ replicate n (CHR ''i'')),
       env_verifyBackupTools = (\<lambda>t. True),
       env_setupSSHTunnelIfNeeded =
         (\<lambda>c. if conn_SSHEnabled c then Tunnel ''127.0.0.1'' 40022 else NoTunnel),
       env_SanitizeConnectionName = underscore_name,
       env_MkdirAll = (\<lambda>p. True),
       env_dump = (\<lambda>tool c p. Exited True (Some 42)),
       env_GetUserSettingsInternal = (\<lambda>u. Some sample_settings),
       env_Decrypt = marker_Decrypt,
       env_NewS3Storage = (\<lambda>c. True),
       env_PutObject = (\<lambda>k. True),
       env_GetObject = (\<lambda>k. Fetched 42),
       env_RemoveObject = (\<lambda>k. True),
       env_Remove = (\<lambda>p. True),
       env_insert_backup_ok = (\<lambda>b. True),
       env_delete_backup_ok = (\<lambda>i. True),
       env_query_ok = True,
       env_write_schedule_ok = True,
       env_cron_Parse = (\<lambda>s. if s = ''0 0 0 * * *'' then Some next_midnight else None),
       env_cron_AddFunc_ok = (\<lambda>s. True) \<rparr>"

text \<open>The same installation with a dump tool that exits non-zero and writes nothing,
  and with a local file system that refuses to delete.\<close>

definition dump_fails_env :: env where
  "dump_fails_env = sample_env\<lparr> env_dump := (\<lambda>tool c p. Exited False None) \<rparr>"

definition purge_fails_env :: env where
  "purge_fails_env = sample_env\<lparr> env_Remove := (\<lambda>p. False) \<rparr>"

definition sample_conn :: StoredConnection where
  "sample_conn =
     \<lparr> conn_ID = ''c1'', conn_Name = ''pg1'', conn_Type = ''postgresql'',
       conn_Host = ''db.internal'', conn_Port = 5432, conn_Username = ''admin'',
       conn_Password = ''hunter2'', conn_DatabaseName = ''shop'',
       conn_SelectedDatabases = [], conn_SelectedDatabasesNil = True,
       conn_SSL = False, conn_SSHEnabled = False,
       conn_SSHHost = [], conn_SSHPort = 0, conn_SSHUsername = [],
       conn_SSHPassword = [], conn_SSHPrivateKey = [],
       conn_S3CleanupOnRetention = True,
       conn_CreatedAt = ''2025-01-01T00:00:00Z'', conn_UpdatedAt = ''2025-01-01T00:00:00Z'',
       conn_LastConnectedAt = None, conn_UserID = ''7c9e6679-7425-40de-944b-e07fc1f90ae7'',
       conn_Status = ''connected'',
       conn_DatabaseSize = 0 \<rparr>"

definition empty_world :: world where
  "empty_world =
     \<lparr> connections = [], backups = [], schedules = [], files = (\<lambda>p. None),
       s3_objects = {}, cronEntries = (\<lambda>i. None), cronJobs = [], cronNextID = 0,
       trace = [] \<rparr>"


text \<open>A completed backup whose local file has been purged and whose object is in the
  bucket, and an installation whose S3 endpoint cannot be reached for reading.\<close>

definition archived_backup :: Backup where
  "archived_backup =
     \<lparr> b_ID = ''backup-1'', b_ConnectionID = ''c1'', b_ScheduleID = None,
       b_Status = ''completed'', b_Path = ''/data/backups/pg1/shop_20250101_000000.sql'',
       b_S3ObjectKey = Some ''p/pg1/shop_20250101_000000.sql'', b_Size = 42,
       b_StartedTime = 1000000, b_CompletedTime = Some 1000000,
       b_CreatedAt = 1000000, b_UpdatedAt = 1000000 \<rparr>"

definition archived_world :: world where
  "archived_world =
     empty_world\<lparr> backups := [archived_backup],
                  s3_objects := {''p/pg1/shop_20250101_000000.sql''} \<rparr>"

definition download_fails_env :: env where
  "download_fails_env = sample_env\<lparr> env_GetObject := (\<lambda>k. GetObjectError) \<rparr>"


text \<open>The store holding the one connection \<open>sample_row\<close>, which has no selected
  databases; the same connection with three selected databases, and a dump tool that
  fails on the database \<open>crm\<close> only.\<close>

definition single_world :: world where
  "single_world = empty_world\<lparr> connections := [sample_row] \<rparr>"

definition multi_row :: connection_row where
  "multi_row = sample_row\<lparr> row_selected_databases := Some ''shop,crm,logs'' \<rparr>"

definition multi_world :: world where
  "multi_world = empty_world\<lparr> connections := [multi_row] \<rparr>"

definition dump_unless_crm :: "dump_tool \<Rightarrow> StoredConnection \<Rightarrow> string \<Rightarrow> dump_outcome" where
  "dump_unless_crm tool c p =
     (if conn_DatabaseName c = ''crm'' then Exited False None else Exited True (Some 42))"

definition crm_fails_env :: env where
  "crm_fails_env = sample_env\<lparr> env_dump := dump_unless_crm \<rparr>"


text \<open>A store for retention: the connection \<open>c1\<close> with three backups, of which only
  \<open>old_backup\<close> is completed and older than seven days at the time \<open>env_now sample_env\<close>;
  its local file and its S3 object both exist.\<close>

definition old_backup :: Backup where
  "old_backup =
     \<lparr> b_ID = ''backup-0'', b_ConnectionID = ''c1'', b_ScheduleID = None,
       b_Status = ''completed'', b_Path = ''/data/backups/pg1/shop_old.sql'',
       b_S3ObjectKey = Some ''p/pg1/shop_old.sql'', b_Size = 42,
       b_StartedTime = 100000, b_CompletedTime = Some 100000,
       b_CreatedAt = 100000, b_UpdatedAt = 100000 \<rparr>"

definition stuck_backup :: Backup where
  "stuck_backup =
     \<lparr> b_ID = ''backup-3'', b_ConnectionID = ''c1'', b_ScheduleID = None,
       b_Status = ''in_progress'', b_Path = ''/data/backups/pg1/shop_stuck.sql'',
       b_S3ObjectKey = None, b_Size = 0,
       b_StartedTime = 100000, b_CompletedTime = None,
       b_CreatedAt = 100000, b_UpdatedAt = 100000 \<rparr>"

definition gc_files :: "string \<Rightarrow> int option" where
  "gc_files p = (if p = ''/data/backups/pg1/shop_old.sql'' then Some 42 else None)"

definition gc_world :: world where
  "gc_world =
     empty_world\<lparr> connections := [sample_row],
                  backups := [old_backup, archived_backup, stuck_backup],
                  files := gc_files,
                  s3_objects := {''p/pg1/shop_old.sql'', ''p/pg1/shop_20250101_000000.sql''} \<rparr>"


text \<open>Three requests for the connection \<open>c1\<close>: a daily schedule at midnight, the same
  with a longer retention, and one whose cron expression the parser refuses.\<close>

definition daily_req :: ScheduleBackupRequest where
  "daily_req = \<lparr> req_ConnectionID = ''c1'', req_CronSchedule = ''0 0 0 * * *'',
                 req_RetentionDays = 7 \<rparr>"

definition daily_req_30 :: ScheduleBackupRequest where
  "daily_req_30 = daily_req\<lparr> req_RetentionDays := 30 \<rparr>"

definition bad_req :: ScheduleBackupRequest where
  "bad_req = daily_req\<lparr> req_CronSchedule := ''every day'' \<rparr>"


section \<open>Theorems\<close>

subsection \<open>String primitives\<close>

lemma HasPrefix_prefix: "HasPrefix s p = prefix p s"
  by (induction s p rule: HasPrefix.induct) auto

lemma Contains_sublist: "Contains s sub = sublist sub s"
  by (induction s) (auto simp: HasPrefix_prefix sublist_Cons_right)

subsection \<open>Pagination clamp\<close>

text \<open>
  C10. Whatever the caller passes, the repository is consulted with the clamped
  options: a limit of 0 or less becomes 10, a limit above 100 becomes 100, a negative
  offset becomes 0, values already in range are kept; so the limit handed to the store
  lies in 1..100 and the offset is never negative. User and search term pass through.
\<close>

theorem pagination_clamped:
  "GetAllBackupsWithPagination repo opts = repo (effective_options opts) \<and>
   (Limit opts \<le> 0 \<longrightarrow> Limit (effective_options opts) = 10) \<and>
   (Limit opts > 100 \<longrightarrow> Limit (effective_options opts) = 100) \<and>
   (0 < Limit opts \<and> Limit opts \<le> 100 \<longrightarrow> Limit (effective_options opts) = Limit opts) \<and>
   (Offset opts < 0 \<longrightarrow> Offset (effective_options opts) = 0) \<and>
   (0 \<le> Offset opts \<longrightarrow> Offset (effective_options opts) = Offset opts) \<and>
   1 \<le> Limit (effective_options opts) \<and> Limit (effective_options opts) \<le> 100 \<and>
   0 \<le> Offset (effective_options opts) \<and>
   UserID (effective_options opts) = UserID opts \<and>
   Search (effective_options opts) = Search opts"
  by (simp add: GetAllBackupsWithPagination_def effective_options_def Let_def)

theorem pagination_clamped_witness:
  "effective_options \<lparr>UserID = ''u1'', Limit = 0, Offset = - 5, Search = ''''\<rparr>
     = \<lparr>UserID = ''u1'', Limit = 10, Offset = 0, Search = ''''\<rparr> \<and>
   Limit (effective_options \<lparr>UserID = ''u1'', Limit = 250, Offset = 40, Search = ''x''\<rparr>) = 100 \<and>
   Offset (effective_options \<lparr>UserID = ''u1'', Limit = 250, Offset = 40, Search = ''x''\<rparr>) = 40"
  using pagination_clamped [of "\<lambda>o'. o'" "\<lparr>UserID = ''u1'', Limit = 0, Offset = - 5, Search = ''''\<rparr>"]
        pagination_clamped [of "\<lambda>o'. o'" "\<lparr>UserID = ''u1'', Limit = 250, Offset = 40, Search = ''x''\<rparr>"]
  by (simp add: GetAllBackupsWithPagination_def effective_options_def Let_def)

subsection \<open>PostgreSQL restore classification\<close>

lemma noPatternIn_iff: "noPatternIn line ps = (\<forall>p \<in> set ps. \<not> Contains line p)"
  by (induction ps) auto

lemma isCritical_spec: "isCriticalPostgreSQLError line = (\<not> spec_non_critical line)"
  by (auto simp: isCriticalPostgreSQLError_def noPatternIn_iff nonCriticalPatterns_def
                 spec_non_critical_def)

lemma collectCritical_filter:
  "collectCritical lines acc =
     acc @ filter (\<lambda>line. \<not> spec_non_critical line \<and> Contains line ''ERROR:'') lines"
  by (induction lines arbitrary: acc) (simp_all add: isCritical_spec)

lemma firstAlreadyExists_iff:
  "firstAlreadyExists es =
     (if \<exists>e \<in> set es. Contains e ''already exists'' then Some ErrRestoreTargetNotEmpty
      else None)"
  by (induction es) simp_all

text \<open>
  C7. The output of a PostgreSQL restore is split at newlines and classified line by
  line. A line containing \<open>WARNING:\<close>, \<open>NOTICE:\<close>, \<open>must be member of role\<close> or
  \<open>no privileges\<close> is non-critical and dropped, whatever the exit status \<open>cmdErr\<close> of the
  process; the remaining lines that contain \<open>ERROR:\<close> are the critical ones. With no
  critical line the restore succeeds; if some critical line contains \<open>already exists\<close>
  the target-not-empty error is returned; otherwise the restore-failure error carries
  the number of critical lines.
\<close>

theorem postgres_restore_classification:
  "validatePostgreSQLRestore output cmdErr =
     (if spec_critical_lines output = [] then None
      else if \<exists>line \<in> set (spec_critical_lines output). Contains line ''already exists''
           then Some ErrRestoreTargetNotEmpty
           else Some (ErrRestoreFailed (length (spec_critical_lines output))))"
proof -
  have c: "collectCritical (Split_newline output) [] = spec_critical_lines output"
    by (simp add: collectCritical_filter spec_critical_lines_def)
  show ?thesis
    unfolding validatePostgreSQLRestore_def Let_def c firstAlreadyExists_iff
    by auto
qed


theorem postgres_restore_classification_witness:
  "validatePostgreSQLRestore
     ''NOTICE: ERROR: skipped\<newline>ERROR: relation t already exists\<newline>ERROR: syntax'' True
     = Some ErrRestoreTargetNotEmpty \<and>
   validatePostgreSQLRestore
     ''ERROR: must be member of role x\<newline>ERROR: syntax\<newline>ERROR: type'' True
     = Some (ErrRestoreFailed 2) \<and>
   validatePostgreSQLRestore ''WARNING: ERROR: no privileges\<newline>done'' True = None"
proof -
  have a: "spec_critical_lines
             ''NOTICE: ERROR: skipped\<newline>ERROR: relation t already exists\<newline>ERROR: syntax''
           = [''ERROR: relation t already exists'', ''ERROR: syntax'']"
    by code_simp
  have a': "Contains ''ERROR: relation t already exists'' ''already exists''"
    by code_simp
  have b: "spec_critical_lines
             ''ERROR: must be member of role x\<newline>ERROR: syntax\<newline>ERROR: type''
           = [''ERROR: syntax'', ''ERROR: type'']"
    by code_simp
  have b': "\<not> Contains ''ERROR: syntax'' ''already exists''"
           "\<not> Contains ''ERROR: type'' ''already exists''"
    by code_simp+
  have c: "spec_critical_lines ''WARNING: ERROR: no privileges\<newline>done'' = []"
    by code_simp
  show ?thesis
    using postgres_restore_classification
            [of "''NOTICE: ERROR: skipped\<newline>ERROR: relation t already exists\<newline>ERROR: syntax''" True]
          postgres_restore_classification
            [of "''ERROR: must be member of role x\<newline>ERROR: syntax\<newline>ERROR: type''" True]
          postgres_restore_classification
            [of "''WARNING: ERROR: no privileges\<newline>done''" True]
    unfolding a b c using a' b' by simp
qed

subsection \<open>Round trip of selected\_databases\<close>

lemma scanToComma_takeWhile:
  "scanToComma s i = i + length (takeWhile (\<lambda>c. c \<noteq> CHR '','') (drop i s))"
proof (induction s i rule: scanToComma.induct)
  case (1 s e)
  show ?case
  proof (cases "e < length s \<and> s ! e \<noteq> CHR '',''")
    case True
    then have d: "drop e s = s ! e # drop (Suc e) s" by (simp add: Cons_nth_drop_Suc)
    have "scanToComma s e = scanToComma s (e + 1)"
      using True by (subst scanToComma.simps) simp
    also have "\<dots> = (e + 1) + length (takeWhile (\<lambda>c. c \<noteq> CHR '','') (drop (e + 1) s))"
      using 1 True by simp
    finally show ?thesis using True d by simp
  next
    case False
    then have r: "scanToComma s e = e" by (subst scanToComma.simps) auto
    show ?thesis
    proof (cases "e < length s")
      case True
      then have d: "drop e s = s ! e # drop (Suc e) s" by (simp add: Cons_nth_drop_Suc)
      with False True r show ?thesis by simp
    next
      case False
      with r show ?thesis by simp
    qed
  qed
qed

lemma commaSegments_free:
  "\<forall>c \<in> set seg. c \<noteq> CHR '','' \<Longrightarrow>
   commaSegments cur seg = (if cur @ seg = [] then [] else [cur @ seg])"
  by (induction seg arbitrary: cur) auto

lemma commaSegments_append_comma:
  "commaSegments cur (d @ CHR '','' # r) = commaSegments cur d @ commaSegments [] r"
  by (induction d arbitrary: cur) auto


lemma parseDatabases_loop_segments:
  "parseDatabases_loop s i acc = acc @ commaSegments [] (drop i s)"
proof (induction s i acc rule: parseDatabases_loop.induct)
  case (1 s i acc)
  show ?case
  proof (cases "i < length s")
    case False
    then show ?thesis by (subst parseDatabases_loop.simps) simp
  next
    case True
    define seg where "seg = takeWhile (\<lambda>c. c \<noteq> CHR '','') (drop i s)"
    define rest where "rest = dropWhile (\<lambda>c. c \<noteq> CHR '','') (drop i s)"
    have e: "scanToComma s i = i + length seg"
      by (simp add: scanToComma_takeWhile seg_def)
    have split: "drop i s = seg @ rest"
      by (simp add: seg_def rest_def)
    have segfree: "\<forall>c \<in> set seg. c \<noteq> CHR '',''"
      unfolding seg_def by (auto dest: set_takeWhileD)
    have tk: "take (length seg) (drop i s) = seg" by (simp add: split)
    have "drop (i + length seg + 1) s = drop (length seg + 1) (drop i s)"
      by (simp add: add.commute)
    then have dr: "drop (i + length seg + 1) s = drop 1 rest"
      by (simp add: split)
    have rest_hd: "rest = [] \<or> (\<exists>r. rest = CHR '','' # r)"
    proof (cases rest)
      case Nil
      then show ?thesis by simp
    next
      case (Cons a r)
      then have "dropWhile (\<lambda>c. c \<noteq> CHR '','') (drop i s) \<noteq> []"
        by (simp add: rest_def)
      then have "\<not> hd rest \<noteq> CHR '',''"
        unfolding rest_def by (rule hd_dropWhile)
      with Cons show ?thesis by simp
    qed
    have segs: "commaSegments [] (drop i s) = (if seg = [] then [] else [seg]) @ commaSegments [] (drop 1 rest)"
      using rest_hd
    proof
      assume "rest = []"
      then show ?thesis using segfree by (simp add: split commaSegments_free)
    next
      assume "\<exists>r. rest = CHR '','' # r"
      then obtain r where r: "rest = CHR '','' # r" by blast
      show ?thesis using segfree
        by (simp add: split r commaSegments_append_comma commaSegments_free)
    qed
    have "parseDatabases_loop s i acc =
          parseDatabases_loop s (i + length seg + 1) (if seg \<noteq> [] then acc @ [seg] else acc)"
      using True by (subst parseDatabases_loop.simps) (simp add: e Let_def tk)
    also have "\<dots> = (if seg \<noteq> [] then acc @ [seg] else acc) @
                      commaSegments [] (drop (i + length seg + 1) s)"
    proof -
      have "parseDatabases_loop s (scanToComma s i + 1)
              (if i < scanToComma s i
               then acc @ [take (scanToComma s i - i) (drop i s)] else acc) =
            (if i < scanToComma s i
             then acc @ [take (scanToComma s i - i) (drop i s)] else acc) @
            commaSegments [] (drop (scanToComma s i + 1) s)"
        using "1.IH"[OF True refl refl] .
      moreover have "scanToComma s i - i = length seg" "i < scanToComma s i \<longleftrightarrow> seg \<noteq> []"
        using e by simp_all
      moreover have "scanToComma s i + 1 = i + length seg + 1" using e by simp
      ultimately show ?thesis by (simp only: tk)
    qed
    finally have f: "parseDatabases_loop s i acc =
        (if seg \<noteq> [] then acc @ [seg] else acc) @
        commaSegments [] (drop (i + length seg + 1) s)" .
    from f show ?thesis unfolding segs dr by simp
  qed
qed

lemma joinDatabases_loop_Suc:
  "joinDatabases_loop (Suc i) ds acc = acc @ concat (map (\<lambda>d. CHR '','' # d) ds)"
  by (induction ds arbitrary: i acc) auto

lemma joinDatabases_Cons:
  "joinDatabases (d # ds) = d @ concat (map (\<lambda>d. CHR '','' # d) ds)"
  by (simp add: joinDatabases_def joinDatabases_loop_Suc)

lemma commaSegments_join:
  "commaSegments cur (d @ concat (map (\<lambda>d. CHR '','' # d) ds)) =
     commaSegments cur d @ concat (map (commaSegments []) ds)"
  by (induction ds arbitrary: cur d) (auto simp: commaSegments_append_comma)

lemma parse_join: "parseSelectedDatabases (Some (joinDatabases dbs)) = concat (map (commaSegments []) dbs)"
proof (cases dbs)
  case Nil
  then show ?thesis by (simp add: parseSelectedDatabases_def joinDatabases_def)
next
  case (Cons d ds)
  show ?thesis
  proof (cases "joinDatabases dbs = []")
    case True
    then have "commaSegments [] (joinDatabases dbs) = []" by simp
    then show ?thesis using True Cons
      by (simp add: parseSelectedDatabases_def joinDatabases_Cons commaSegments_join)
  next
    case False
    then show ?thesis using Cons
      by (simp add: parseSelectedDatabases_def parseDatabases_loop_segments joinDatabases_Cons commaSegments_join)
  qed
qed

lemma commaSegments_elems:
  "x \<in> set (commaSegments cur s) \<Longrightarrow> CHR '','' \<notin> set cur \<Longrightarrow> x \<noteq> [] \<and> CHR '','' \<notin> set x"
proof (induction s arbitrary: cur)
  case Nil
  then show ?case by (auto split: if_splits)
next
  case (Cons c cs)
  show ?case
  proof (cases "c = CHR '',''")
    case True
    with Cons.prems have "x = cur \<and> cur \<noteq> [] \<or> x \<in> set (commaSegments [] cs)"
      by (auto split: if_splits)
    then show ?thesis
    proof
      assume "x = cur \<and> cur \<noteq> []"
      with Cons.prems show ?thesis by simp
    next
      assume "x \<in> set (commaSegments [] cs)"
      then show ?thesis using Cons.IH[of "[]"] by simp
    qed
  next
    case False
    with Cons.prems have "x \<in> set (commaSegments (cur @ [c]) cs)" by simp
    then show ?thesis using Cons.IH[of "cur @ [c]"] Cons.prems False by simp
  qed
qed


lemma find_map_same:
  "(\<And>x. P (f x) = P x) \<Longrightarrow> find P (map f xs) = map_option f (find P xs)"
  by (induction xs) simp_all


text \<open>
  C9. After \<open>UpdateSelectedDatabases\<close> has stored a list for an existing connection,
  \<open>GetConnection\<close> returns each stored name split at its commas with empty segments
  dropped. So a list of non-empty, comma-free names comes back unchanged and in order,
  a list with a name containing a comma does not come back, and no empty name is ever
  returned.
\<close>

theorem selected_databases_roundtrip:
  assumes "repo_GetConnection Decrypt rows id' = Inr before"
      and "repo_UpdateSelectedDatabases True now rows id' databases = Inr rows'"
  shows "\<exists>after. repo_GetConnection Decrypt rows' id' = Inr after \<and>
           conn_SelectedDatabases after = concat (map splitAtCommas databases) \<and>
           ((\<forall>name \<in> set databases. name \<noteq> [] \<and> CHR '','' \<notin> set name)
              \<longrightarrow> conn_SelectedDatabases after = databases) \<and>
           ((\<exists>name \<in> set databases. CHR '','' \<in> set name)
              \<longrightarrow> conn_SelectedDatabases after \<noteq> databases) \<and>
           [] \<notin> set (conn_SelectedDatabases after)"
proof -
  let ?f = "\<lambda>r. if row_id r = id'
                 then r\<lparr>row_selected_databases := Some (joinDatabases databases),
                        row_updated_at := now\<rparr>
                 else r"
  have rows': "rows' = map ?f rows"
    using assms(2) by (simp add: repo_UpdateSelectedDatabases_def Let_def)
  have same_id: "\<And>x. (row_id (?f x) = id') = (row_id x = id')"
    by simp
  obtain r where r: "find (\<lambda>r. row_id r = id') rows = Some r"
    using assms(1) by (auto simp: repo_GetConnection_def split: option.splits)
  then have rid: "row_id r = id'" by (auto simp: find_Some_iff)
  have found: "find (\<lambda>r. row_id r = id') rows' = Some (?f r)"
    unfolding rows' using find_map_same [of "\<lambda>r. row_id r = id'" ?f rows, OF same_id] r
    by simp
  obtain username password sshpw sshkey where d:
    "Decrypt (row_username r) = Some username" "Decrypt (row_password r) = Some password"
    "decryptOptional Decrypt (row_ssh_password r) = Inr sshpw"
    "decryptOptional Decrypt (row_ssh_private_key r) = Inr sshkey"
    using assms(1) r
    by (auto simp: repo_GetConnection_def Let_def split: option.splits sum.splits)
  define after where "after = (projr (repo_GetConnection Decrypt rows' id'))"
  have res: "repo_GetConnection Decrypt rows' id' = Inr after"
    unfolding after_def using found rid d
    by (simp add: repo_GetConnection_def Let_def)
  have sel: "conn_SelectedDatabases after = concat (map splitAtCommas databases)"
    unfolding after_def using found rid d
    by (simp add: repo_GetConnection_def Let_def parse_join splitAtCommas_def[abs_def])
  have elems: "\<And>x. x \<in> set (conn_SelectedDatabases after) \<Longrightarrow> x \<noteq> [] \<and> CHR '','' \<notin> set x"
    unfolding sel by (auto simp: splitAtCommas_def dest: commaSegments_elems)
  have good: "conn_SelectedDatabases after = databases"
    if "\<forall>name \<in> set databases. name \<noteq> [] \<and> CHR '','' \<notin> set name"
  proof -
    have "map splitAtCommas databases = map (\<lambda>d. [d]) databases"
    proof (intro map_cong refl)
      fix x assume "x \<in> set databases"
      with that have "x \<noteq> []" "\<forall>c \<in> set x. c \<noteq> CHR '',''" by auto
      then show "splitAtCommas x = [x]"
        by (simp add: splitAtCommas_def commaSegments_free)
    qed
    then have "concat (map splitAtCommas databases) = concat (map (\<lambda>d. [d]) databases)"
      by (rule arg_cong)
    also have "\<dots> = databases" by (induction databases) simp_all
    finally show ?thesis unfolding sel .
  qed
  have bad: "conn_SelectedDatabases after \<noteq> databases"
    if "\<exists>name \<in> set databases. CHR '','' \<in> set name"
    using that elems by auto
  show ?thesis using res sel good bad elems by blast
qed

theorem selected_databases_roundtrip_witness:
  "(\<exists>after. repo_GetConnection marker_Decrypt
              (projr (repo_UpdateSelectedDatabases True ''t1'' [sample_row] ''c1''
                        [''shop'', ''crm,archive'', [], ''logs''])) ''c1'' = Inr after \<and>
            conn_SelectedDatabases after = [''shop'', ''crm'', ''archive'', ''logs'']) \<and>
   (\<exists>after. repo_GetConnection marker_Decrypt
              (projr (repo_UpdateSelectedDatabases True ''t1'' [sample_row] ''c1''
                        [''shop'', ''crm''])) ''c1'' = Inr after \<and>
            conn_SelectedDatabases after = [''shop'', ''crm''])"
proof -
  have g: "\<exists>before. repo_GetConnection marker_Decrypt [sample_row] ''c1'' = Inr before"
    by (simp add: repo_GetConnection_def sample_row_def marker_Decrypt_def
                  decryptOptional_def Let_def)
  have u: "\<And>dbs. repo_UpdateSelectedDatabases True ''t1'' [sample_row] ''c1'' dbs =
             Inr (projr (repo_UpdateSelectedDatabases True ''t1'' [sample_row] ''c1'' dbs))"
    by (simp add: repo_UpdateSelectedDatabases_def Let_def)
  have s1: "concat (map splitAtCommas [''shop'', ''crm,archive'', [], ''logs'']) =
              [''shop'', ''crm'', ''archive'', ''logs'']"
    by (simp add: splitAtCommas_def)
  from g obtain before where b: "repo_GetConnection marker_Decrypt [sample_row] ''c1'' = Inr before" ..
  show ?thesis
    using selected_databases_roundtrip [OF b u, of "[''shop'', ''crm,archive'', [], ''logs'']"]
          selected_databases_roundtrip [OF b u, of "[''shop'', ''crm'']"]
    unfolding s1 by auto
qed

subsection \<open>Connections returned by the API\<close>

text \<open>
  C2 does not hold of the code. The settings service blanks its secrets before it
  returns them to a handler and keeps a separate getter for internal callers, and the
  connection list carries no secret; \<open>ConnectionHandler.GetConnection\<close> however encodes
  the \<open>StoredConnection\<close> that the repository has filled with decrypted values. For
  the stored connection \<open>sample_row\<close> the response to \<open>GET /connections/c1\<close> has status
  200 and carries \<open>password\<close>, \<open>ssh_password\<close> and \<open>ssh_private_key\<close> in plaintext: none
  of the three is empty or absent.
\<close>

theorem get_connection_returns_plaintext_secrets:
  "status (handler_GetConnection marker_Decrypt [sample_row] ''c1'') = 200 \<and>
   body_member (handler_GetConnection marker_Decrypt [sample_row] ''c1'') ''password''
     = Some (JString ''hunter2'') \<and>
   body_member (handler_GetConnection marker_Decrypt [sample_row] ''c1'') ''ssh_password''
     = Some (JString ''tunnelpw'') \<and>
   body_member (handler_GetConnection marker_Decrypt [sample_row] ''c1'') ''ssh_private_key''
     = Some (JString ''KEY'') \<and>
   \<not> empty_or_absent
       (body_member (handler_GetConnection marker_Decrypt [sample_row] ''c1'') ''password'') \<and>
   \<not> empty_or_absent
       (body_member (handler_GetConnection marker_Decrypt [sample_row] ''c1'') ''ssh_password'') \<and>
   \<not> empty_or_absent
       (body_member (handler_GetConnection marker_Decrypt [sample_row] ''c1'') ''ssh_private_key'')"
  by (simp add: handler_GetConnection_def service_GetConnection_def repo_GetConnection_def
                body_member_def StoredConnection_json_def Let_def sample_row_def
                marker_Decrypt_def decryptOptional_def parseSelectedDatabases_def
                empty_or_absent_def)


subsection \<open>Single-database backup\<close>

lemma UploadFileWithPath_cases:
  assumes "UploadFileWithPath e w st localPath subfolder = (r, w1)"
  shows "(\<exists>err. r = Inl err \<and> w1 = w) \<or>
         (\<exists>k. r = Inr k \<and> files w localPath \<noteq> None \<and>
              w1 = w\<lparr> s3_objects := insert k (s3_objects w),
                      trace := trace w @ [EvPutObject k] \<rparr>)"
  using assms by (auto simp: UploadFileWithPath_def Let_def split: if_splits)

text \<open>What \<open>uploadToS3IfEnabled\<close> can do to a backup whose S3 key is still unset:
  nothing at all, or upload then (with \<open>purge_local\<close>) try to remove the local file.\<close>

lemma uploadToS3IfEnabled_cases:
  assumes "uploadToS3IfEnabled e w backup userID name = (err, backup', w')"
  shows "(backup' = backup \<and> w' = w \<and>
          (err = None \<longrightarrow> (\<exists>us. env_GetUserSettingsInternal e userID = Some us \<and> \<not> S3Enabled us)))
       \<or> (\<exists>k us. err = None \<and> env_GetUserSettingsInternal e userID = Some us \<and> S3Enabled us \<and>
             files w (b_Path backup) \<noteq> None \<and>
             backup' = backup\<lparr> b_S3ObjectKey := Some k \<rparr> \<and>
             w' = (if S3PurgeLocal us
                   then snd (os_Remove e (w\<lparr> s3_objects := insert k (s3_objects w),
                                              trace := trace w @ [EvPutObject k] \<rparr>)
                                       (b_Path backup))
                   else w\<lparr> s3_objects := insert k (s3_objects w),
                           trace := trace w @ [EvPutObject k] \<rparr>))"
proof (cases "env_GetUserSettingsInternal e userID")
  case None
  with assms show ?thesis by (auto simp: uploadToS3IfEnabled_def)
next
  case (Some us)
  show ?thesis
  proof (cases "S3Enabled us")
    case False
    with assms Some show ?thesis by (auto simp: uploadToS3IfEnabled_def)
  next
    case True
    show ?thesis
    proof (cases "configuredS3Storage e us")
      case (Inl a)
      with assms Some True show ?thesis by (auto simp: uploadToS3IfEnabled_def)
    next
      case (Inr st)
      obtain r w1 where u: "UploadFileWithPath e w st (b_Path backup)
                              (env_SanitizeConnectionName e name) = (r, w1)"
        by (cases "UploadFileWithPath e w st (b_Path backup) (env_SanitizeConnectionName e name)")
      from UploadFileWithPath_cases[OF u] show ?thesis
      proof
        assume "\<exists>err. r = Inl err \<and> w1 = w"
        with assms Some True Inr u show ?thesis
          by (auto simp: uploadToS3IfEnabled_def)
      next
        assume "\<exists>k. r = Inr k \<and> files w (b_Path backup) \<noteq> None \<and>
              w1 = w\<lparr> s3_objects := insert k (s3_objects w),
                      trace := trace w @ [EvPutObject k] \<rparr>"
        then obtain k where k: "r = Inr k" "files w (b_Path backup) \<noteq> None"
          "w1 = w\<lparr> s3_objects := insert k (s3_objects w), trace := trace w @ [EvPutObject k] \<rparr>"
          by blast
        with assms Some True Inr u show ?thesis
          by (auto simp: uploadToS3IfEnabled_def Let_def split: if_splits)
      qed
    qed
  qed
qed

lemma os_Remove_effect:
  "snd (os_Remove e w p) =
     w\<lparr> files := (if files w p \<noteq> None \<and> env_Remove e p then (files w)(p := None) else files w),
        trace := trace w @ [EvRemoveFile p] \<rparr>"
  by (simp add: os_Remove_def)

lemma single_after_dump:
  assumes "reaches_dump e conn0 dbName conn backupPath tool"
  shows "createSingleDatabaseBackup e w conn0 dbName =
     (case env_dump e tool conn backupPath of
         ToolNotFound \<Rightarrow> (Inl ErrToolNotFound, w)
       | Exited ok written \<Rightarrow>
      (let w1 = runDump w backupPath written
       in if \<not> ok then (Inl ErrBackupFailed, w1)
          else (case files w1 backupPath of
                  None \<Rightarrow> (Inl ErrFileInfo, w1)
                | Some fileSize \<Rightarrow>
      (let backup1 = \<lparr> b_ID = env_uuid_New e 0, b_ConnectionID = conn_ID conn,
                        b_ScheduleID = None,
                        b_Status = ''completed'', b_Path = backupPath, b_S3ObjectKey = None,
                        b_Size = fileSize, b_StartedTime = env_now e,
                        b_CompletedTime = Some (env_now e),
                        b_CreatedAt = env_now e, b_UpdatedAt = env_now e \<rparr>
       in case uploadToS3IfEnabled e w1 backup1 (conn_UserID conn) (conn_Name conn) of
            (uploadErr, backup2, w2) \<Rightarrow>
              (case repo_CreateBackup e w2 backup2 of
                 (Some err, w3) \<Rightarrow> (Inl ErrSaveBackup, w3)
               | (None, w3) \<Rightarrow> (Inr backup2, w3))))))"
proof -
  from assms have v: "env_verifyBackupTools e (conn_Type conn0)"
    and t: "env_setupSSHTunnelIfNeeded e conn0 \<noteq> TunnelError"
    and c: "conn = applyTunnel (env_setupSSHTunnelIfNeeded e conn0) conn0"
    and p: "backupPath = path_Join (connectionFolderOf e conn) (dumpFileName e dbName)"
    and m: "env_MkdirAll e (connectionFolderOf e conn)"
    and d: "dumpToolFor (conn_Type conn) = Some tool"
    unfolding reaches_dump_def by blast+
  show ?thesis
    unfolding p c createSingleDatabaseBackup_def
    using v t m[unfolded c] d[unfolded c]
    by (cases "env_setupSSHTunnelIfNeeded e conn0")
       (simp_all add: Let_def split: dump_outcome.splits option.splits prod.splits)
qed

lemma applyTunnel_keeps:
  "conn_UserID (applyTunnel t c) = conn_UserID c"
  "conn_Name (applyTunnel t c) = conn_Name c"
  "conn_ID (applyTunnel t c) = conn_ID c"
  "conn_Type (applyTunnel t c) = conn_Type c"
  by (cases t; simp add: applyTunnel_def)+

lemma single_reaches_dump:
  assumes "createSingleDatabaseBackup e w conn0 dbName = (Inr b, w')"
  shows "\<exists>tool. reaches_dump e conn0 dbName
           (applyTunnel (env_setupSSHTunnelIfNeeded e conn0) conn0)
           (path_Join (connectionFolderOf e (applyTunnel (env_setupSSHTunnelIfNeeded e conn0) conn0))
                      (dumpFileName e dbName)) tool"
proof -
  have v: "env_verifyBackupTools e (conn_Type conn0)"
    using assms by (auto simp: createSingleDatabaseBackup_def split: if_splits)
  have t: "env_setupSSHTunnelIfNeeded e conn0 \<noteq> TunnelError"
    using assms v by (auto simp: createSingleDatabaseBackup_def)
  let ?conn = "applyTunnel (env_setupSSHTunnelIfNeeded e conn0) conn0"
  have m: "env_MkdirAll e (connectionFolderOf e ?conn)"
    using assms v t
    by (cases "env_setupSSHTunnelIfNeeded e conn0")
       (auto simp: createSingleDatabaseBackup_def Let_def split: if_splits)
  have d: "dumpToolFor (conn_Type ?conn) \<noteq> None"
    using assms v t m
    by (cases "env_setupSSHTunnelIfNeeded e conn0"; cases "dumpToolFor (conn_Type ?conn)")
       (auto simp: createSingleDatabaseBackup_def Let_def)
  then obtain tool where "dumpToolFor (conn_Type ?conn) = Some tool" by blast
  with v t m show ?thesis by (auto simp: reaches_dump_def)
qed

lemma repo_CreateBackup_ok:
  "repo_CreateBackup e w b = (None, w') \<Longrightarrow>
     w' = w\<lparr> backups := backups w @ [b], trace := trace w @ [EvInsertBackup b] \<rparr>"
  by (auto simp: repo_CreateBackup_def split: if_splits)

text \<open>A successful single-database backup, step by step.\<close>

lemma single_success_steps:
  assumes "createSingleDatabaseBackup e w conn0 dbName = (Inr b, w')"
  shows "\<exists>conn backupPath tool written fileSize uploadErr w2.
           reaches_dump e conn0 dbName conn backupPath tool \<and>
           env_dump e tool conn backupPath = Exited True written \<and>
           files (runDump w backupPath written) backupPath = Some fileSize \<and>
           uploadToS3IfEnabled e (runDump w backupPath written)
             \<lparr> b_ID = env_uuid_New e 0, b_ConnectionID = conn_ID conn, b_ScheduleID = None,
               b_Status = ''completed'', b_Path = backupPath, b_S3ObjectKey = None,
               b_Size = fileSize, b_StartedTime = env_now e,
               b_CompletedTime = Some (env_now e),
               b_CreatedAt = env_now e, b_UpdatedAt = env_now e \<rparr>
             (conn_UserID conn) (conn_Name conn) = (uploadErr, b, w2) \<and>
           w' = w2\<lparr> backups := backups w2 @ [b], trace := trace w2 @ [EvInsertBackup b] \<rparr>"
proof -
  from single_reaches_dump[OF assms] obtain tool conn backupPath where
    r: "reaches_dump e conn0 dbName conn backupPath tool" by blast
  note s = single_after_dump[OF r, of w]
  from assms s obtain ok written where d: "env_dump e tool conn backupPath = Exited ok written"
    by (cases "env_dump e tool conn backupPath") auto
  from assms s d have ok: ok by (auto simp: Let_def split: if_splits)
  from assms s d ok obtain fileSize where
    f: "files (runDump w backupPath written) backupPath = Some fileSize"
    by (cases "files (runDump w backupPath written) backupPath") (auto simp: Let_def)
  let ?b1 = "\<lparr> b_ID = env_uuid_New e 0, b_ConnectionID = conn_ID conn, b_ScheduleID = None,
               b_Status = ''completed'', b_Path = backupPath, b_S3ObjectKey = None,
               b_Size = fileSize, b_StartedTime = env_now e,
               b_CompletedTime = Some (env_now e),
               b_CreatedAt = env_now e, b_UpdatedAt = env_now e \<rparr>"
  obtain uploadErr b2 w2 where
    u: "uploadToS3IfEnabled e (runDump w backupPath written) ?b1 (conn_UserID conn) (conn_Name conn)
          = (uploadErr, b2, w2)"
    by (cases "uploadToS3IfEnabled e (runDump w backupPath written) ?b1 (conn_UserID conn) (conn_Name conn)")
  from assms s d ok f u have c: "repo_CreateBackup e w2 b2 = (None, w')" and bb: "b2 = b"
    by (auto simp: Let_def split: prod.splits option.splits)
  from repo_CreateBackup_ok[OF c] bb
  have w'eq: "w' = w2\<lparr> backups := backups w2 @ [b], trace := trace w2 @ [EvInsertBackup b] \<rparr>"
    by simp
  from d ok have d': "env_dump e tool conn backupPath = Exited True written" by simp
  from u bb have u': "uploadToS3IfEnabled e (runDump w backupPath written) ?b1
                        (conn_UserID conn) (conn_Name conn) = (uploadErr, b, w2)" by simp
  from r d' f u' w'eq show ?thesis by blast
qed

lemma uploadToS3IfEnabled_keeps:
  assumes "uploadToS3IfEnabled e w backup userID name = (err, backup', w')"
  shows "backups w' = backups w" "b_Status backup' = b_Status backup"
        "b_ConnectionID backup' = b_ConnectionID backup" "b_Path backup' = b_Path backup"
  using uploadToS3IfEnabled_cases[OF assms]
  by (auto simp: os_Remove_effect)

lemma repo_CreateBackup_failed:
  "repo_CreateBackup e w b = (Some err, w') \<Longrightarrow> w' = w"
  by (auto simp: repo_CreateBackup_def split: if_splits)

text \<open>What \<open>uploadToS3IfEnabled\<close> leaves in the log: no dump and no insert, and a
  removal of the local file only directly after the upload.\<close>

lemma uploadToS3IfEnabled_trace:
  assumes "uploadToS3IfEnabled e w backup userID name = (err, backup', w')"
  shows "\<exists>evs. trace w' = trace w @ evs \<and> (\<forall>x. EvInsertBackup x \<notin> set evs) \<and>
               purge_after_upload False evs"
  using uploadToS3IfEnabled_cases[OF assms]
  by (auto simp: os_Remove_effect)

text \<open>Every error return of \<open>createSingleDatabaseBackup\<close> comes before the one insert.\<close>

lemma single_error_keeps:
  assumes "createSingleDatabaseBackup e w conn0 dbName = (Inl err, w')"
  shows "backups w' = backups w \<and>
         (\<exists>evs. trace w' = trace w @ evs \<and> (\<forall>b. EvInsertBackup b \<notin> set evs) \<and>
                purge_after_upload False evs)"
proof -
  let ?t = "env_setupSSHTunnelIfNeeded e conn0"
  let ?conn = "applyTunnel ?t conn0"
  let ?path = "path_Join (connectionFolderOf e ?conn) (dumpFileName e dbName)"
  consider (pre) "\<not> env_verifyBackupTools e (conn_Type conn0) \<or> ?t = TunnelError \<or>
                   \<not> env_MkdirAll e (connectionFolderOf e ?conn) \<or>
                   dumpToolFor (conn_Type ?conn) = None"
    | (dump) tool where "reaches_dump e conn0 dbName ?conn ?path tool"
    by (auto simp: reaches_dump_def)
  then show ?thesis
  proof cases
    case pre
    with assms have "w' = w"
      by (cases ?t) (auto simp: createSingleDatabaseBackup_def Let_def split: if_splits)
    then show ?thesis by simp
  next
    case dump
    note s = single_after_dump[OF dump, of w]
    show ?thesis
    proof (cases "env_dump e tool ?conn ?path")
      case ToolNotFound
      with assms s have "w' = w" by simp
      then show ?thesis by simp
    next
      case (Exited ok written)
      let ?w1 = "runDump w ?path written"
      have w1: "backups ?w1 = backups w" "trace ?w1 = trace w @ [EvRunDump ?path]"
        by (simp_all add: runDump_def)
      show ?thesis
      proof (cases "ok \<and> files ?w1 ?path \<noteq> None")
        case False
        with assms s Exited have "w' = ?w1"
          by (auto simp: Let_def split: if_splits option.splits)
        with w1 show ?thesis by simp
      next
        case True
        then obtain fileSize where f: "files ?w1 ?path = Some fileSize" by blast
        let ?b1 = "\<lparr> b_ID = env_uuid_New e 0, b_ConnectionID = conn_ID ?conn,
                      b_ScheduleID = None,
                      b_Status = ''completed'', b_Path = ?path, b_S3ObjectKey = None,
                      b_Size = fileSize, b_StartedTime = env_now e,
                      b_CompletedTime = Some (env_now e),
                      b_CreatedAt = env_now e, b_UpdatedAt = env_now e \<rparr>"
        obtain uploadErr b2 w2 where
          u: "uploadToS3IfEnabled e ?w1 ?b1 (conn_UserID ?conn) (conn_Name ?conn)
                = (uploadErr, b2, w2)"
          by (cases "uploadToS3IfEnabled e ?w1 ?b1 (conn_UserID ?conn) (conn_Name ?conn)")
        from assms s Exited True f u obtain err' where
          c: "repo_CreateBackup e w2 b2 = (Some err', w')"
          by (auto simp: Let_def split: prod.splits option.splits)
        from repo_CreateBackup_failed[OF c] have "w' = w2" .
        moreover from uploadToS3IfEnabled_keeps(1)[OF u] w1 have "backups w2 = backups w" by simp
        moreover from uploadToS3IfEnabled_trace[OF u] w1
        have "\<exists>evs. trace w2 = trace w @ evs \<and> (\<forall>b. EvInsertBackup b \<notin> set evs) \<and>
                    purge_after_upload False evs"
          by auto
        ultimately show ?thesis by simp
      qed
    qed
  qed
qed

text \<open>
  C1, as the code has it. In a single-database \<open>CreateBackup\<close> (the connection has no
  selected databases) the value with status \<open>in_progress\<close> lives in memory only and is
  never written: the run adds no record with that status to the backups table. Every
  error return leaves the table as it was and inserts nothing, whichever step failed.
  A record is inserted on success only: exactly one, with status \<open>completed\<close>, the
  backup that is returned, and its insert comes after the dump command has run and
  exited with status 0. When the dump tool exits non-zero the error is returned to the
  caller and the only effect is the run of the dump command.
\<close>

theorem single_backup_record_only_after_dump:
  assumes "repo_GetConnection (env_Decrypt e) (connections w) connectionID = Inr conn0"
      and "conn_SelectedDatabases conn0 = []"
      and "CreateBackup e w connectionID = (res, w')"
  shows "\<exists>evs. trace w' = trace w @ evs \<and>
           (\<forall>b \<in> set (backups w'). b_Status b = ''in_progress'' \<longrightarrow> b \<in> set (backups w)) \<and>
           (\<forall>err. res = Inl err \<longrightarrow>
                    backups w' = backups w \<and> (\<forall>b. EvInsertBackup b \<notin> set evs)) \<and>
           (\<forall>b. res = Inr b \<longrightarrow>
                  b_Status b = ''completed'' \<and> backups w' = backups w @ [b] \<and>
                  (\<exists>tool written mid.
                     env_dump e tool (applyTunnel (env_setupSSHTunnelIfNeeded e conn0) conn0)
                       (b_Path b) = Exited True written \<and>
                     evs = EvRunDump (b_Path b) # mid @ [EvInsertBackup b] \<and>
                     (\<forall>b'. EvInsertBackup b' \<notin> set mid))) \<and>
           (\<forall>conn backupPath tool written.
              reaches_dump e conn0 (conn_DatabaseName conn0) conn backupPath tool \<and>
              env_dump e tool conn backupPath = Exited False written
              \<longrightarrow> res = Inl ErrBackupFailed \<and> evs = [EvRunDump backupPath])"
proof -
  let ?db = "conn_DatabaseName conn0"
  from assms have run: "createSingleDatabaseBackup e w conn0 ?db = (res, w')"
    by (simp add: CreateBackup_def)
  have nz: "res = Inl ErrBackupFailed \<and> trace w' = trace w @ [EvRunDump backupPath]"
    if "reaches_dump e conn0 ?db conn backupPath tool"
       "env_dump e tool conn backupPath = Exited False written"
    for conn backupPath tool written
    using single_after_dump[OF that(1), of w] that(2) run
    by (auto simp: Let_def runDump_def)
  show ?thesis
  proof (cases res)
    case (Inl err)
    from single_error_keeps[OF run[unfolded Inl]] obtain evs where
      k: "backups w' = backups w" "trace w' = trace w @ evs" "\<forall>b. EvInsertBackup b \<notin> set evs"
      by blast
    show ?thesis
    proof (intro exI[of _ evs] conjI)
      show "trace w' = trace w @ evs" by (rule k(2))
      show "\<forall>b \<in> set (backups w'). b_Status b = ''in_progress'' \<longrightarrow> b \<in> set (backups w)"
        using k(1) by simp
      show "\<forall>err. res = Inl err \<longrightarrow>
                    backups w' = backups w \<and> (\<forall>b. EvInsertBackup b \<notin> set evs)"
        using k by simp
      show "\<forall>b. res = Inr b \<longrightarrow>
                  b_Status b = ''completed'' \<and> backups w' = backups w @ [b] \<and>
                  (\<exists>tool written mid.
                     env_dump e tool (applyTunnel (env_setupSSHTunnelIfNeeded e conn0) conn0)
                       (b_Path b) = Exited True written \<and>
                     evs = EvRunDump (b_Path b) # mid @ [EvInsertBackup b] \<and>
                     (\<forall>b'. EvInsertBackup b' \<notin> set mid))"
        using Inl by simp
      show "\<forall>conn backupPath tool written.
              reaches_dump e conn0 ?db conn backupPath tool \<and>
              env_dump e tool conn backupPath = Exited False written
              \<longrightarrow> res = Inl ErrBackupFailed \<and> evs = [EvRunDump backupPath]"
        using nz k(2) by auto
    qed
  next
    case (Inr b)
    from single_success_steps[OF run[unfolded Inr]]
    obtain conn backupPath tool written fileSize uploadErr w2
      where r: "reaches_dump e conn0 ?db conn backupPath tool"
        and d: "env_dump e tool conn backupPath = Exited True written"
        and u: "uploadToS3IfEnabled e (runDump w backupPath written)
                  \<lparr> b_ID = env_uuid_New e 0, b_ConnectionID = conn_ID conn, b_ScheduleID = None,
                    b_Status = ''completed'', b_Path = backupPath, b_S3ObjectKey = None,
                    b_Size = fileSize, b_StartedTime = env_now e,
                    b_CompletedTime = Some (env_now e),
                    b_CreatedAt = env_now e, b_UpdatedAt = env_now e \<rparr>
                  (conn_UserID conn) (conn_Name conn) = (uploadErr, b, w2)"
        and w': "w' = w2\<lparr> backups := backups w2 @ [b], trace := trace w2 @ [EvInsertBackup b] \<rparr>"
      by blast
    from r have conn: "conn = applyTunnel (env_setupSSHTunnelIfNeeded e conn0) conn0"
      by (simp add: reaches_dump_def)
    note keeps = uploadToS3IfEnabled_keeps[OF u]
    from keeps have st: "b_Status b = ''completed''" and pa: "b_Path b = backupPath"
      by simp_all
    from keeps(1) have bw2: "backups w2 = backups w" by (simp add: runDump_def)
    from uploadToS3IfEnabled_trace[OF u] obtain mid where
      mid: "trace w2 = trace w @ EvRunDump backupPath # mid" "\<forall>x. EvInsertBackup x \<notin> set mid"
      by (auto simp: runDump_def)
    let ?evs = "EvRunDump backupPath # mid @ [EvInsertBackup b]"
    have unique: "conn' = conn \<and> backupPath' = backupPath \<and> tool' = tool"
      if "reaches_dump e conn0 ?db conn' backupPath' tool'" for conn' backupPath' tool'
      using that r by (auto simp: reaches_dump_def)
    show ?thesis
    proof (intro exI[of _ ?evs] conjI)
      show "trace w' = trace w @ ?evs" using w' mid(1) by simp
      show "\<forall>b \<in> set (backups w'). b_Status b = ''in_progress'' \<longrightarrow> b \<in> set (backups w)"
        using w' bw2 st by auto
      show "\<forall>err. res = Inl err \<longrightarrow>
                    backups w' = backups w \<and> (\<forall>b. EvInsertBackup b \<notin> set ?evs)"
        using Inr by simp
      show "\<forall>b. res = Inr b \<longrightarrow>
                  b_Status b = ''completed'' \<and> backups w' = backups w @ [b] \<and>
                  (\<exists>tool written mid'.
                     env_dump e tool (applyTunnel (env_setupSSHTunnelIfNeeded e conn0) conn0)
                       (b_Path b) = Exited True written \<and>
                     ?evs = EvRunDump (b_Path b) # mid' @ [EvInsertBackup b] \<and>
                     (\<forall>b'. EvInsertBackup b' \<notin> set mid'))"
        using Inr st pa w' bw2 d conn mid(2) by auto
      show "\<forall>conn backupPath' tool written.
              reaches_dump e conn0 ?db conn backupPath' tool \<and>
              env_dump e tool conn backupPath' = Exited False written
              \<longrightarrow> res = Inl ErrBackupFailed \<and> ?evs = [EvRunDump backupPath']"
        using unique d by auto
    qed
  qed
qed

theorem single_backup_record_only_after_dump_witness:
  "\<not> isl (repo_GetConnection (env_Decrypt dump_fails_env) (connections single_world) ''c1'') \<and>
   conn_SelectedDatabases
     (projr (repo_GetConnection (env_Decrypt dump_fails_env) (connections single_world) ''c1''))
     = [] \<and>
   reaches_dump dump_fails_env
     (projr (repo_GetConnection (env_Decrypt dump_fails_env) (connections single_world) ''c1''))
     ''shop''
     (applyTunnel (Tunnel ''127.0.0.1'' 40022)
        (projr (repo_GetConnection (env_Decrypt dump_fails_env) (connections single_world) ''c1'')))
     ''/data/backups/pg1/shop_20250101_000000.sql'' PgDump \<and>
   fst (CreateBackup dump_fails_env single_world ''c1'') = Inl ErrBackupFailed \<and>
   backups (snd (CreateBackup dump_fails_env single_world ''c1'')) = [] \<and>
   trace (snd (CreateBackup dump_fails_env single_world ''c1''))
     = [EvRunDump ''/data/backups/pg1/shop_20250101_000000.sql''] \<and>
   \<not> isl (fst (CreateBackup sample_env single_world ''c1'')) \<and>
   backups (snd (CreateBackup sample_env single_world ''c1''))
     = [projr (fst (CreateBackup sample_env single_world ''c1''))] \<and>
   b_Status (projr (fst (CreateBackup sample_env single_world ''c1''))) = ''completed''"
proof -
  define conn0 where
    "conn0 = projr (repo_GetConnection (env_Decrypt dump_fails_env) (connections single_world) ''c1'')"
  define res where "res = fst (CreateBackup dump_fails_env single_world ''c1'')"
  define w' where "w' = snd (CreateBackup dump_fails_env single_world ''c1'')"
  define b where "b = projr (fst (CreateBackup sample_env single_world ''c1''))"
  define v' where "v' = snd (CreateBackup sample_env single_world ''c1'')"
  have ni: "\<not> isl (repo_GetConnection (env_Decrypt dump_fails_env) (connections single_world) ''c1'')"
    by code_simp
  then have g: "repo_GetConnection (env_Decrypt dump_fails_env) (connections single_world) ''c1''
                  = Inr conn0"
    unfolding conn0_def by simp
  have g': "repo_GetConnection (env_Decrypt sample_env) (connections single_world) ''c1''
                  = Inr conn0"
    using g by (simp add: dump_fails_env_def)
  have s: "conn_SelectedDatabases conn0 = []"
    unfolding conn0_def by code_simp
  have db: "conn_DatabaseName conn0 = ''shop''"
    unfolding conn0_def by code_simp
  have rd: "reaches_dump dump_fails_env conn0 ''shop''
              (applyTunnel (Tunnel ''127.0.0.1'' 40022) conn0)
              ''/data/backups/pg1/shop_20250101_000000.sql'' PgDump"
    unfolding conn0_def by code_simp
  have d: "env_dump dump_fails_env PgDump (applyTunnel (Tunnel ''127.0.0.1'' 40022) conn0)
             ''/data/backups/pg1/shop_20250101_000000.sql'' = Exited False None"
    by (simp add: dump_fails_env_def)
  have c: "CreateBackup dump_fails_env single_world ''c1'' = (res, w')"
    by (simp add: res_def w'_def)
  have e0: "backups single_world = []" "trace single_world = []"
    by (simp_all add: single_world_def empty_world_def)
  have nis: "\<not> isl (fst (CreateBackup sample_env single_world ''c1''))"
    by code_simp
  then have c': "CreateBackup sample_env single_world ''c1'' = (Inr b, v')"
    unfolding b_def v'_def by (simp add: prod_eq_iff)
  from single_backup_record_only_after_dump [OF g s c] obtain evs where
    t: "trace w' = trace single_world @ evs"
       "\<forall>err. res = Inl err \<longrightarrow> backups w' = backups single_world \<and>
                (\<forall>b. EvInsertBackup b \<notin> set evs)"
       "\<forall>conn backupPath tool written.
              reaches_dump dump_fails_env conn0 (conn_DatabaseName conn0) conn backupPath tool \<and>
              env_dump dump_fails_env tool conn backupPath = Exited False written
              \<longrightarrow> res = Inl ErrBackupFailed \<and> evs = [EvRunDump backupPath]"
    by blast
  from t(3) rd[folded db] d
  have r: "res = Inl ErrBackupFailed"
    and ev: "evs = [EvRunDump ''/data/backups/pg1/shop_20250101_000000.sql'']"
    by blast+
  from t(1) t(2) r ev e0
  have 1: "res = Inl ErrBackupFailed" "backups w' = []"
          "trace w' = [EvRunDump ''/data/backups/pg1/shop_20250101_000000.sql'']"
    by simp_all
  from single_backup_record_only_after_dump [OF g' s c'] e0
  have 2: "backups v' = [b]" "b_Status b = ''completed''"
    by auto
  from 1 2 ni s rd nis show ?thesis
    unfolding conn0_def res_def w'_def b_def v'_def by simp
qed

text \<open>
  C1 as stated fails: the connection \<open>c1\<close> has no selected databases and its dump tool
  exits non-zero; \<open>CreateBackup\<close> runs the dump command, returns the error and leaves
  the backups table empty, so no \<open>in_progress\<close> record is visible in it.
\<close>

theorem single_backup_in_progress_record_counterexample:
  "map_sum id conn_SelectedDatabases
     (repo_GetConnection (env_Decrypt dump_fails_env) (connections single_world) ''c1'')
     = Inr [] \<and>
   fst (CreateBackup dump_fails_env single_world ''c1'') = Inl ErrBackupFailed \<and>
   trace (snd (CreateBackup dump_fails_env single_world ''c1''))
     = [EvRunDump ''/data/backups/pg1/shop_20250101_000000.sql''] \<and>
   backups (snd (CreateBackup dump_fails_env single_world ''c1'')) = []"
  by code_simp


subsection \<open>Rehydration of a backup file\<close>

lemma configuredS3Storage_Inr_iff:
  "(\<exists>st. configuredS3Storage e us = Inr st) \<longleftrightarrow>
     (\<not> unset (S3Endpoint us) \<and> \<not> unset (S3Bucket us) \<and> \<not> unset (S3AccessKey us) \<and>
      \<not> unset (S3SecretKey us) \<and>
      (case env_Decrypt e (the (S3SecretKey us)) of
         None \<Rightarrow> False
       | Some secretKey \<Rightarrow> env_NewS3Storage e (s3ConfigOf us secretKey)))"
  by (auto simp: configuredS3Storage_def Let_def split: option.splits)

text \<open>
  C5, as the code has it. \<open>ensureBackupFileAvailable\<close> returns the local path with
  \<open>is_temp = false\<close> and changes nothing when the file at the local path exists.
  Otherwise, when the S3 key is set, S3 is enabled and fully configured and the
  rehydration itself goes through (settings load, secret key decrypts, client and
  temporary directory are created, the object downloads), it returns
  \<open><tmp>/velld-s3-downloads/<basename(local_path)>\<close> with \<open>is_temp = true\<close> and the file
  is there. In every other case it fails with an error.
\<close>

theorem ensure_file_available_cases:
  "(files w (b_Path backup) \<noteq> None \<longrightarrow>
      ensureBackupFileAvailable e w backup userID = (Inr (b_Path backup, False), w)) \<and>
   (files w (b_Path backup) = None \<and> rehydrates e w backup userID \<longrightarrow>
      (\<exists>w'. ensureBackupFileAvailable e w backup userID
               = (Inr (tempDownloadPath e backup, True), w') \<and>
            files w' (tempDownloadPath e backup) \<noteq> None)) \<and>
   (files w (b_Path backup) = None \<and> \<not> rehydrates e w backup userID \<longrightarrow>
      (\<exists>err w'. ensureBackupFileAvailable e w backup userID = (Inl err, w'))) \<and>
   (rehydrates e w backup userID \<longrightarrow>
      (\<exists>key us. b_S3ObjectKey backup = Some key \<and> key \<noteq> [] \<and>
                env_GetUserSettingsInternal e userID = Some us \<and> s3_fully_configured us))"
proof (intro conjI impI)
  assume "files w (b_Path backup) \<noteq> None"
  then show "ensureBackupFileAvailable e w backup userID = (Inr (b_Path backup, False), w)"
    by (simp add: ensureBackupFileAvailable_def)
next
  assume a: "files w (b_Path backup) = None \<and> rehydrates e w backup userID"
  then obtain us where us: "env_GetUserSettingsInternal e userID = Some us"
    by (auto simp: rehydrates_def split: option.splits)
  with a have cfg: "s3_fully_configured us" by (simp add: rehydrates_def)
  from a us have "\<exists>st. configuredS3Storage e us = Inr st"
    unfolding configuredS3Storage_Inr_iff by (simp add: rehydrates_def s3_fully_configured_def)
  then obtain st where st: "configuredS3Storage e us = Inr st" ..
  from a obtain n where n: "env_GetObject e (the (b_S3ObjectKey backup)) = Fetched n"
    by (auto simp: rehydrates_def split: get_result.splits)
  from a us cfg st n
  show "\<exists>w'. ensureBackupFileAvailable e w backup userID
               = (Inr (tempDownloadPath e backup, True), w') \<and>
            files w' (tempDownloadPath e backup) \<noteq> None"
    by (simp add: ensureBackupFileAvailable_def rehydrates_def s3_fully_configured_def
                  tempDownloadPath_def DownloadFile_def Let_def)
next
  assume a: "files w (b_Path backup) = None \<and> \<not> rehydrates e w backup userID"
  show "\<exists>err w'. ensureBackupFileAvailable e w backup userID = (Inl err, w')"
  proof (cases "ensureBackupFileAvailable e w backup userID")
    case (Pair r w')
    show ?thesis
    proof (cases r)
      case (Inl err)
      with Pair show ?thesis by blast
    next
      case (Inr pt)
      from Pair Inr a obtain us where us: "env_GetUserSettingsInternal e userID = Some us"
        and k: "\<not> unset (b_S3ObjectKey backup)" and en: "S3Enabled us"
        by (auto simp: ensureBackupFileAvailable_def split: if_splits option.splits)
      from Pair Inr a us k en obtain st where st: "configuredS3Storage e us = Inr st"
        by (cases "configuredS3Storage e us") (auto simp: ensureBackupFileAvailable_def)
      then have c: "\<not> unset (S3Endpoint us) \<and> \<not> unset (S3Bucket us) \<and>
                    \<not> unset (S3AccessKey us) \<and> \<not> unset (S3SecretKey us) \<and>
                    (case env_Decrypt e (the (S3SecretKey us)) of
                       None \<Rightarrow> False
                     | Some secretKey \<Rightarrow> env_NewS3Storage e (s3ConfigOf us secretKey))"
        using configuredS3Storage_Inr_iff[of e us] by blast
      from Pair Inr a us k en st
      have m: "env_MkdirAll e (path_Join (env_TempDir e) ''velld-s3-downloads'')"
        by (auto simp: ensureBackupFileAvailable_def Let_def split: if_splits)
      from Pair Inr a us k en st m
      have d: "the (b_S3ObjectKey backup) \<in> s3_objects w \<and>
               (case env_GetObject e (the (b_S3ObjectKey backup)) of
                  Fetched n \<Rightarrow> True | _ \<Rightarrow> False)"
        by (auto simp: ensureBackupFileAvailable_def DownloadFile_def Let_def
                 split: if_splits get_result.splits)
      from us k en c m d have "rehydrates e w backup userID"
        by (simp add: rehydrates_def s3_fully_configured_def)
      with a show ?thesis by simp
    qed
  qed
next
  assume "rehydrates e w backup userID"
  then show "\<exists>key us. b_S3ObjectKey backup = Some key \<and> key \<noteq> [] \<and>
                env_GetUserSettingsInternal e userID = Some us \<and> s3_fully_configured us"
    by (auto simp: rehydrates_def unset_def split: option.splits)
qed

theorem ensure_file_available_cases_witness:
  "files archived_world (b_Path archived_backup) = None \<and>
   rehydrates sample_env archived_world archived_backup ''u1'' \<and>
   fst (ensureBackupFileAvailable sample_env archived_world archived_backup ''u1'')
     = Inr (''/tmp/velld-s3-downloads/shop_20250101_000000.sql'', True) \<and>
   \<not> rehydrates sample_env empty_world archived_backup ''u1'' \<and>
   isl (fst (ensureBackupFileAvailable sample_env empty_world archived_backup ''u1''))"
proof -
  have f: "files archived_world (b_Path archived_backup) = None"
          "files empty_world (b_Path archived_backup) = None"
    by (simp_all add: archived_world_def empty_world_def)
  have r: "rehydrates sample_env archived_world archived_backup ''u1''"
    by code_simp
  have nr: "\<not> rehydrates sample_env empty_world archived_backup ''u1''"
    by code_simp
  have t: "tempDownloadPath sample_env archived_backup
             = ''/tmp/velld-s3-downloads/shop_20250101_000000.sql''"
    by code_simp
  show ?thesis
    using ensure_file_available_cases [of archived_world archived_backup sample_env "''u1''"]
          ensure_file_available_cases [of empty_world archived_backup sample_env "''u1''"]
          f r nr t
    by auto
qed

text \<open>
  C5 as stated fails: the local file is missing, the S3 key is set and S3 is enabled
  and fully configured, yet with an endpoint that cannot be read the call fails with
  the download error instead of returning the temporary path.
\<close>

theorem ensure_file_available_configured_counterexample:
  "files archived_world (b_Path archived_backup) = None \<and>
   b_S3ObjectKey archived_backup = Some ''p/pg1/shop_20250101_000000.sql'' \<and>
   env_GetUserSettingsInternal download_fails_env ''u1'' = Some sample_settings \<and>
   s3_fully_configured sample_settings \<and>
   fst (ensureBackupFileAvailable download_fails_env archived_world archived_backup ''u1'')
     = Inl ErrS3Download"
  by code_simp


subsection \<open>Multi-database backup\<close>

lemma subDump_unsupported:
  "dumpToolFor (conn_Type conn) = None \<Longrightarrow>
   subDump e conn folder i dbName w = (SubDumpAbort ErrUnsupportedType, w) \<and>
   subDumpFails e conn folder i dbName w"
  by (simp add: subDump_def subDumpFails_def Let_def)

text \<open>One pass of the loop body, given the dump tool: when the sub-dump fails the
  database goes to \<open>failedDatabases\<close> and no record is written; otherwise the dump
  exited with status 0 and one completed backup is written and goes to
  \<open>successfulBackups\<close>.\<close>

lemma subDump_outcome:
  assumes tool: "dumpToolFor (conn_Type conn) = Some tool"
  shows "(subDumpFails e conn folder i dbName w \<longrightarrow>
            fst (subDump e conn folder i dbName w) = SubDumpFailed \<and>
            backups (snd (subDump e conn folder i dbName w)) = backups w) \<and>
         (\<not> subDumpFails e conn folder i dbName w \<longrightarrow>
            (\<exists>b written.
               fst (subDump e conn folder i dbName w) = SubDumpSaved b \<and>
               env_dump e tool (conn\<lparr> conn_DatabaseName := dbName \<rparr>)
                 (path_Join folder (dumpFileName e dbName)) = Exited True written \<and>
               b_Status b = ''completed'' \<and> b_ConnectionID b = conn_ID conn \<and>
               b_Path b = path_Join folder (dumpFileName e dbName) \<and>
               backups (snd (subDump e conn folder i dbName w)) = backups w @ [b]))"
proof -
  let ?path = "path_Join folder (dumpFileName e dbName)"
  let ?tc = "conn\<lparr> conn_DatabaseName := dbName \<rparr>"
  show ?thesis
  proof (cases "env_dump e tool ?tc ?path")
    case ToolNotFound
    with tool show ?thesis by (simp add: subDump_def subDumpFails_def Let_def)
  next
    case (Exited ok written)
    let ?w1 = "runDump w ?path written"
    have bw1: "backups ?w1 = backups w" by (simp add: runDump_def)
    have fw1: "files ?w1 ?path = None \<longleftrightarrow> written = None \<and> files w ?path = None"
      by (cases written) (simp_all add: runDump_def)
    show ?thesis
    proof (cases ok)
      case False
      with tool Exited bw1 show ?thesis by (simp add: subDump_def subDumpFails_def Let_def)
    next
      case True
      show ?thesis
      proof (cases "files ?w1 ?path")
        case None
        with tool Exited True bw1 fw1 show ?thesis
          by (simp add: subDump_def subDumpFails_def Let_def)
      next
        case (Some fileSize)
        let ?b = "\<lparr> b_ID = env_uuid_New e i, b_ConnectionID = conn_ID conn, b_ScheduleID = None,
                      b_Status = ''completed'', b_Path = ?path, b_S3ObjectKey = None,
                      b_Size = fileSize, b_StartedTime = env_now e,
                      b_CompletedTime = Some (env_now e),
                      b_CreatedAt = env_now e, b_UpdatedAt = env_now e \<rparr>"
        obtain uploadErr b1 w2 where
          u: "uploadToS3IfEnabled e ?w1 ?b (conn_UserID conn) (conn_Name conn) = (uploadErr, b1, w2)"
          by (cases "uploadToS3IfEnabled e ?w1 ?b (conn_UserID conn) (conn_Name conn)")
        note k = uploadToS3IfEnabled_keeps[OF u]
        from Some fw1 have nf: "\<not> (written = None \<and> files w ?path = None)" by simp
        have saved: "subDumpRecordSaved e conn i ?path ?w1 \<longleftrightarrow>
                       env_insert_backup_ok e b1 \<and> b_ID b1 \<notin> set (map b_ID (backups w2))"
          using Some u by (simp add: subDumpRecordSaved_def)
        have fails: "subDumpFails e conn folder i dbName w \<longleftrightarrow>
                       \<not> (env_insert_backup_ok e b1 \<and> b_ID b1 \<notin> set (map b_ID (backups w2)))"
          using tool Exited True nf saved by (auto simp: subDumpFails_def Let_def)
        have sd: "subDump e conn folder i dbName w =
                    (case repo_CreateBackup e w2 b1 of
                       (Some err, w3) \<Rightarrow> (SubDumpFailed, w3)
                     | (None, w3) \<Rightarrow> (SubDumpSaved b1, w3))"
          using tool Exited True Some u by (simp add: subDump_def Let_def)
        show ?thesis
        proof (cases "env_insert_backup_ok e b1 \<and> b_ID b1 \<notin> set (map b_ID (backups w2))")
          case False
          then have "repo_CreateBackup e w2 b1 = (Some ErrDatabase, w2)"
            by (auto simp: repo_CreateBackup_def)
          with sd fails False k(1) bw1 show ?thesis by simp
        next
          case ok: True
          then have "repo_CreateBackup e w2 b1 =
                       (None, w2\<lparr> backups := backups w2 @ [b1],
                                  trace := trace w2 @ [EvInsertBackup b1] \<rparr>)"
            by (auto simp: repo_CreateBackup_def)
          with sd fails ok k bw1 Exited True show ?thesis by simp
        qed
      qed
    qed
  qed
qed

lemma length_subDumpFailures:
  "length (subDumpFailures e conn folder i dbs w) = length dbs"
  by (induction dbs arbitrary: i w) simp_all

lemma subDumpFailures_unsupported:
  "dumpToolFor (conn_Type conn) = None \<Longrightarrow>
   subDumpFailures e conn folder i dbs w = replicate (length dbs) True"
  by (induction dbs arbitrary: i w) (simp_all add: subDump_unsupported)

lemma unflagged_Nil [simp]: "unflagged [] flags = []" "unflagged xs [] = []"
  by (simp_all add: unflagged_def)

lemma unflagged_Cons [simp]:
  "unflagged (x # xs) (f # flags) = (if f then unflagged xs flags else x # unflagged xs flags)"
  by (simp add: unflagged_def)

lemma unflagged_empty_iff:
  "length flags = length xs \<Longrightarrow> unflagged xs flags = [] \<longleftrightarrow> (\<forall>f \<in> set flags. f)"
proof (induction xs arbitrary: flags)
  case Nil
  then show ?case by simp
next
  case (Cons x xs)
  then obtain f fs where "flags = f # fs" by (cases flags) auto
  with Cons show ?case by auto
qed

lemma unflagged_set: "set (unflagged xs flags) \<subseteq> set xs"
  by (auto simp: unflagged_def dest: set_zip_leftD)

text \<open>The loop, given the dump tool: it runs to its end; the failed databases are
  those whose sub-dump fails; the successful backups are the records written, one per
  database whose sub-dump does not fail, in order.\<close>

lemma multiLoop_flags:
  assumes tool: "dumpToolFor (conn_Type conn) = Some tool"
      and run: "multiLoop e conn folder i dbs w failed0 succ0 = (abort, w', failed, succ)"
  shows "abort = None \<and>
         (\<exists>s. succ = succ0 @ s \<and> backups w' = backups w @ s \<and>
              map b_Path s = map (\<lambda>db. path_Join folder (dumpFileName e db))
                                 (unflagged dbs (subDumpFailures e conn folder i dbs w)) \<and>
              (\<forall>b \<in> set s.
                 b_Status b = ''completed'' \<and> b_ConnectionID b = conn_ID conn \<and>
                 (\<exists>dbName \<in> set dbs. \<exists>written.
                    b_Path b = path_Join folder (dumpFileName e dbName) \<and>
                    env_dump e tool (conn\<lparr> conn_DatabaseName := dbName \<rparr>)
                      (path_Join folder (dumpFileName e dbName)) = Exited True written)))"
  using run
proof (induction dbs arbitrary: i w failed0 succ0)
  case Nil
  then show ?case by simp
next
  case (Cons dbName rest)
  define w1 where "w1 = snd (subDump e conn folder i dbName w)"
  let ?P = "\<lambda>db. path_Join folder (dumpFileName e db)"
  note o = subDump_outcome[OF tool, of e folder i dbName w, folded w1_def]
  show ?case
  proof (cases "subDumpFails e conn folder i dbName w")
    case True
    with o have f: "fst (subDump e conn folder i dbName w) = SubDumpFailed"
      and bw: "backups w1 = backups w" by blast+
    from f have sd: "subDump e conn folder i dbName w = (SubDumpFailed, w1)"
      by (simp add: prod_eq_iff w1_def)
    from Cons.prems sd
    have "multiLoop e conn folder (Suc i) rest w1 (failed0 @ [dbName]) succ0
            = (abort, w', failed, succ)" by simp
    from Cons.IH[OF this] obtain s where
      ih: "abort = None" "succ = succ0 @ s" "backups w' = backups w1 @ s"
          "map b_Path s = map ?P (unflagged rest (subDumpFailures e conn folder (Suc i) rest w1))"
          "\<forall>b \<in> set s.
                 b_Status b = ''completed'' \<and> b_ConnectionID b = conn_ID conn \<and>
                 (\<exists>dbName \<in> set rest. \<exists>written.
                    b_Path b = ?P dbName \<and>
                    env_dump e tool (conn\<lparr> conn_DatabaseName := dbName \<rparr>) (?P dbName)
                      = Exited True written)"
      by blast
    show ?thesis
    proof (intro conjI exI[of _ s])
      show "abort = None" by (rule ih(1))
      show "succ = succ0 @ s" by (rule ih(2))
      show "backups w' = backups w @ s" using ih(3) bw by simp
      show "map b_Path s = map ?P (unflagged (dbName # rest)
                                     (subDumpFailures e conn folder i (dbName # rest) w))"
        using ih(4) True by (simp add: w1_def)
      show "\<forall>b \<in> set s.
                 b_Status b = ''completed'' \<and> b_ConnectionID b = conn_ID conn \<and>
                 (\<exists>dbName \<in> set (dbName # rest). \<exists>written.
                    b_Path b = ?P dbName \<and>
                    env_dump e tool (conn\<lparr> conn_DatabaseName := dbName \<rparr>) (?P dbName)
                      = Exited True written)"
        using ih(5) by auto
    qed
  next
    case False
    with o obtain b written where
      f: "fst (subDump e conn folder i dbName w) = SubDumpSaved b"
      and d: "env_dump e tool (conn\<lparr> conn_DatabaseName := dbName \<rparr>) (?P dbName)
                = Exited True written"
      and b: "b_Status b = ''completed''" "b_ConnectionID b = conn_ID conn"
             "b_Path b = ?P dbName"
      and bw: "backups w1 = backups w @ [b]" by blast
    from f have sd: "subDump e conn folder i dbName w = (SubDumpSaved b, w1)"
      by (simp add: prod_eq_iff w1_def)
    from Cons.prems sd
    have "multiLoop e conn folder (Suc i) rest w1 failed0 (succ0 @ [b])
            = (abort, w', failed, succ)" by simp
    from Cons.IH[OF this] obtain s where
      ih: "abort = None" "succ = (succ0 @ [b]) @ s" "backups w' = backups w1 @ s"
          "map b_Path s = map ?P (unflagged rest (subDumpFailures e conn folder (Suc i) rest w1))"
          "\<forall>b \<in> set s.
                 b_Status b = ''completed'' \<and> b_ConnectionID b = conn_ID conn \<and>
                 (\<exists>dbName \<in> set rest. \<exists>written.
                    b_Path b = ?P dbName \<and>
                    env_dump e tool (conn\<lparr> conn_DatabaseName := dbName \<rparr>) (?P dbName)
                      = Exited True written)"
      by blast
    show ?thesis
    proof (intro conjI exI[of _ "b # s"])
      show "abort = None" by (rule ih(1))
      show "succ = succ0 @ b # s" using ih(2) by simp
      show "backups w' = backups w @ b # s" using ih(3) bw by simp
      show "map b_Path (b # s) = map ?P (unflagged (dbName # rest)
                                     (subDumpFailures e conn folder i (dbName # rest) w))"
        using ih(4) False b(3) by (simp add: w1_def)
      show "\<forall>b' \<in> set (b # s).
                 b_Status b' = ''completed'' \<and> b_ConnectionID b' = conn_ID conn \<and>
                 (\<exists>dbName \<in> set (dbName # rest). \<exists>written.
                    b_Path b' = ?P dbName \<and>
                    env_dump e tool (conn\<lparr> conn_DatabaseName := dbName \<rparr>) (?P dbName)
                      = Exited True written)"
        using ih(5) b d by auto
    qed
  qed
qed

lemma multiLoop_unsupported:
  "dumpToolFor (conn_Type conn) = None \<Longrightarrow>
   multiLoop e conn folder i dbs w failed succ =
     (if dbs = [] then None else Some ErrUnsupportedType, w, failed, succ)"
  by (cases dbs) (simp_all add: subDump_unsupported)

lemma applyTunnel_selected:
  "conn_SelectedDatabases (applyTunnel t c) = conn_SelectedDatabases c"
  by (cases t) (simp_all add: applyTunnel_def)

lemma connectionFolderOf_tunnel:
  "connectionFolderOf e (applyTunnel t c) = connectionFolderOf e c"
  by (simp add: connectionFolderOf_def applyTunnel_keeps)

text \<open>
  C3. For every \<open>CreateBackup\<close> on a connection with selected databases, with one
  flag per selected database telling whether its sub-dump fails (no dump tool for the
  type, tool not found, non-zero exit, no dump file, record not saved, or no sub-dump
  able to run at all): the call returns an error if and only if every sub-dump fails,
  and otherwise returns the first backup written. The records added to the backups
  table are, in order, one per sub-dump that does not fail, at the dump path of its
  database, each with status \<open>completed\<close> and each for a database whose dump command
  exited with status 0; a sub-dump that fails leaves no record.
\<close>

theorem multi_backup_outcome:
  assumes "repo_GetConnection (env_Decrypt e) (connections w) connectionID = Inr conn0"
      and "conn_SelectedDatabases conn0 \<noteq> []"
  shows "\<exists>news.
           length (multiSubDumpFailures e w conn0) = length (conn_SelectedDatabases conn0) \<and>
           backups (snd (CreateBackup e w connectionID)) = backups w @ news \<and>
           map b_Path news
             = map (dumpPathOf e conn0)
                   (unflagged (conn_SelectedDatabases conn0) (multiSubDumpFailures e w conn0)) \<and>
           (\<forall>b \<in> set news.
              b_Status b = ''completed'' \<and> b_ConnectionID b = conn_ID conn0 \<and>
              (\<exists>dbName \<in> set (conn_SelectedDatabases conn0). \<exists>tool written.
                 b_Path b = dumpPathOf e conn0 dbName \<and>
                 dumpToolFor (conn_Type conn0) = Some tool \<and>
                 env_dump e tool
                   ((applyTunnel (env_setupSSHTunnelIfNeeded e conn0) conn0)
                      \<lparr> conn_DatabaseName := dbName \<rparr>)
                   (dumpPathOf e conn0 dbName) = Exited True written)) \<and>
           (isl (fst (CreateBackup e w connectionID))
              \<longleftrightarrow> (\<forall>f \<in> set (multiSubDumpFailures e w conn0). f)) \<and>
           (news \<noteq> [] \<longrightarrow> fst (CreateBackup e w connectionID) = Inr (hd news))"
proof -
  let ?t = "env_setupSSHTunnelIfNeeded e conn0"
  let ?conn = "applyTunnel ?t conn0"
  let ?folder = "connectionFolderOf e ?conn"
  let ?dbs = "conn_SelectedDatabases conn0"
  let ?flags = "multiSubDumpFailures e w conn0"
  let ?R = "CreateBackup e w connectionID"
  have cb: "?R = createMultiDatabaseBackup e w conn0"
    using assms by (simp add: CreateBackup_def)
  have folder: "?folder = connectionFolderOf e conn0" by (rule connectionFolderOf_tunnel)
  have P: "(\<lambda>db. path_Join ?folder (dumpFileName e db)) = dumpPathOf e conn0"
    by (simp add: dumpPathOf_def[abs_def] folder)
  have Pd: "\<And>db. path_Join ?folder (dumpFileName e db) = dumpPathOf e conn0 db"
    by (simp add: dumpPathOf_def folder)
  consider (pre) "\<not> env_verifyBackupTools e (conn_Type conn0) \<or> ?t = TunnelError \<or>
                   \<not> env_MkdirAll e ?folder"
    | (loop) "env_verifyBackupTools e (conn_Type conn0)" "?t \<noteq> TunnelError"
             "env_MkdirAll e ?folder"
    by blast
  then show ?thesis
  proof cases
    case pre
    then have fl: "?flags = replicate (length ?dbs) True"
      by (auto simp: multiSubDumpFailures_def Let_def)
    from pre have "\<exists>err. multiDatabaseRun e w conn0 = (Some err, w, [], [])"
      by (cases ?t) (auto simp: multiDatabaseRun_def Let_def)
    then have res: "isl (fst ?R)" "snd ?R = w"
      unfolding cb by (auto simp: createMultiDatabaseBackup_def)
    have un: "unflagged ?dbs ?flags = []"
      by (subst unflagged_empty_iff) (simp_all add: fl)
    show ?thesis
      by (rule exI[of _ "[]"]) (simp add: res un, simp add: fl)
  next
    case loop
    then have fl: "?flags = subDumpFailures e ?conn ?folder 0 ?dbs w"
      by (simp add: multiSubDumpFailures_def Let_def)
    have len: "length ?flags = length ?dbs" by (simp add: fl length_subDumpFailures)
    from loop have run: "multiDatabaseRun e w conn0 = multiLoop e ?conn ?folder 0 ?dbs w [] []"
      by (cases ?t) (simp_all add: multiDatabaseRun_def Let_def applyTunnel_selected)
    show ?thesis
    proof (cases "dumpToolFor (conn_Type conn0)")
      case None
      then have n: "dumpToolFor (conn_Type ?conn) = None" by (simp add: applyTunnel_keeps)
      have all: "?flags = replicate (length ?dbs) True"
        unfolding fl by (rule subDumpFailures_unsupported[OF n])
      from run multiLoop_unsupported[OF n] assms(2)
      have "multiDatabaseRun e w conn0 = (Some ErrUnsupportedType, w, [], [])" by simp
      then have res: "isl (fst ?R)" "snd ?R = w"
        unfolding cb by (auto simp: createMultiDatabaseBackup_def)
      have un: "unflagged ?dbs ?flags = []"
        by (subst unflagged_empty_iff) (simp_all add: all)
      show ?thesis
        by (rule exI[of _ "[]"]) (simp add: res un, simp add: all)
    next
      case (Some tool)
      then have tl: "dumpToolFor (conn_Type ?conn) = Some tool" by (simp add: applyTunnel_keeps)
      obtain abort w' failed succ where
        m: "multiLoop e ?conn ?folder 0 ?dbs w [] [] = (abort, w', failed, succ)"
        by (cases "multiLoop e ?conn ?folder 0 ?dbs w [] []") auto
      from multiLoop_flags[OF tl m] have ab: "abort = None"
        and bw: "backups w' = backups w @ succ"
        and paths: "map b_Path succ = map (dumpPathOf e conn0) (unflagged ?dbs ?flags)"
        and each: "\<forall>b \<in> set succ.
                 b_Status b = ''completed'' \<and> b_ConnectionID b = conn_ID ?conn \<and>
                 (\<exists>dbName \<in> set ?dbs. \<exists>written.
                    b_Path b = dumpPathOf e conn0 dbName \<and>
                    env_dump e tool (?conn\<lparr> conn_DatabaseName := dbName \<rparr>)
                      (dumpPathOf e conn0 dbName) = Exited True written)"
        unfolding P Pd fl by auto
      from run m ab have res: "snd ?R = w'" "isl (fst ?R) \<longleftrightarrow> succ = []"
                              "succ \<noteq> [] \<longrightarrow> fst ?R = Inr (hd succ)"
        unfolding cb by (auto simp: createMultiDatabaseBackup_def split: list.splits)
      have "succ = [] \<longleftrightarrow> unflagged ?dbs ?flags = []"
        using arg_cong[OF paths, of length] by auto
      also have "\<dots> \<longleftrightarrow> (\<forall>f \<in> set ?flags. f)" by (rule unflagged_empty_iff[OF len])
      finally have iff: "succ = [] \<longleftrightarrow> (\<forall>f \<in> set ?flags. f)" .
      show ?thesis
      proof (intro exI[of _ succ] conjI)
        show "length ?flags = length ?dbs" by (rule len)
        show "backups (snd ?R) = backups w @ succ" using res(1) bw by simp
        show "map b_Path succ = map (dumpPathOf e conn0) (unflagged ?dbs ?flags)" by (rule paths)
        show "\<forall>b \<in> set succ.
              b_Status b = ''completed'' \<and> b_ConnectionID b = conn_ID conn0 \<and>
              (\<exists>dbName \<in> set ?dbs. \<exists>tool written.
                 b_Path b = dumpPathOf e conn0 dbName \<and>
                 dumpToolFor (conn_Type conn0) = Some tool \<and>
                 env_dump e tool (?conn\<lparr> conn_DatabaseName := dbName \<rparr>)
                   (dumpPathOf e conn0 dbName) = Exited True written)"
          using each Some by (auto simp: applyTunnel_keeps)
        show "isl (fst ?R) \<longleftrightarrow> (\<forall>f \<in> set ?flags. f)" using res(2) iff by simp
        show "succ \<noteq> [] \<longrightarrow> fst ?R = Inr (hd succ)" by (rule res(3))
      qed
    qed
  qed
qed

theorem multi_backup_outcome_witness:
  "\<not> isl (repo_GetConnection (env_Decrypt crm_fails_env) (connections multi_world) ''c1'') \<and>
   conn_SelectedDatabases
     (projr (repo_GetConnection (env_Decrypt crm_fails_env) (connections multi_world) ''c1''))
     = [''shop'', ''crm'', ''logs''] \<and>
   multiSubDumpFailures crm_fails_env multi_world
     (projr (repo_GetConnection (env_Decrypt crm_fails_env) (connections multi_world) ''c1''))
     = [False, True, False] \<and>
   map_sum id b_Path (fst (CreateBackup crm_fails_env multi_world ''c1''))
     = Inr ''/data/backups/pg1/shop_20250101_000000.sql'' \<and>
   map b_Path (backups (snd (CreateBackup crm_fails_env multi_world ''c1'')))
     = [''/data/backups/pg1/shop_20250101_000000.sql'',
        ''/data/backups/pg1/logs_20250101_000000.sql''] \<and>
   multiSubDumpFailures dump_fails_env multi_world
     (projr (repo_GetConnection (env_Decrypt crm_fails_env) (connections multi_world) ''c1''))
     = [True, True, True] \<and>
   isl (fst (CreateBackup dump_fails_env multi_world ''c1'')) \<and>
   backups (snd (CreateBackup dump_fails_env multi_world ''c1'')) = []"
proof -
  define conn0 where
    "conn0 = projr (repo_GetConnection (env_Decrypt crm_fails_env) (connections multi_world) ''c1'')"
  have ni: "\<not> isl (repo_GetConnection (env_Decrypt crm_fails_env) (connections multi_world) ''c1'')"
    by code_simp
  then have g: "repo_GetConnection (env_Decrypt crm_fails_env) (connections multi_world) ''c1''
                  = Inr conn0"
    unfolding conn0_def by simp
  have g': "repo_GetConnection (env_Decrypt dump_fails_env) (connections multi_world) ''c1''
                  = Inr conn0"
    using g by (simp add: dump_fails_env_def crm_fails_env_def)
  have sel: "conn_SelectedDatabases conn0 = [''shop'', ''crm'', ''logs'']"
    unfolding conn0_def by code_simp
  then have ne: "conn_SelectedDatabases conn0 \<noteq> []" by simp
  have f1: "multiSubDumpFailures crm_fails_env multi_world conn0 = [False, True, False]"
    unfolding conn0_def by code_simp
  have f2: "multiSubDumpFailures dump_fails_env multi_world conn0 = [True, True, True]"
    unfolding conn0_def by code_simp
  have p: "dumpPathOf crm_fails_env conn0 ''shop'' = ''/data/backups/pg1/shop_20250101_000000.sql''"
          "dumpPathOf crm_fails_env conn0 ''logs'' = ''/data/backups/pg1/logs_20250101_000000.sql''"
    unfolding conn0_def by code_simp+
  have e0: "backups multi_world = []"
    by (simp add: multi_world_def empty_world_def)
  from multi_backup_outcome [OF g ne] obtain news where
    n: "backups (snd (CreateBackup crm_fails_env multi_world ''c1'')) = backups multi_world @ news"
       "map b_Path news = map (dumpPathOf crm_fails_env conn0)
                              (unflagged (conn_SelectedDatabases conn0)
                                 (multiSubDumpFailures crm_fails_env multi_world conn0))"
       "news \<noteq> [] \<longrightarrow> fst (CreateBackup crm_fails_env multi_world ''c1'') = Inr (hd news)"
    by blast
  from n(2) have np: "map b_Path news = [''/data/backups/pg1/shop_20250101_000000.sql'',
                                         ''/data/backups/pg1/logs_20250101_000000.sql'']"
    by (simp add: sel f1 p)
  then have nn: "news \<noteq> []" by auto
  from np have hd: "b_Path (hd news) = ''/data/backups/pg1/shop_20250101_000000.sql''"
    by (cases news) auto
  from multi_backup_outcome [OF g' ne] obtain news' where
    m: "backups (snd (CreateBackup dump_fails_env multi_world ''c1'')) = backups multi_world @ news'"
       "map b_Path news' = map (dumpPathOf dump_fails_env conn0)
                              (unflagged (conn_SelectedDatabases conn0)
                                 (multiSubDumpFailures dump_fails_env multi_world conn0))"
       "isl (fst (CreateBackup dump_fails_env multi_world ''c1''))
          \<longleftrightarrow> (\<forall>f \<in> set (multiSubDumpFailures dump_fails_env multi_world conn0). f)"
    by blast
  from m(2) have "news' = []" by (simp add: sel f2)
  with m(1) m(3) f2 e0
  have q: "isl (fst (CreateBackup dump_fails_env multi_world ''c1''))"
          "backups (snd (CreateBackup dump_fails_env multi_world ''c1'')) = []"
    by simp_all
  from n(1) n(3) nn np hd e0
  have r: "map_sum id b_Path (fst (CreateBackup crm_fails_env multi_world ''c1''))
             = Inr ''/data/backups/pg1/shop_20250101_000000.sql''"
          "map b_Path (backups (snd (CreateBackup crm_fails_env multi_world ''c1'')))
             = [''/data/backups/pg1/shop_20250101_000000.sql'',
                ''/data/backups/pg1/logs_20250101_000000.sql'']"
    by simp_all
  from ni sel f1 f2 q r show ?thesis
    unfolding conn0_def by simp
qed


subsection \<open>Retention clean-up\<close>

lemma cleanupLoop_effect:
  "backups (cleanupLoop e conn st old w) =
     filter (\<lambda>b. \<not> (b_ID b \<in> b_ID ` set old \<and> env_delete_backup_ok e (b_ID b))) (backups w) \<and>
   files (cleanupLoop e conn st old w) =
     (\<lambda>p. if p \<in> b_Path ` set old \<and> env_Remove e p then None else files w p) \<and>
   s3_objects (cleanupLoop e conn st old w) =
     s3_objects w -
       {k. st \<noteq> None \<and> conn_S3CleanupOnRetention conn \<and> k \<noteq> [] \<and>
           (\<exists>b \<in> set old. b_S3ObjectKey b = Some k) \<and> env_RemoveObject e k} \<and>
   connections (cleanupLoop e conn st old w) = connections w"
proof (induction old arbitrary: w)
  case Nil
  show ?case by simp
next
  case (Cons backup rest)
  define w1 where "w1 = (if \<not> unset (b_S3ObjectKey backup) \<and> st \<noteq> None \<and>
                            conn_S3CleanupOnRetention conn
                         then snd (S3_DeleteFile e w (the (b_S3ObjectKey backup)))
                         else w)"
  define w2 where "w2 = (if files w1 (b_Path backup) \<noteq> None
                         then snd (os_Remove e w1 (b_Path backup)) else w1)"
  define w3 where "w3 = snd (repo_DeleteBackup e w2 (b_ID backup))"
  have step: "cleanupLoop e conn st (backup # rest) w = cleanupLoop e conn st rest w3"
    by (simp add: Let_def w1_def w2_def w3_def)
  have b1: "backups w1 = backups w" "files w1 = files w" "connections w1 = connections w"
    by (simp_all add: w1_def S3_DeleteFile_def)
  have s1: "s3_objects w1 = s3_objects w -
              {k. st \<noteq> None \<and> conn_S3CleanupOnRetention conn \<and> k \<noteq> [] \<and>
                  b_S3ObjectKey backup = Some k \<and> env_RemoveObject e k}"
    by (cases "b_S3ObjectKey backup") (auto simp: w1_def S3_DeleteFile_def unset_def)
  have b2: "backups w2 = backups w" "s3_objects w2 = s3_objects w1"
           "connections w2 = connections w"
    by (simp_all add: w2_def os_Remove_effect b1)
  have f2: "files w2 = (\<lambda>p. if p = b_Path backup \<and> env_Remove e p then None else files w p)"
    by (auto simp: w2_def os_Remove_effect b1 fun_eq_iff)
  have b3: "backups w3 =
              filter (\<lambda>b. \<not> (b_ID b = b_ID backup \<and> env_delete_backup_ok e (b_ID b))) (backups w)"
    by (auto simp: w3_def repo_DeleteBackup_def b2 intro: filter_cong)
  have f3: "files w3 = files w2" "s3_objects w3 = s3_objects w2" "connections w3 = connections w"
    by (simp_all add: w3_def repo_DeleteBackup_def b2)
  note ih = Cons.IH[of w3]
  have A: "backups (cleanupLoop e conn st (backup # rest) w) =
             filter (\<lambda>b. \<not> (b_ID b \<in> b_ID ` set (backup # rest) \<and>
                               env_delete_backup_ok e (b_ID b))) (backups w)"
    unfolding step using ih by (auto simp: b3 intro: filter_cong)
  have B: "files (cleanupLoop e conn st (backup # rest) w) =
             (\<lambda>p. if p \<in> b_Path ` set (backup # rest) \<and> env_Remove e p then None
                  else files w p)"
    unfolding step using ih by (auto simp: f3 f2 fun_eq_iff)
  have C: "s3_objects (cleanupLoop e conn st (backup # rest) w) =
             s3_objects w -
               {k. st \<noteq> None \<and> conn_S3CleanupOnRetention conn \<and> k \<noteq> [] \<and>
                   (\<exists>b \<in> set (backup # rest). b_S3ObjectKey b = Some k) \<and>
                   env_RemoveObject e k}"
    unfolding step using ih by (auto simp: f3 b2 s1)
  have D: "connections (cleanupLoop e conn st (backup # rest) w) = connections w"
    unfolding step using ih by (simp add: f3)
  from A B C D show ?case by blast
qed

lemma olderThanRow_fields:
  "b_ID (olderThanRow b) = b_ID b" "b_Path (olderThanRow b) = b_Path b"
  "b_S3ObjectKey (olderThanRow b) = b_S3ObjectKey b"
  by (simp_all add: olderThanRow_def)

lemma distinct_ids_expired:
  assumes "distinct (map b_ID (backups w))" and "b \<in> set (backups w)"
  shows "b_ID b \<in> b_ID ` {b' \<in> set (backups w). P b'} \<longleftrightarrow> P b"
proof -
  from assms(1) have "inj_on b_ID (set (backups w))" by (simp add: distinct_map)
  with assms(2) show ?thesis by (auto dest: inj_onD)
qed

text \<open>
  Retention clean-up and the cutoff the specification means. With the backups table
  keyed by \<open>id\<close>, no \<open>in_progress\<close> record is ever deleted, whatever the cutoff. When
  the cutoff the code computes is \<open>now\<close> minus \<open>retention_days\<close> days, the clean-up never
  deletes a backup that is not a completed backup of the connection older than that;
  and when moreover the store answers (the query and the deletes succeed and the
  connection loads), it deletes exactly those backups: the table keeps the others and
  nothing else; the S3 object of such a backup is removed exactly when its key is set,
  an S3 client could be configured and the connection's \<open>s3_cleanup_on_retention\<close> is
  true (a failing removal is skipped and the clean-up goes on); and the local file of
  such a backup is removed when it exists (again unless the removal fails).
\<close>

theorem retention_gc_effect:
  assumes "distinct (map b_ID (backups w))"
  shows "(\<forall>b \<in> set (backups w). b_Status b = ''in_progress''
            \<longrightarrow> b \<in> set (backups (cleanupOldBackups e w connectionID retentionDays))) \<and>
         (retentionCutoff e retentionDays = env_now e - retentionDays * 86400 \<longrightarrow>
          (\<forall>b \<in> set (backups w). \<not> expired e connectionID retentionDays b
            \<longrightarrow> b \<in> set (backups (cleanupOldBackups e w connectionID retentionDays))) \<and>
          (env_query_ok e \<and> (\<forall>i. env_delete_backup_ok e i) \<and>
           repo_GetConnection (env_Decrypt e) (connections w) connectionID = Inr conn
           \<longrightarrow> backups (cleanupOldBackups e w connectionID retentionDays)
                 = filter (\<lambda>b. \<not> expired e connectionID retentionDays b) (backups w) \<and>
               s3_objects (cleanupOldBackups e w connectionID retentionDays)
                 = s3_objects w -
                     {k. \<exists>b \<in> set (backups w). expired e connectionID retentionDays b \<and>
                           b_S3ObjectKey b = Some k \<and> k \<noteq> [] \<and>
                           retentionS3Storage e (env_GetUserSettingsInternal e (conn_UserID conn))
                             \<noteq> None \<and>
                           conn_S3CleanupOnRetention conn \<and> env_RemoveObject e k} \<and>
               (\<forall>p. files (cleanupOldBackups e w connectionID retentionDays) p
                      = (if (\<exists>b \<in> set (backups w). expired e connectionID retentionDays b \<and>
                               b_Path b = p) \<and> env_Remove e p
                         then None else files w p))))"
proof -
  let ?P = "\<lambda>b. b_ConnectionID b = connectionID \<and> b_Status b = ''completed'' \<and>
                 b_CreatedAt b < retentionCutoff e retentionDays"
  let ?sel = "filter ?P (backups w)"
  let ?old = "map olderThanRow ?sel"
  let ?w' = "cleanupOldBackups e w connectionID retentionDays"
  have q: "repo_GetBackupsOlderThan e w connectionID (retentionCutoff e retentionDays)
             = (if env_query_ok e then Inr ?old else Inl ErrDatabase)"
    by (auto simp: repo_GetBackupsOlderThan_def
             intro: arg_cong[where f="map olderThanRow"] filter_cong)
  have ids: "b_ID ` set ?old = b_ID ` {b' \<in> set (backups w). ?P b'}"
    by (auto simp: olderThanRow_fields image_iff)
  have paths: "\<And>p. p \<in> b_Path ` set ?old \<longleftrightarrow> (\<exists>b \<in> set (backups w). ?P b \<and> b_Path b = p)"
    by (auto simp: olderThanRow_fields image_iff)
  have keys: "\<And>k. (\<exists>b \<in> set ?old. b_S3ObjectKey b = Some k)
                 \<longleftrightarrow> (\<exists>b \<in> set (backups w). ?P b \<and> b_S3ObjectKey b = Some k)"
    by (auto simp: olderThanRow_fields)
  have loop_backups: "backups (cleanupLoop e c st ?old w) =
        filter (\<lambda>b. \<not> (?P b \<and> env_delete_backup_ok e (b_ID b))) (backups w)" for c st
  proof -
    have "backups (cleanupLoop e c st ?old w) =
            filter (\<lambda>b. \<not> (b_ID b \<in> b_ID ` set ?old \<and> env_delete_backup_ok e (b_ID b)))
                   (backups w)"
      using cleanupLoop_effect[of e c st ?old w] by blast
    also have "\<dots> = filter (\<lambda>b. \<not> (?P b \<and> env_delete_backup_ok e (b_ID b))) (backups w)"
      unfolding ids
      by (rule filter_cong[OF refl]) (simp add: distinct_ids_expired[OF assms])
    finally show ?thesis .
  qed
  have shape: "?w' = w \<or> (\<exists>c st. ?w' = cleanupLoop e c st ?old w)"
    by (auto simp: cleanupOldBackups_def q Let_def split: sum.splits)
  have keep: "b \<in> set (backups ?w')" if "b \<in> set (backups w)" "\<not> ?P b" for b
    using shape that by (auto simp: loop_backups)
  have A': "\<forall>b \<in> set (backups w). b_Status b = ''in_progress'' \<longrightarrow> b \<in> set (backups ?w')"
    using keep by auto
  have B: "backups ?w' = filter (\<lambda>b. \<not> ?P b) (backups w) \<and>
           s3_objects ?w' = s3_objects w -
             {k. \<exists>b \<in> set (backups w). ?P b \<and> b_S3ObjectKey b = Some k \<and> k \<noteq> [] \<and>
                   retentionS3Storage e (env_GetUserSettingsInternal e (conn_UserID conn)) \<noteq> None \<and>
                   conn_S3CleanupOnRetention conn \<and> env_RemoveObject e k} \<and>
           (\<forall>p. files ?w' p = (if (\<exists>b \<in> set (backups w). ?P b \<and> b_Path b = p) \<and> env_Remove e p
                               then None else files w p))"
    if ok: "env_query_ok e" "\<forall>i. env_delete_backup_ok e i"
       "repo_GetConnection (env_Decrypt e) (connections w) connectionID = Inr conn"
  proof (cases "?sel = []")
    case True
    then have none: "\<And>b. b \<in> set (backups w) \<Longrightarrow> \<not> ?P b"
      by (auto simp: filter_empty_conv)
    from True ok have "?w' = w" by (simp add: cleanupOldBackups_def q Let_def)
    moreover have "filter (\<lambda>b. \<not> ?P b) (backups w) = backups w"
      using none by (simp add: filter_id_conv)
    ultimately show ?thesis using none by auto
  next
    case False
    let ?st = "retentionS3Storage e (env_GetUserSettingsInternal e (conn_UserID conn))"
    from False ok have w': "?w' = cleanupLoop e conn ?st ?old w"
      by (simp add: cleanupOldBackups_def q Let_def)
    note eff = cleanupLoop_effect[of e conn ?st ?old w]
    have 1: "backups ?w' = filter (\<lambda>b. \<not> ?P b) (backups w)"
      unfolding w' loop_backups using ok(2) by simp
    have 2: "s3_objects ?w' = s3_objects w -
             {k. \<exists>b \<in> set (backups w). ?P b \<and> b_S3ObjectKey b = Some k \<and> k \<noteq> [] \<and>
                   ?st \<noteq> None \<and> conn_S3CleanupOnRetention conn \<and> env_RemoveObject e k}"
      unfolding w' using eff keys by auto
    have 3: "\<forall>p. files ?w' p = (if (\<exists>b \<in> set (backups w). ?P b \<and> b_Path b = p) \<and> env_Remove e p
                               then None else files w p)"
      unfolding w' using eff paths by auto
    from 1 2 3 show ?thesis by blast
  qed
  have C: "(\<forall>b \<in> set (backups w). \<not> expired e connectionID retentionDays b
              \<longrightarrow> b \<in> set (backups ?w')) \<and>
           (env_query_ok e \<and> (\<forall>i. env_delete_backup_ok e i) \<and>
            repo_GetConnection (env_Decrypt e) (connections w) connectionID = Inr conn
            \<longrightarrow> backups ?w' = filter (\<lambda>b. \<not> expired e connectionID retentionDays b) (backups w) \<and>
               s3_objects ?w'
                 = s3_objects w -
                     {k. \<exists>b \<in> set (backups w). expired e connectionID retentionDays b \<and>
                           b_S3ObjectKey b = Some k \<and> k \<noteq> [] \<and>
                           retentionS3Storage e (env_GetUserSettingsInternal e (conn_UserID conn))
                             \<noteq> None \<and>
                           conn_S3CleanupOnRetention conn \<and> env_RemoveObject e k} \<and>
               (\<forall>p. files ?w' p
                      = (if (\<exists>b \<in> set (backups w). expired e connectionID retentionDays b \<and>
                               b_Path b = p) \<and> env_Remove e p
                         then None else files w p)))"
    if cut: "retentionCutoff e retentionDays = env_now e - retentionDays * 86400"
  proof -
    have ex: "expired e connectionID retentionDays = ?P"
      by (simp add: expired_def[abs_def] cut)
    show ?thesis unfolding ex using keep B by blast
  qed
  from A' C show ?thesis by blast
qed


theorem retention_gc_effect_witness:
  "distinct (map b_ID (backups gc_world)) \<and>
   retentionCutoff sample_env 7 = env_now sample_env - 7 * 86400 \<and>
   env_query_ok sample_env \<and>
   \<not> isl (repo_GetConnection (env_Decrypt sample_env) (connections gc_world) ''c1'') \<and>
   backups (cleanupOldBackups sample_env gc_world ''c1'' 7) = [archived_backup, stuck_backup] \<and>
   ''p/pg1/shop_old.sql'' \<notin> s3_objects (cleanupOldBackups sample_env gc_world ''c1'' 7) \<and>
   ''p/pg1/shop_20250101_000000.sql'' \<in> s3_objects (cleanupOldBackups sample_env gc_world ''c1'' 7) \<and>
   files (cleanupOldBackups sample_env gc_world ''c1'' 7) ''/data/backups/pg1/shop_old.sql'' = None"
proof -
  define conn where
    "conn = projr (repo_GetConnection (env_Decrypt sample_env) (connections gc_world) ''c1'')"
  have d: "distinct (map b_ID (backups gc_world))" by code_simp
  have cut: "retentionCutoff sample_env 7 = env_now sample_env - 7 * 86400"
    by (simp add: retentionCutoff_def sample_env_def utc_AddDate_def wrap64_def)
  have ni: "\<not> isl (repo_GetConnection (env_Decrypt sample_env) (connections gc_world) ''c1'')"
    by code_simp
  then have g: "repo_GetConnection (env_Decrypt sample_env) (connections gc_world) ''c1'' = Inr conn"
    unfolding conn_def by simp
  have ok: "env_query_ok sample_env" "\<forall>i. env_delete_backup_ok sample_env i"
           "\<And>k. env_RemoveObject sample_env k" "\<And>p. env_Remove sample_env p"
    by (simp_all add: sample_env_def)
  have fl: "filter (\<lambda>b. \<not> expired sample_env ''c1'' 7 b) (backups gc_world)
              = [archived_backup, stuck_backup]"
    by code_simp
  have ex: "expired sample_env ''c1'' 7 old_backup" "\<not> expired sample_env ''c1'' 7 archived_backup"
           "\<not> expired sample_env ''c1'' 7 stuck_backup"
    by code_simp+
  have bs: "set (backups gc_world) = {old_backup, archived_backup, stuck_backup}"
    by (simp add: gc_world_def)
  have fields: "b_S3ObjectKey old_backup = Some ''p/pg1/shop_old.sql''"
               "b_Path old_backup = ''/data/backups/pg1/shop_old.sql''"
               "b_S3ObjectKey archived_backup = Some ''p/pg1/shop_20250101_000000.sql''"
               "b_S3ObjectKey stuck_backup = None"
    by (simp_all add: old_backup_def archived_backup_def stuck_backup_def)
  have st: "retentionS3Storage sample_env (env_GetUserSettingsInternal sample_env (conn_UserID conn))
              \<noteq> None"
    unfolding conn_def by code_simp
  have fg: "conn_S3CleanupOnRetention conn"
    unfolding conn_def by code_simp
  have s0: "s3_objects gc_world = {''p/pg1/shop_old.sql'', ''p/pg1/shop_20250101_000000.sql''}"
    by (simp add: gc_world_def empty_world_def)
  note t = retention_gc_effect[OF d, of sample_env "''c1''" 7 conn]
  from t ok g cut have
    b: "backups (cleanupOldBackups sample_env gc_world ''c1'' 7)
          = filter (\<lambda>b. \<not> expired sample_env ''c1'' 7 b) (backups gc_world)"
    and s: "s3_objects (cleanupOldBackups sample_env gc_world ''c1'' 7)
          = s3_objects gc_world -
              {k. \<exists>b \<in> set (backups gc_world). expired sample_env ''c1'' 7 b \<and>
                    b_S3ObjectKey b = Some k \<and> k \<noteq> [] \<and>
                    retentionS3Storage sample_env
                      (env_GetUserSettingsInternal sample_env (conn_UserID conn)) \<noteq> None \<and>
                    conn_S3CleanupOnRetention conn \<and> env_RemoveObject sample_env k}"
    and f: "\<forall>p. files (cleanupOldBackups sample_env gc_world ''c1'' 7) p
              = (if (\<exists>b \<in> set (backups gc_world). expired sample_env ''c1'' 7 b \<and> b_Path b = p) \<and>
                    env_Remove sample_env p
                 then None else files gc_world p)"
    by blast+
  have k: "{k. \<exists>b \<in> set (backups gc_world). expired sample_env ''c1'' 7 b \<and>
                    b_S3ObjectKey b = Some k \<and> k \<noteq> [] \<and>
                    retentionS3Storage sample_env
                      (env_GetUserSettingsInternal sample_env (conn_UserID conn)) \<noteq> None \<and>
                    conn_S3CleanupOnRetention conn \<and> env_RemoveObject sample_env k}
           = {''p/pg1/shop_old.sql''}"
    using ex fields st fg ok(3) unfolding bs by auto
  have f1: "files (cleanupOldBackups sample_env gc_world ''c1'' 7) ''/data/backups/pg1/shop_old.sql''
              = None"
    using f[rule_format, of "''/data/backups/pg1/shop_old.sql''"] ex(1) fields(2) ok(4) bs by auto
  show ?thesis
    using d cut ok(1) ni b[unfolded fl] s[unfolded k s0] f1 by simp
qed

text \<open>
  C6 does not hold of the code for every retention period. The schedule handlers accept
  every \<open>retention_days\<close> greater than 0, and the cutoff is computed in 64-bit
  arithmetic: for \<open>retention_days = 9223372036854775807\<close> on a server running on UTC
  the cutoff is \<open>now\<close> plus one day instead of \<open>now\<close> minus that many days. No backup of
  the store \<open>gc_world\<close> is older than \<open>now\<close> minus \<open>retention_days\<close> days, yet the clean-up
  deletes both completed backups of the connection, the one created at \<open>now\<close> included;
  only the \<open>in_progress\<close> record is left.
\<close>

theorem retention_gc_overflow_deletes_recent_backups:
  "retentionCutoff sample_env 9223372036854775807 = env_now sample_env + 86400 \<and>
   backups gc_world = [old_backup, archived_backup, stuck_backup] \<and>
   b_CreatedAt archived_backup = env_now sample_env \<and>
   \<not> expired sample_env ''c1'' 9223372036854775807 old_backup \<and>
   \<not> expired sample_env ''c1'' 9223372036854775807 archived_backup \<and>
   backups (cleanupOldBackups sample_env gc_world ''c1'' 9223372036854775807) = [stuck_backup]"
  by code_simp


subsection \<open>Scheduling a backup\<close>

lemma latestSchedule_None: "latestSchedule xs = None \<longleftrightarrow> xs = []"
  by (induction xs) (auto split: option.splits)

lemma latestSchedule_map:
  "(\<And>x. sched_CreatedAt (f x) = sched_CreatedAt x) \<Longrightarrow>
   latestSchedule (map f xs) = map_option f (latestSchedule xs)"
  by (induction xs) (auto split: option.splits)

lemma cron_keeps_schedules:
  "schedules (cron_Remove w i) = schedules w"
  "schedules (snd (cron_AddFunc e w spec)) = schedules w"
  by (simp_all add: cron_Remove_def cron_AddFunc_def Let_def)

lemma GetBackupSchedule_NoRows:
  "repo_GetBackupSchedule e w cid = Inl ErrNoRows \<longleftrightarrow>
     env_query_ok e \<and> cid \<notin> set (map sched_ConnectionID (schedules w))"
proof -
  have "filter (\<lambda>s. sched_ConnectionID s = cid) (schedules w) = []
          \<longleftrightarrow> cid \<notin> set (map sched_ConnectionID (schedules w))"
    by (auto simp: filter_empty_conv)
  then show ?thesis
    by (auto simp: repo_GetBackupSchedule_def latestSchedule_None split: option.splits)
qed

text \<open>The row an existing schedule with the given id turns into.\<close>

lemma schedule_existing:
  assumes p: "env_cron_Parse e (req_CronSchedule req) = Some nextRunOf"
      and wr: "env_write_schedule_ok e"
      and g: "repo_GetBackupSchedule e w (req_ConnectionID req) = Inr existing"
  shows "schedules (snd (ScheduleBackup e w req)) =
           map (\<lambda>s. if sched_ID s = sched_ID existing
                    then (overwritten e req (nextRunOf (env_now e)) s)
                           \<lparr> sched_LastBackupTime := sched_LastBackupTime existing \<rparr>
                    else s) (schedules w)"
proof -
  let ?ex = "existing\<lparr> sched_Enabled := True, sched_CronSchedule := req_CronSchedule req,
                       sched_RetentionDays := req_RetentionDays req,
                       sched_NextRunTime := Some (nextRunOf (env_now e)),
                       sched_UpdatedAt := env_now e \<rparr>"
  obtain w1 where u: "repo_UpdateBackupSchedule e w ?ex = (None, w1)"
    and s1: "schedules w1 =
           map (\<lambda>s. if sched_ID s = sched_ID existing
                    then (overwritten e req (nextRunOf (env_now e)) s)
                           \<lparr> sched_LastBackupTime := sched_LastBackupTime existing \<rparr>
                    else s) (schedules w)"
    using wr by (simp add: repo_UpdateBackupSchedule_def overwritten_def)
  define w2 where "w2 = (case cronEntries w1 (sched_ID existing) of
                           None \<Rightarrow> w1 | Some oldEntryID \<Rightarrow> cron_Remove w1 oldEntryID)"
  have s2: "schedules w2 = schedules w1"
    by (simp add: w2_def cron_keeps_schedules split: option.splits)
  obtain r w3 where a: "cron_AddFunc e w2 (req_CronSchedule req) = (r, w3)"
    by (cases "cron_AddFunc e w2 (req_CronSchedule req)")
  have s3: "schedules w3 = schedules w2"
    using cron_keeps_schedules(2)[of e w2 "req_CronSchedule req"] a by simp
  have "schedules (snd (ScheduleBackup e w req)) = schedules w3"
    using p g u a[unfolded w2_def]
    by (cases r) (simp_all add: ScheduleBackup_def Let_def)
  with s1 s2 s3 show ?thesis by simp
qed

lemma schedule_new:
  assumes p: "env_cron_Parse e (req_CronSchedule req) = Some nextRunOf"
      and wr: "env_write_schedule_ok e"
      and g: "repo_GetBackupSchedule e w (req_ConnectionID req) = Inl ErrNoRows"
      and fresh: "env_uuid_New e 0 \<notin> set (map sched_ID (schedules w))"
  shows "schedules (snd (ScheduleBackup e w req)) =
           schedules w @ [created e req (nextRunOf (env_now e))]"
proof -
  let ?new = "created e req (nextRunOf (env_now e))"
  obtain w1 where c: "repo_CreateBackupSchedule e w ?new = (None, w1)"
    and s1: "schedules w1 = schedules w @ [?new]"
    using wr fresh by (simp add: repo_CreateBackupSchedule_def created_def)
  obtain r w3 where a: "cron_AddFunc e w1 (req_CronSchedule req) = (r, w3)"
    by (cases "cron_AddFunc e w1 (req_CronSchedule req)")
  have s3: "schedules w3 = schedules w1"
    using cron_keeps_schedules(2)[of e w1 "req_CronSchedule req"] a by simp
  have "schedules (snd (ScheduleBackup e w req)) = schedules w3"
    using p g c a unfolding ScheduleBackup_def
    by (cases r) (simp_all add: Let_def created_def)
  with s1 s3 show ?thesis by simp
qed

lemma schedule_rejected:
  assumes "env_cron_Parse e (req_CronSchedule req) = None"
  shows "\<exists>err. ScheduleBackup e w req = (Some err, w)"
  using assms by (auto simp: ScheduleBackup_def split: sum.splits)

text \<open>Whatever happens, the schedules table afterwards is the old one, the old one
  with rows of one id rewritten in place, or the old one with one row added for a
  connection that had none.\<close>

lemma schedule_table_shapes:
  "schedules (snd (ScheduleBackup e w req)) = schedules w \<or>
   (\<exists>f. (\<forall>s. sched_ConnectionID (f s) = sched_ConnectionID s) \<and>
        schedules (snd (ScheduleBackup e w req)) = map f (schedules w)) \<or>
   (\<exists>new. sched_ConnectionID new \<notin> set (map sched_ConnectionID (schedules w)) \<and>
          schedules (snd (ScheduleBackup e w req)) = schedules w @ [new])"
proof (cases "env_cron_Parse e (req_CronSchedule req)")
  case None
  from schedule_rejected[OF None, of w] show ?thesis by auto
next
  case (Some nextRunOf)
  show ?thesis
  proof (cases "repo_GetBackupSchedule e w (req_ConnectionID req)")
    case (Inr existing)
    show ?thesis
    proof (cases "env_write_schedule_ok e")
      case True
      let ?f = "\<lambda>s. if sched_ID s = sched_ID existing
                    then (overwritten e req (nextRunOf (env_now e)) s)
                           \<lparr> sched_LastBackupTime := sched_LastBackupTime existing \<rparr>
                    else s"
      have "(\<forall>s. sched_ConnectionID (?f s) = sched_ConnectionID s) \<and>
            schedules (snd (ScheduleBackup e w req)) = map ?f (schedules w)"
        using schedule_existing[OF Some True Inr] by (simp add: overwritten_def)
      then have "\<exists>f. (\<forall>s. sched_ConnectionID (f s) = sched_ConnectionID s) \<and>
                   schedules (snd (ScheduleBackup e w req)) = map f (schedules w)"
        by (rule exI[where x="?f"])
      then show ?thesis by blast
    next
      case False
      with Some Inr have "ScheduleBackup e w req = (Some ErrUpdateSchedule, w)"
        by (simp add: ScheduleBackup_def repo_UpdateBackupSchedule_def Let_def)
      then show ?thesis by simp
    qed
  next
    case (Inl err)
    show ?thesis
    proof (cases "err = ErrNoRows")
      case False
      with Inl have "ScheduleBackup e w req = (Some ErrCheckExistingSchedule, w)"
        by (simp add: ScheduleBackup_def)
      then show ?thesis by simp
    next
      case True
      with Inl have g: "repo_GetBackupSchedule e w (req_ConnectionID req) = Inl ErrNoRows"
        by simp
      then have nc: "req_ConnectionID req \<notin> set (map sched_ConnectionID (schedules w))"
        by (simp add: GetBackupSchedule_NoRows)
      show ?thesis
      proof (cases "env_write_schedule_ok e \<and>
                    env_uuid_New e 0 \<notin> set (map sched_ID (schedules w))")
        case True
        with schedule_new[OF Some _ g] have
          "schedules (snd (ScheduleBackup e w req)) =
             schedules w @ [created e req (nextRunOf (env_now e))]" by blast
        moreover have "sched_ConnectionID (created e req (nextRunOf (env_now e))) = req_ConnectionID req"
          by (simp add: created_def)
        ultimately show ?thesis using nc by metis
      next
        case False
        then have "repo_CreateBackupSchedule e w (created e req (nextRunOf (env_now e)))
                     = (Some ErrDatabase, w)"
          by (auto simp: repo_CreateBackupSchedule_def created_def)
        with Some g have "ScheduleBackup e w req = (Some ErrSaveSchedule, w)"
          by (simp add: ScheduleBackup_def Let_def created_def)
        then show ?thesis by simp
      qed
    qed
  qed
qed

lemma GetBackupSchedule_after_update:
  assumes q: "env_query_ok e"
      and g: "repo_GetBackupSchedule e w cid = Inr existing"
      and f: "\<And>s. sched_ConnectionID (f s) = sched_ConnectionID s"
             "\<And>s. sched_CreatedAt (f s) = sched_CreatedAt s"
      and s: "schedules w' = map f (schedules w)"
  shows "repo_GetBackupSchedule e w' cid = Inr (f existing)"
proof -
  have "filter (\<lambda>s. sched_ConnectionID s = cid) (map f (schedules w))
          = map f (filter (\<lambda>s. sched_ConnectionID s = cid) (schedules w))"
    by (simp add: filter_map o_def f(1))
  moreover from g q have "latestSchedule (filter (\<lambda>s. sched_ConnectionID s = cid) (schedules w))
                            = Some existing"
    by (auto simp: repo_GetBackupSchedule_def split: option.splits)
  ultimately show ?thesis
    using q s latestSchedule_map[of f, OF f(2)]
    by (simp add: repo_GetBackupSchedule_def)
qed

text \<open>
  C8. \<open>ScheduleBackup\<close> is an upsert. An invalid cron expression is rejected with an
  error and the state is left as it was. With a valid expression and a store that
  answers: if a schedule exists for the connection, its row is rewritten in place with
  \<open>enabled = true\<close>, the new cron expression, the new retention days and
  \<open>next_run_time = Next(cron_expr, now)\<close>, and that is the schedule the connection has
  afterwards; if none exists, one new row with these values is added. In every case a
  table with at most one schedule per connection stays so.
\<close>

theorem schedule_backup_upsert:
  "(env_cron_Parse e (req_CronSchedule req) = None \<longrightarrow>
      (\<exists>err. ScheduleBackup e w req = (Some err, w))) \<and>
   (env_cron_Parse e (req_CronSchedule req) = Some nextRunOf \<and> env_query_ok e \<and>
    env_write_schedule_ok e \<longrightarrow>
      (\<forall>existing. repo_GetBackupSchedule e w (req_ConnectionID req) = Inr existing \<longrightarrow>
         schedules (snd (ScheduleBackup e w req)) =
           map (\<lambda>s. if sched_ID s = sched_ID existing
                    then (overwritten e req (nextRunOf (env_now e)) s)
                           \<lparr> sched_LastBackupTime := sched_LastBackupTime existing \<rparr>
                    else s) (schedules w) \<and>
         repo_GetBackupSchedule e (snd (ScheduleBackup e w req)) (req_ConnectionID req)
           = Inr (overwritten e req (nextRunOf (env_now e)) existing)) \<and>
      (repo_GetBackupSchedule e w (req_ConnectionID req) = Inl ErrNoRows \<and>
       env_uuid_New e 0 \<notin> set (map sched_ID (schedules w)) \<longrightarrow>
         schedules (snd (ScheduleBackup e w req)) =
           schedules w @ [created e req (nextRunOf (env_now e))] \<and>
         repo_GetBackupSchedule e (snd (ScheduleBackup e w req)) (req_ConnectionID req)
           = Inr (created e req (nextRunOf (env_now e))))) \<and>
   (one_schedule_per_connection (schedules w) \<longrightarrow>
      one_schedule_per_connection (schedules (snd (ScheduleBackup e w req))))"
proof (intro conjI impI allI)
  assume "env_cron_Parse e (req_CronSchedule req) = None"
  then show "\<exists>err. ScheduleBackup e w req = (Some err, w)" by (rule schedule_rejected)
next
  fix existing
  assume a: "env_cron_Parse e (req_CronSchedule req) = Some nextRunOf \<and> env_query_ok e \<and>
             env_write_schedule_ok e"
     and g: "repo_GetBackupSchedule e w (req_ConnectionID req) = Inr existing"
  from a have p: "env_cron_Parse e (req_CronSchedule req) = Some nextRunOf"
    and q: "env_query_ok e" and wr: "env_write_schedule_ok e" by blast+
  let ?f = "\<lambda>s. if sched_ID s = sched_ID existing
                then (overwritten e req (nextRunOf (env_now e)) s)
                       \<lparr> sched_LastBackupTime := sched_LastBackupTime existing \<rparr>
                else s"
  show s: "schedules (snd (ScheduleBackup e w req)) = map ?f (schedules w)"
    by (rule schedule_existing[OF p wr g])
  have "repo_GetBackupSchedule e (snd (ScheduleBackup e w req)) (req_ConnectionID req)
          = Inr (?f existing)"
    by (rule GetBackupSchedule_after_update[OF q g _ _ s]) (simp_all add: overwritten_def)
  then show "repo_GetBackupSchedule e (snd (ScheduleBackup e w req)) (req_ConnectionID req)
          = Inr (overwritten e req (nextRunOf (env_now e)) existing)"
    by (simp add: overwritten_def)
next
  assume a: "env_cron_Parse e (req_CronSchedule req) = Some nextRunOf \<and> env_query_ok e \<and>
             env_write_schedule_ok e"
     and b: "repo_GetBackupSchedule e w (req_ConnectionID req) = Inl ErrNoRows \<and>
             env_uuid_New e 0 \<notin> set (map sched_ID (schedules w))"
  from a have p: "env_cron_Parse e (req_CronSchedule req) = Some nextRunOf"
    and q: "env_query_ok e" and wr: "env_write_schedule_ok e" by blast+
  from b have g: "repo_GetBackupSchedule e w (req_ConnectionID req) = Inl ErrNoRows"
    and fresh: "env_uuid_New e 0 \<notin> set (map sched_ID (schedules w))" by blast+
  show s: "schedules (snd (ScheduleBackup e w req)) =
             schedules w @ [created e req (nextRunOf (env_now e))]"
    by (rule schedule_new[OF p wr g fresh])
  from g have "filter (\<lambda>s. sched_ConnectionID s = req_ConnectionID req) (schedules w) = []"
    by (force simp: GetBackupSchedule_NoRows filter_empty_conv)
  then show "repo_GetBackupSchedule e (snd (ScheduleBackup e w req)) (req_ConnectionID req)
          = Inr (created e req (nextRunOf (env_now e)))"
    using q by (simp add: repo_GetBackupSchedule_def s created_def)
next
  assume o: "one_schedule_per_connection (schedules w)"
  from schedule_table_shapes[of e w req]
  show "one_schedule_per_connection (schedules (snd (ScheduleBackup e w req)))"
  proof (elim disjE exE conjE)
    assume "schedules (snd (ScheduleBackup e w req)) = schedules w"
    with o show ?thesis by simp
  next
    fix f
    assume "\<forall>s. sched_ConnectionID (f s) = sched_ConnectionID s"
       and "schedules (snd (ScheduleBackup e w req)) = map f (schedules w)"
    with o show ?thesis by (simp add: one_schedule_per_connection_def o_def)
  next
    fix new
    assume "sched_ConnectionID new \<notin> set (map sched_ConnectionID (schedules w))"
       and "schedules (snd (ScheduleBackup e w req)) = schedules w @ [new]"
    with o show ?thesis by (simp add: one_schedule_per_connection_def)
  qed
qed


theorem schedule_backup_upsert_witness:
  "env_cron_Parse sample_env (req_CronSchedule bad_req) = None \<and>
   fst (ScheduleBackup sample_env empty_world bad_req) = Some ErrInvalidCron \<and>
   schedules (snd (ScheduleBackup sample_env empty_world bad_req)) = [] \<and>
   env_cron_Parse sample_env (req_CronSchedule daily_req) = Some next_midnight \<and>
   env_query_ok sample_env \<and> env_write_schedule_ok sample_env \<and>
   schedules (snd (ScheduleBackup sample_env empty_world daily_req))
     = [created sample_env daily_req 1036800] \<and>
   schedules (snd (ScheduleBackup sample_env
                     (snd (ScheduleBackup sample_env empty_world daily_req)) daily_req_30))
     = [(created sample_env daily_req 1036800)\<lparr> sched_RetentionDays := 30 \<rparr>] \<and>
   one_schedule_per_connection
     (schedules (snd (ScheduleBackup sample_env
                        (snd (ScheduleBackup sample_env empty_world daily_req)) daily_req_30)))"
proof -
  define w1 where "w1 = snd (ScheduleBackup sample_env empty_world daily_req)"
  have pb: "env_cron_Parse sample_env (req_CronSchedule bad_req) = None"
    by (simp add: sample_env_def bad_req_def daily_req_def)
  have pd: "env_cron_Parse sample_env (req_CronSchedule daily_req) = Some next_midnight"
           "env_cron_Parse sample_env (req_CronSchedule daily_req_30) = Some next_midnight"
    by (simp_all add: sample_env_def daily_req_def daily_req_30_def)
  have ok: "env_query_ok sample_env" "env_write_schedule_ok sample_env"
    by (simp_all add: sample_env_def)
  have nm: "next_midnight (env_now sample_env) = 1036800"
    by (simp add: next_midnight_def sample_env_def)
  have e0: "schedules empty_world = []" by (simp add: empty_world_def)
  have g0: "repo_GetBackupSchedule sample_env empty_world (req_ConnectionID daily_req)
              = Inl ErrNoRows"
    by (simp add: GetBackupSchedule_NoRows ok e0)
  have cid: "req_ConnectionID daily_req_30 = req_ConnectionID daily_req"
    by (simp add: daily_req_30_def)
  from schedule_backup_upsert[where e=sample_env and req=bad_req and nextRunOf=next_midnight and w=empty_world] pb
  obtain err where r: "ScheduleBackup sample_env empty_world bad_req = (Some err, empty_world)"
    by blast
  have r': "fst (ScheduleBackup sample_env empty_world bad_req) = Some ErrInvalidCron"
    by code_simp
  from schedule_backup_upsert[where e=sample_env and req=daily_req and nextRunOf=next_midnight and w=empty_world] pd ok g0 e0
  have s1: "schedules w1 = [created sample_env daily_req 1036800]"
    and g1: "repo_GetBackupSchedule sample_env w1 (req_ConnectionID daily_req)
               = Inr (created sample_env daily_req 1036800)"
    unfolding w1_def nm by simp_all
  have o1: "one_schedule_per_connection (schedules w1)"
    by (simp add: s1 one_schedule_per_connection_def)
  from schedule_backup_upsert[where e=sample_env and req=daily_req_30 and nextRunOf=next_midnight and w=w1] pd ok
       g1[folded cid] o1
  have s2: "schedules (snd (ScheduleBackup sample_env w1 daily_req_30)) =
              map (\<lambda>s. if sched_ID s = sched_ID (created sample_env daily_req 1036800)
                       then (overwritten sample_env daily_req_30 1036800 s)
                              \<lparr> sched_LastBackupTime :=
                                  sched_LastBackupTime (created sample_env daily_req 1036800) \<rparr>
                       else s) (schedules w1)"
    and o2: "one_schedule_per_connection (schedules (snd (ScheduleBackup sample_env w1 daily_req_30)))"
    unfolding nm by blast+
  have s2': "schedules (snd (ScheduleBackup sample_env w1 daily_req_30))
               = [(created sample_env daily_req 1036800)\<lparr> sched_RetentionDays := 30 \<rparr>]"
    unfolding s2 s1
    by (simp add: overwritten_def created_def daily_req_30_def daily_req_def)
  show ?thesis
    using pb r r' pd(1) ok s1 s2' o2 e0 unfolding w1_def by simp
qed

end
